(* ===== verification/Prelude.thy ===== *)
theory Prelude
  imports Main "HOL-Library.List_Lexorder" "HOL-Library.Word"
begin

section \<open>Shared types, the exception monad and generic lemmas\<close>

text \<open>
  What every component of the release tooling shares: Python text and byte strings as
  lists, exceptions as values of a sum type, monadic loops over lists, and the contract
  of the many loops of the scripts that fill a dictionary and refuse a repeated key
  (locale \<open>unique_collector\<close>).

  A Python \<open>str\<close> is the list of its code points, a \<open>bytes\<close> object a list of
  8-bit words, and a \<open>dict\<close> an association list in insertion order.
\<close>

type_synonym pystr = "nat list"
type_synonym bytes = "8 word list"
type_synonym ('k, 'v) dict = "('k \<times> 'v) list"

text \<open>
  Exceptions. The first argument is the fixed text of the message, with \<open>{}\<close> where the
  source interpolates; the second lists the interpolated strings.
\<close>

datatype exc =
    AuditError string "pystr list"
  | VerificationError string "pystr list"
  | RunError string "pystr list"
  | ValueError string "pystr list"
  | KeyError pystr
  | TypeError
  | AttributeError
  | UnicodeDecodeError
  | StructError
  | OSError string "pystr list"

text \<open>Reading a file: its bytes, or the \<open>OSError\<close> of a missing or an unreadable one.\<close>

datatype file_read = Missing | Unreadable | Content bytes

type_synonym 'a res = "exc + 'a"

named_theorems res_simps \<open>success of a computation in the exception monad\<close>

subsection \<open>Sequencing\<close>

definition andThen :: "'e + 'a \<Rightarrow> ('a \<Rightarrow> 'e + 'b) \<Rightarrow> 'e + 'b" where
  "andThen m f = (case m of Inl e \<Rightarrow> Inl e | Inr x \<Rightarrow> f x)"

lemma andThen_simps [simp]:
  "andThen (Inr x) f = f x"
  "andThen (Inl e) f = Inl e"
  by (simp_all add: andThen_def)

lemma andThen_eq_Inr [res_simps]:
  "andThen m f = Inr y \<longleftrightarrow> (\<exists>x. m = Inr x \<and> f x = Inr y)"
  by (cases m) auto

lemma andThen_eq_Inl [res_simps]:
  "andThen m f = Inl e \<longleftrightarrow> m = Inl e \<or> (\<exists>x. m = Inr x \<and> f x = Inl e)"
  by (cases m) auto

lemma andThen_cong [fundef_cong]:
  assumes "m = m'" and "\<And>x. m' = Inr x \<Longrightarrow> f x = f' x"
  shows "andThen m f = andThen m' f'"
  using assms by (cases m') auto

definition fail :: "string \<Rightarrow> pystr list \<Rightarrow> 'a res" where
  "fail m args = Inl (AuditError m args)"

definition require :: "bool \<Rightarrow> string \<Rightarrow> pystr list \<Rightarrow> unit res" where
  "require c m args = (if c then Inr () else Inl (VerificationError m args))"

definition get_item :: "('k, 'v) dict \<Rightarrow> 'k \<Rightarrow> exc \<Rightarrow> 'v res" where
  "get_item d k e = (case map_of d k of None \<Rightarrow> Inl e | Some v \<Rightarrow> Inr v)"

lemma fail_eq [res_simps]:
  "fail m a = Inr x \<longleftrightarrow> False"
  "fail m a = Inl e \<longleftrightarrow> e = AuditError m a"
  by (auto simp: fail_def)

lemma require_eq [res_simps]:
  "require c m a = Inr u \<longleftrightarrow> c"
  "require c m a = Inl e \<longleftrightarrow> \<not> c \<and> e = VerificationError m a"
  by (auto simp: require_def)

lemma get_item_eq_Inr [res_simps]: "get_item d k e = Inr v \<longleftrightarrow> map_of d k = Some v"
  by (auto simp: get_item_def split: option.splits)

lemma if_eq_Inr [res_simps]:
  "(if c then Inl e else m) = Inr y \<longleftrightarrow> \<not> c \<and> m = Inr y"
  "(if c then fail t a else m) = Inr y \<longleftrightarrow> \<not> c \<and> m = Inr y"
  by (auto simp: fail_def)

subsection \<open>Loops\<close>

fun foldE :: "('s \<Rightarrow> 'x \<Rightarrow> 'e + 's) \<Rightarrow> 's \<Rightarrow> 'x list \<Rightarrow> 'e + 's" where
  "foldE f s [] = Inr s"
| "foldE f s (x # xs) = andThen (f s x) (\<lambda>s'. foldE f s' xs)"

fun forE :: "('x \<Rightarrow> 'e + unit) \<Rightarrow> 'x list \<Rightarrow> 'e + unit" where
  "forE f [] = Inr ()"
| "forE f (x # xs) = andThen (f x) (\<lambda>_. forE f xs)"

fun mapE :: "('x \<Rightarrow> 'e + 'y) \<Rightarrow> 'x list \<Rightarrow> 'e + 'y list" where
  "mapE f [] = Inr []"
| "mapE f (x # xs) = andThen (f x) (\<lambda>y. andThen (mapE f xs) (\<lambda>ys. Inr (y # ys)))"

lemma forE_eq_Inr [res_simps]: "forE f xs = Inr u \<longleftrightarrow> (\<forall>x \<in> set xs. f x = Inr ())"
  by (induction xs) (auto simp: res_simps)

lemma mapE_eq_Inr: "mapE f xs = Inr ys \<longleftrightarrow> list_all2 (\<lambda>x y. f x = Inr y) xs ys"
  by (induction xs arbitrary: ys) (auto simp: res_simps list_all2_Cons1)

lemma foldE_append:
  "foldE f s (xs @ ys) = andThen (foldE f s xs) (\<lambda>s'. foldE f s' ys)"
proof (induction xs arbitrary: s)
  case (Cons x xs)
  then show ?case by (cases "f s x") auto
qed simp

lemma foldE_invariant:
  assumes "foldE f s xs = Inr s'" and "P s"
    and "\<And>t x t'. x \<in> set xs \<Longrightarrow> P t \<Longrightarrow> f t x = Inr t' \<Longrightarrow> P t'"
  shows "P s'"
  using assms
proof (induction xs arbitrary: s)
  case (Cons x xs)
  then obtain t where "f s x = Inr t" and "foldE f t xs = Inr s'"
    by (auto simp: res_simps)
  then show ?case using Cons.IH [of t] Cons.prems by auto
qed simp

subsection \<open>Which exceptions a computation can raise\<close>

definition raises :: "('e \<Rightarrow> bool) \<Rightarrow> 'e + 'a \<Rightarrow> bool" where
  "raises P m \<longleftrightarrow> (case m of Inl e \<Rightarrow> P e | Inr _ \<Rightarrow> True)"

named_theorems raise_intros \<open>which exceptions a computation can raise, by its structure\<close>

lemma raises_Inr [simp, raise_intros]: "raises P (Inr x)"
  by (simp add: raises_def)

lemma raises_Inl [simp]: "raises P (Inl e) \<longleftrightarrow> P e"
  by (simp add: raises_def)

lemma raises_andThen [raise_intros]:
  "raises P m \<Longrightarrow> (\<And>x. m = Inr x \<Longrightarrow> raises P (f x)) \<Longrightarrow> raises P (andThen m f)"
  by (cases m) auto

lemma raises_if [raise_intros]:
  "(c \<Longrightarrow> raises P a) \<Longrightarrow> (\<not> c \<Longrightarrow> raises P b) \<Longrightarrow> raises P (if c then a else b)"
  by simp

lemma raises_fail [raise_intros]: "P (AuditError m a) \<Longrightarrow> raises P (fail m a)"
  by (simp add: fail_def)

lemma raises_forE [raise_intros]:
  "(\<And>x. x \<in> set xs \<Longrightarrow> raises P (f x)) \<Longrightarrow> raises P (forE f xs)"
  by (induction xs) (auto intro: raises_andThen)

lemma raises_case_prod: "(\<And>a b. x = (a, b) \<Longrightarrow> raises P (f a b)) \<Longrightarrow> raises P (case x of (a, b) \<Rightarrow> f a b)"
  by (cases x) simp

lemma raises_mono: "raises P m \<Longrightarrow> (\<And>e. P e \<Longrightarrow> Q e) \<Longrightarrow> raises Q m"
  by (cases m) auto

subsection \<open>Dictionaries as association lists\<close>

definition keys :: "('k, 'v) dict \<Rightarrow> 'k set" where
  "keys d = fst ` set d"

fun dict_set :: "('k, 'v) dict \<Rightarrow> 'k \<Rightarrow> 'v \<Rightarrow> ('k, 'v) dict" where
  "dict_set [] k v = [(k, v)]"
| "dict_set (p # d) k v = (if fst p = k then (k, v) # d else p # dict_set d k v)"

lemma keys_simps [simp]:
  "keys [] = {}"
  "keys (p # d) = insert (fst p) (keys d)"
  "keys (d @ d') = keys d \<union> keys d'"
  by (auto simp: keys_def)

lemma keys_eq_dom: "keys d = dom (map_of d)"
  by (simp add: keys_def dom_map_of_conv_image_fst)

lemma keys_iff_Some: "k \<in> keys d \<longleftrightarrow> (\<exists>v. map_of d k = Some v)"
  by (auto simp: keys_eq_dom)

lemma raises_get_item [raise_intros]: "k \<in> keys d \<Longrightarrow> raises P (get_item d k e)"
  by (auto simp: get_item_def keys_iff_Some)

lemma keys_set_map: "keys d = set (map fst d)"
  by (simp add: keys_def)

lemma map_of_dict_set [simp]: "map_of (dict_set d k v) = (map_of d)(k \<mapsto> v)"
  by (induction d) (auto simp: fun_eq_iff)

lemma keys_dict_set [simp]: "keys (dict_set d k v) = insert k (keys d)"
  by (induction d) auto

lemma distinct_dict_set: "distinct (map fst d) \<Longrightarrow> distinct (map fst (dict_set d k v))"
proof (induction d)
  case (Cons p d)
  have "fst ` set (dict_set d k v) = insert k (fst ` set d)"
    using keys_dict_set [of d k v] by (simp add: keys_def)
  with Cons show ?case by auto
qed simp

subsection \<open>Lists\<close>

lemma sorted_le_last: "sorted xs \<Longrightarrow> x \<in> set xs \<Longrightarrow> x \<le> last xs"
  by (induction xs rule: rev_induct) (auto simp: sorted_append)

subsection \<open>Loops that fill a dictionary and refuse a repeated key\<close>

text \<open>
  The contract shared by \<open>notice_fields\<close>, \<open>parse_build_properties\<close>, the reading of
  \<open>SHA256SUMS\<close>, \<open>reject_duplicate_json_keys\<close> and the archive readers: every item
  is skipped, refused or gives one key and value, and a key already present raises.
\<close>

fun collected :: "('l \<Rightarrow> 'e + ('k \<times> ('e + 'v)) option) \<Rightarrow> 'l list \<Rightarrow> ('k \<times> 'v) list" where
  "collected entry [] = []"
| "collected entry (l # ls) =
     (case entry l of Inr (Some (k, Inr v)) \<Rightarrow> (k, v) # collected entry ls | _ \<Rightarrow> collected entry ls)"

definition entry_ok :: "('l \<Rightarrow> 'e + ('k \<times> ('e + 'v)) option) \<Rightarrow> 'l \<Rightarrow> bool" where
  "entry_ok entry l \<longleftrightarrow> (case entry l of
       Inl e \<Rightarrow> False
     | Inr None \<Rightarrow> True
     | Inr (Some (k, m)) \<Rightarrow> (case m of Inl e \<Rightarrow> False | Inr v \<Rightarrow> True))"

lemma entry_okE:
  assumes "entry_ok entry l"
  obtains "entry l = Inr None" | k v where "entry l = Inr (Some (k, Inr v))"
  using assms by (auto simp: entry_ok_def split: sum.splits option.splits) (metis sum.exhaust)

locale unique_collector =
  fixes entry :: "'l \<Rightarrow> 'e + ('k \<times> ('e + 'v)) option"
    and dup :: "'k \<Rightarrow> 'e"
    and loop :: "('k \<times> 'v) list \<Rightarrow> 'l list \<Rightarrow> 'e + ('k \<times> 'v) list"
  assumes loop_Nil: "loop acc [] = Inr acc"
    and loop_Cons: "loop acc (l # ls) = (case entry l of
        Inl e \<Rightarrow> Inl e
      | Inr None \<Rightarrow> loop acc ls
      | Inr (Some (k, m)) \<Rightarrow>
          if k \<in> keys acc then Inl (dup k)
          else (case m of Inl e \<Rightarrow> Inl e | Inr v \<Rightarrow> loop (acc @ [(k, v)]) ls))"
begin

lemma loop_result: "loop acc ls = Inr d \<Longrightarrow> d = acc @ collected entry ls"
proof (induction ls arbitrary: acc)
  case Nil
  then show ?case by (simp add: loop_Nil)
next
  case (Cons l ls)
  then show ?case
    by (fastforce simp: loop_Cons split: sum.splits option.splits prod.splits if_splits)
qed

lemma loop_distinct:
  "loop acc ls = Inr d \<Longrightarrow> distinct (map fst acc) \<Longrightarrow> distinct (map fst d)"
proof (induction ls arbitrary: acc)
  case Nil
  then show ?case by (simp add: loop_Nil)
next
  case (Cons l ls)
  then show ?case
    by (fastforce simp: loop_Cons keys_def split: sum.splits option.splits prod.splits if_splits)
qed

lemma loop_entries_ok: "loop acc ls = Inr d \<Longrightarrow> l \<in> set ls \<Longrightarrow> entry_ok entry l"
proof (induction ls arbitrary: acc)
  case (Cons l' ls)
  then show ?case
    by (fastforce simp: loop_Cons entry_ok_def split: sum.splits option.splits prod.splits if_splits)
qed simp

lemma loop_raises:
  assumes "\<And>l. raises P (entry l)" and "\<And>l k m. entry l = Inr (Some (k, m)) \<Longrightarrow> raises P m"
    and "\<And>k. P (dup k)"
  shows "raises P (loop acc ls)"
proof (induction ls arbitrary: acc)
  case Nil
  then show ?case by (simp add: loop_Nil)
next
  case (Cons l ls)
  have "raises P m" if "entry l = Inr (Some (k, m))" for k m using assms(2) that by blast
  then show ?case using Cons assms(1) [of l] assms(3)
    by (fastforce simp: loop_Cons split: sum.splits option.splits)
qed

lemma loop_complete:
  assumes "\<And>l. l \<in> set ls \<Longrightarrow> entry_ok entry l"
    and "distinct (map fst (acc @ collected entry ls))"
  shows "loop acc ls = Inr (acc @ collected entry ls)"
  using assms
proof (induction ls arbitrary: acc)
  case Nil
  then show ?case by (simp add: loop_Nil)
next
  case (Cons l ls)
  have "entry_ok entry l" using Cons.prems(1) [of l] by auto
  then show ?case
  proof (cases rule: entry_okE)
    case 1
    with Cons show ?thesis by (simp add: loop_Cons)
  next
    case (2 k v)
    have fresh: "k \<notin> keys acc"
      using Cons.prems(2) 2 by (auto simp: keys_def)
    have "loop (acc @ [(k, v)]) ls = Inr ((acc @ [(k, v)]) @ collected entry ls)"
      using Cons.prems 2 by (intro Cons.IH) auto
    with 2 fresh show ?thesis by (simp add: loop_Cons)
  qed
qed

lemma loop_iff:
  "loop [] ls = Inr d \<longleftrightarrow>
     (\<forall>l \<in> set ls. entry_ok entry l) \<and> d = collected entry ls \<and> distinct (map fst d)"
  using loop_result [of "[]" ls d] loop_distinct [of "[]" ls d] loop_entries_ok [of "[]" ls d]
    loop_complete [of ls "[]"]
  by auto

end

lemma collected_mem:
  "(k, v) \<in> set (collected entry ls) \<longleftrightarrow> (\<exists>l \<in> set ls. entry l = Inr (Some (k, Inr v)))"
  by (induction ls) (auto split: sum.splits option.splits)

lemma collected_map_Some:
  "(\<And>x. x \<in> set xs \<Longrightarrow> entry (f x) = Inr (Some (fst (g x), Inr (snd (g x))))) \<Longrightarrow>
   collected entry (map f xs) = map g xs"
  by (induction xs) auto

end
