(* ===== verification/PyText.thy ===== *)
theory PyText
  imports Prelude
begin

section \<open>Python text and byte strings\<close>

text \<open>
  The methods of \<open>str\<close>, \<open>bytes\<close> and \<open>PurePosixPath\<close> that the scripts call, on code
  points and on 8-bit words: literals, prefixes and suffixes, substring search, \<open>split\<close>,
  \<open>splitlines\<close>, \<open>strip\<close>, \<open>join\<close>, UTF-8 and ASCII decoding, and the character classes of
  the scripts' regular expressions.
\<close>

subsection \<open>Literals\<close>

definition U :: "string \<Rightarrow> pystr" where
  "U s = map of_char s"

definition B :: "string \<Rightarrow> bytes" where
  "B s = map of_char s"

lemma U_eq_iff [simp]: "U s = U t \<longleftrightarrow> s = t"
  unfolding U_def by (rule inj_eq) (simp add: inj_def)

lemma U_Nil [simp]: "U [] = []"
  by (simp add: U_def)

lemma U_Cons: "U (c # s) = of_char c # U s"
  by (simp add: U_def)

lemma length_U [simp]: "length (U s) = length s"
  by (simp add: U_def)

lemma set_U_less: "c \<in> set (U s) \<Longrightarrow> c < 256"
  by (auto simp: U_def)

subsection \<open>Prefixes, suffixes, substrings\<close>

definition startswith :: "'a list \<Rightarrow> 'a list \<Rightarrow> bool" where
  "startswith s p \<longleftrightarrow> take (length p) s = p"

definition endswith :: "'a list \<Rightarrow> 'a list \<Rightarrow> bool" where
  "endswith s p \<longleftrightarrow> length p \<le> length s \<and> drop (length s - length p) s = p"

fun contains :: "'a list \<Rightarrow> 'a list \<Rightarrow> bool" where
  "contains [] p \<longleftrightarrow> p = []"
| "contains (c # s) p \<longleftrightarrow> startswith (c # s) p \<or> contains s p"

definition removesuffix :: "'a list \<Rightarrow> 'a list \<Rightarrow> 'a list" where
  "removesuffix s p = (if endswith s p \<and> p \<noteq> [] then take (length s - length p) s else s)"

definition removeprefix :: "'a list \<Rightarrow> 'a list \<Rightarrow> 'a list" where
  "removeprefix s p = (if startswith s p then drop (length p) s else s)"

lemma startswith_iff: "startswith s p \<longleftrightarrow> (\<exists>t. s = p @ t)"
  unfolding startswith_def by (metis append_eq_conv_conj append_take_drop_id)

lemma endswith_iff: "endswith s p \<longleftrightarrow> (\<exists>t. s = t @ p)"
proof
  assume "endswith s p"
  then have "s = take (length s - length p) s @ p"
    unfolding endswith_def by (metis append_take_drop_id)
  then show "\<exists>t. s = t @ p" by blast
qed (auto simp: endswith_def)

lemma contains_iff: "contains s p \<longleftrightarrow> (\<exists>l r. s = l @ p @ r)"
proof (induction s)
  case Nil
  then show ?case by auto
next
  case (Cons c s)
  have "(\<exists>l r. c # s = l @ p @ r) \<longleftrightarrow> (\<exists>r. c # s = p @ r) \<or> (\<exists>l r. s = l @ p @ r)"
    by (metis append_Cons append_Nil list.exhaust list.inject)
  with Cons show ?case by (simp add: startswith_iff)
qed

lemma startswith_append [simp]: "startswith (p @ t) p"
  by (simp add: startswith_iff)

lemma endswith_append [simp]: "endswith (t @ p) p"
  by (simp add: endswith_iff)

lemma contains_append [simp]: "contains (l @ p @ r) p"
  by (auto simp: contains_iff)

lemma contains_refl [simp]: "contains s s"
  using contains_append [of "[]" s "[]"] by simp

subsection \<open>Splitting and joining\<close>

fun split_on :: "'a \<Rightarrow> 'a list \<Rightarrow> 'a list list" where
  "split_on c [] = [[]]"
| "split_on c (x # xs) =
     (if x = c then [] # split_on c xs
      else (case split_on c xs of [] \<Rightarrow> [[x]] | y # ys \<Rightarrow> (x # y) # ys))"

fun join :: "'a list \<Rightarrow> 'a list list \<Rightarrow> 'a list" where
  "join sep [] = []"
| "join sep [x] = x"
| "join sep (x # y # ys) = x @ sep @ join sep (y # ys)"

text \<open>\<open>s.split(c, 1)\<close> for a separator that occurs: what is before it and after it.\<close>

definition split1 :: "'a \<Rightarrow> 'a list \<Rightarrow> 'a list \<times> 'a list" where
  "split1 c s = (takeWhile (\<lambda>x. x \<noteq> c) s, drop 1 (dropWhile (\<lambda>x. x \<noteq> c) s))"

lemma split_on_nonempty [simp]: "split_on c xs \<noteq> []"
  by (cases xs) (auto split: list.splits)

lemma split_on_no_sep: "c \<notin> set xs \<Longrightarrow> split_on c xs = [xs]"
  by (induction xs) auto

lemma split_on_parts_no_sep: "p \<in> set (split_on c xs) \<Longrightarrow> c \<notin> set p"
  by (induction xs arbitrary: p) (fastforce split: if_splits list.splits)+

lemma join_split_on [simp]: "join [c] (split_on c xs) = xs"
proof (induction xs)
  case (Cons x xs)
  show ?case
  proof (cases "split_on c xs")
    case Nil
    then show ?thesis by simp
  next
    case (Cons y ys)
    with \<open>join [c] (split_on c xs) = xs\<close> show ?thesis
      by (cases ys) auto
  qed
qed simp

lemma split_on_join:
  "ps \<noteq> [] \<Longrightarrow> (\<And>p. p \<in> set ps \<Longrightarrow> c \<notin> set p) \<Longrightarrow> split_on c (join [c] ps) = ps"
proof (induction ps rule: induct_list012)
  case (3 x y zs)
  have "split_on c (x @ c # join [c] (y # zs)) = x # split_on c (join [c] (y # zs))"
    if "c \<notin> set x" for x
    using that by (induction x) auto
  with 3 show ?case by simp
qed (auto simp: split_on_no_sep)

lemma split1_append: "c \<notin> set k \<Longrightarrow> split1 c (k @ c # v) = (k, v)"
  by (induction k) (auto simp: split1_def)

lemma split1_rejoin: "c \<in> set s \<Longrightarrow> split1 c s = (k, v) \<Longrightarrow> s = k @ c # v \<and> c \<notin> set k"
proof -
  assume "c \<in> set s" and eq: "split1 c s = (k, v)"
  then obtain a z where s: "s = a @ c # z" "c \<notin> set a" using split_list_first by metis
  then show ?thesis using eq split1_append [of c a z] by simp
qed

subsection \<open>Lines and white space\<close>

text \<open>The line boundaries of \<open>str.splitlines\<close> and the white space of \<open>str.strip\<close>.\<close>

definition is_linebreak :: "nat \<Rightarrow> bool" where
  "is_linebreak c \<longleftrightarrow> c \<in> {10, 11, 12, 13, 28, 29, 30, 133, 8232, 8233}"

definition is_space :: "nat \<Rightarrow> bool" where
  "is_space c \<longleftrightarrow> c \<in> {9, 10, 11, 12, 13, 28, 29, 30, 31, 32, 133, 160, 5760, 8192, 8193, 8194,
     8195, 8196, 8197, 8198, 8199, 8200, 8201, 8202, 8232, 8233, 8239, 8287, 12288}"

function splitlines :: "pystr \<Rightarrow> pystr list" where
  "splitlines s = (if s = [] then []
     else takeWhile (\<lambda>c. \<not> is_linebreak c) s #
       (case dropWhile (\<lambda>c. \<not> is_linebreak c) s of
          [] \<Rightarrow> []
        | c # t \<Rightarrow> splitlines (if c = 13 \<and> t \<noteq> [] \<and> hd t = 10 then tl t else t)))"
  by pat_completeness auto
termination
proof (relation "measure length", goal_cases)
  case (2 s c t)
  then have "length (dropWhile (\<lambda>c. \<not> is_linebreak c) s) = Suc (length t)" by simp
  moreover have "length (dropWhile (\<lambda>c. \<not> is_linebreak c) s) \<le> length s"
    by (rule length_dropWhile_le)
  ultimately have "Suc (length t) \<le> length s" by linarith
  then show ?case by auto
qed simp

declare splitlines.simps [simp del]

lemma splitlines_Nil [simp]: "splitlines [] = []"
  by (subst splitlines.simps) simp

lemma splitlines_cases:
  assumes "s \<noteq> []"
  shows "splitlines s = takeWhile (\<lambda>c. \<not> is_linebreak c) s #
    (case dropWhile (\<lambda>c. \<not> is_linebreak c) s of [] \<Rightarrow> []
     | c # t \<Rightarrow> splitlines (if c = 13 \<and> t \<noteq> [] \<and> hd t = 10 then tl t else t))"
  using assms by (subst splitlines.simps) (simp only: if_False)

lemma splitlines_no_break: "l \<in> set (splitlines s) \<Longrightarrow> c \<in> set l \<Longrightarrow> \<not> is_linebreak c"
proof (induction s rule: splitlines.induct)
  case (1 s)
  have "s \<noteq> []" using "1.prems"(1) by auto
  note cases = splitlines_cases [OF this]
  show ?case
  proof (cases "dropWhile (\<lambda>c. \<not> is_linebreak c) s")
    case Nil
    then have "splitlines s = [takeWhile (\<lambda>c. \<not> is_linebreak c) s]" by (simp only: cases list.case)
    then show ?thesis using "1.prems" by (auto dest: set_takeWhileD)
  next
    case (Cons d t)
    then have "splitlines s = takeWhile (\<lambda>c. \<not> is_linebreak c) s #
        splitlines (if d = 13 \<and> t \<noteq> [] \<and> hd t = 10 then tl t else t)"
      by (simp only: cases list.case)
    then show ?thesis
      using "1.prems" "1.IH" [OF \<open>s \<noteq> []\<close> Cons] by (auto dest: set_takeWhileD)
  qed
qed

lemma splitlines_line:
  assumes "\<And>c. c \<in> set l \<Longrightarrow> \<not> is_linebreak c"
  shows "splitlines (l @ 10 # r) = l # splitlines r"
proof -
  have "takeWhile (\<lambda>c. \<not> is_linebreak c) (l @ 10 # r) = l"
    and "dropWhile (\<lambda>c. \<not> is_linebreak c) (l @ 10 # r) = 10 # r"
    using assms by (simp_all add: is_linebreak_def)
  then show ?thesis by (subst splitlines.simps) simp
qed

lemma splitlines_last:
  assumes "\<And>c. c \<in> set l \<Longrightarrow> \<not> is_linebreak c" and "l \<noteq> []"
  shows "splitlines l = [l]"
proof -
  have "takeWhile (\<lambda>c. \<not> is_linebreak c) l = l"
    and "dropWhile (\<lambda>c. \<not> is_linebreak c) l = []"
    using assms(1) by simp_all
  then show ?thesis using assms(2) by (subst splitlines.simps) (simp only: if_False list.case)
qed

lemma splitlines_concat_lines:
  assumes "\<And>l c. l \<in> set ls \<Longrightarrow> c \<in> set l \<Longrightarrow> \<not> is_linebreak c"
  shows "splitlines (concat (map (\<lambda>l. l @ [10]) ls) @ r) = ls @ splitlines r"
  using assms
proof (induction ls)
  case (Cons l ls)
  then have "splitlines (l @ 10 # (concat (map (\<lambda>l. l @ [10]) ls) @ r)) =
      l # splitlines (concat (map (\<lambda>l. l @ [10]) ls) @ r)"
    by (intro splitlines_line) auto
  moreover have "splitlines (concat (map (\<lambda>l. l @ [10]) ls) @ r) = ls @ splitlines r"
    using Cons.prems by (intro Cons.IH) auto
  ultimately show ?case by simp
qed simp

definition lstrip :: "pystr \<Rightarrow> pystr" where
  "lstrip s = dropWhile is_space s"

definition strip :: "pystr \<Rightarrow> pystr" where
  "strip s = rev (dropWhile is_space (rev (lstrip s)))"

lemma strip_idem_nonspace:
  "s \<noteq> [] \<Longrightarrow> \<not> is_space (hd s) \<Longrightarrow> \<not> is_space (last s) \<Longrightarrow> strip s = s"
proof -
  assume "s \<noteq> []" "\<not> is_space (hd s)" "\<not> is_space (last s)"
  then have "lstrip s = s" and "dropWhile is_space (rev s) = rev s"
    by (auto simp: lstrip_def dropWhile_eq_self_iff hd_rev)
  then show ?thesis by (simp add: strip_def)
qed

text \<open>
  \<open>str.lower\<close>: the ASCII letters, and the two other code points with an ASCII letter in
  their lower case (Kelvin sign, I with dot above); the rest is left as it is, because
  every caller looks for an ASCII substring of the result.
\<close>

definition lower_char :: "nat \<Rightarrow> pystr" where
  "lower_char c = (if 65 \<le> c \<and> c \<le> 90 then [c + 32]
     else if c = 8490 then [107] else if c = 304 then [105, 775] else [c])"

definition lower :: "pystr \<Rightarrow> pystr" where
  "lower s = concat (map lower_char s)"

subsection \<open>Character classes\<close>

definition is_digit :: "nat \<Rightarrow> bool" where
  "is_digit c \<longleftrightarrow> 48 \<le> c \<and> c \<le> 57"

definition is_lower_hex :: "nat \<Rightarrow> bool" where
  "is_lower_hex c \<longleftrightarrow> is_digit c \<or> 97 \<le> c \<and> c \<le> 102"

definition is_hex :: "nat \<Rightarrow> bool" where
  "is_hex c \<longleftrightarrow> is_lower_hex c \<or> 65 \<le> c \<and> c \<le> 70"

text \<open>\<open>re.fullmatch(r"[0-9a-f]{n}", s)\<close>.\<close>

definition hex_id :: "nat \<Rightarrow> pystr \<Rightarrow> bool" where
  "hex_id n s \<longleftrightarrow> length s = n \<and> list_all is_lower_hex s"

lemma is_lower_hex_not_break: "is_lower_hex c \<Longrightarrow> \<not> is_linebreak c \<and> \<not> is_space c \<and> c < 128"
  by (auto simp: is_lower_hex_def is_digit_def is_linebreak_def is_space_def)

lemma hex_id_chars: "hex_id n s \<Longrightarrow> c \<in> set s \<Longrightarrow> is_lower_hex c"
  by (auto simp: hex_id_def list_all_iff)

text \<open>Decimal numerals, \<open>str(n)\<close> and \<open>int(s)\<close> for a digit string.\<close>

fun str_nat :: "nat \<Rightarrow> pystr" where
  "str_nat n = (if n < 10 then [48 + n] else str_nat (n div 10) @ [48 + n mod 10])"

declare str_nat.simps [simp del]

definition int_of_digits :: "pystr \<Rightarrow> nat" where
  "int_of_digits s = foldl (\<lambda>n c. 10 * n + (c - 48)) 0 s"

lemma str_nat_digits: "c \<in> set (str_nat n) \<Longrightarrow> is_digit c"
proof (induction n arbitrary: c rule: str_nat.induct)
  case (1 n)
  have "n mod 10 < 10" by simp
  with 1 show ?case
    by (subst (asm) (2) str_nat.simps) (auto simp: is_digit_def split: if_splits)
qed

lemma str_nat_nonempty [simp]: "str_nat n \<noteq> []"
  by (subst str_nat.simps) simp

lemma int_of_digits_str_nat [simp]: "int_of_digits (str_nat n) = n"
proof (induction n rule: str_nat.induct)
  case (1 n)
  show ?case
  proof (cases "n < 10")
    case True
    then show ?thesis by (subst str_nat.simps) (simp add: int_of_digits_def)
  next
    case False
    with 1 show ?thesis by (subst str_nat.simps) (simp add: int_of_digits_def)
  qed
qed

text \<open>A number in a given count of lower-case hexadecimal digits.\<close>

definition hex_digit :: "nat \<Rightarrow> nat" where
  "hex_digit d = (if d < 10 then 48 + d else 87 + d)"

fun hex_word :: "nat \<Rightarrow> nat \<Rightarrow> pystr" where
  "hex_word 0 n = []"
| "hex_word (Suc k) n = hex_word k (n div 16) @ [hex_digit (n mod 16)]"

lemma length_hex_word [simp]: "length (hex_word k n) = k"
  by (induction k arbitrary: n) auto

lemma hex_word_lower: "list_all is_lower_hex (hex_word k n)"
proof (induction k arbitrary: n)
  case (Suc k)
  have "n mod 16 < 16" by simp
  then show ?case using Suc by (auto simp: hex_digit_def is_lower_hex_def is_digit_def)
qed simp

subsection \<open>ASCII and UTF-8\<close>

definition ascii_decode :: "bytes \<Rightarrow> pystr res" where
  "ascii_decode bs = (if list_all (\<lambda>w. unat w < 128) bs then Inr (map unat bs)
     else Inl UnicodeDecodeError)"

definition ascii_encode :: "pystr \<Rightarrow> bytes" where
  "ascii_encode s = map of_nat s"

definition is_cont :: "nat \<Rightarrow> bool" where
  "is_cont c \<longleftrightarrow> 128 \<le> c \<and> c < 192"

fun utf8_points :: "nat list \<Rightarrow> pystr option" where
  "utf8_points [] = Some []"
| "utf8_points (a # r) =
     (if a < 128 then map_option (Cons a) (utf8_points r)
      else (case r of [] \<Rightarrow> None | c1 # r1 \<Rightarrow>
        if 194 \<le> a \<and> a < 224 then
          (if is_cont c1 then map_option (Cons ((a - 192) * 64 + (c1 - 128))) (utf8_points r1)
           else None)
        else (case r1 of [] \<Rightarrow> None | c2 # r2 \<Rightarrow>
          if 224 \<le> a \<and> a < 240 then
            (let p = (a - 224) * 4096 + (c1 - 128) * 64 + (c2 - 128) in
             if is_cont c1 \<and> is_cont c2 \<and> 2048 \<le> p \<and> \<not> (55296 \<le> p \<and> p < 57344)
             then map_option (Cons p) (utf8_points r2) else None)
          else (case r2 of [] \<Rightarrow> None | c3 # r3 \<Rightarrow>
            let p = (a - 240) * 262144 + (c1 - 128) * 4096 + (c2 - 128) * 64 + (c3 - 128) in
            if 240 \<le> a \<and> a < 245 \<and> is_cont c1 \<and> is_cont c2 \<and> is_cont c3
                 \<and> 65536 \<le> p \<and> p < 1114112
            then map_option (Cons p) (utf8_points r3) else None))))"

declare utf8_points.simps [simp del]

lemma utf8_points_Nil [simp]: "utf8_points [] = Some []"
  by (simp add: utf8_points.simps)

definition utf8_decode :: "bytes \<Rightarrow> pystr res" where
  "utf8_decode bs = (case utf8_points (map unat bs) of
     None \<Rightarrow> Inl UnicodeDecodeError | Some s \<Rightarrow> Inr s)"

definition utf8_char :: "nat \<Rightarrow> nat list" where
  "utf8_char p =
     (if p < 128 then [p]
      else if p < 2048 then [192 + p div 64, 128 + p mod 64]
      else if p < 65536 then [224 + p div 4096, 128 + p div 64 mod 64, 128 + p mod 64]
      else [240 + p div 262144, 128 + p div 4096 mod 64, 128 + p div 64 mod 64, 128 + p mod 64])"

definition utf8_encode :: "pystr \<Rightarrow> bytes" where
  "utf8_encode s = map of_nat (concat (map utf8_char s))"

text \<open>The code points a UTF-8 encoding exists for: no surrogate, at most U+10FFFF.\<close>

definition is_scalar :: "nat \<Rightarrow> bool" where
  "is_scalar p \<longleftrightarrow> p < 1114112 \<and> \<not> (55296 \<le> p \<and> p < 57344)"

lemma utf8_points_2:
  "2 \<le> h \<Longrightarrow> h < 32 \<Longrightarrow> l < 64 \<Longrightarrow>
   utf8_points ((192 + h) # (128 + l) # r) = map_option (Cons (h * 64 + l)) (utf8_points r)"
  by (simp add: utf8_points.simps is_cont_def)

lemma utf8_points_3:
  "h < 16 \<Longrightarrow> m < 64 \<Longrightarrow> l < 64 \<Longrightarrow> h * 4096 + m * 64 + l = p \<Longrightarrow> 2048 \<le> p \<Longrightarrow>
   \<not> (55296 \<le> p \<and> p < 57344) \<Longrightarrow>
   utf8_points ((224 + h) # (128 + m) # (128 + l) # r) = map_option (Cons p) (utf8_points r)"
  by (simp add: utf8_points.simps is_cont_def Let_def)

lemma utf8_points_4:
  "h < 5 \<Longrightarrow> m < 64 \<Longrightarrow> n < 64 \<Longrightarrow> l < 64 \<Longrightarrow> h * 262144 + m * 4096 + n * 64 + l = p \<Longrightarrow>
   65536 \<le> p \<Longrightarrow> p < 1114112 \<Longrightarrow>
   utf8_points ((240 + h) # (128 + m) # (128 + n) # (128 + l) # r) =
     map_option (Cons p) (utf8_points r)"
  by (simp add: utf8_points.simps is_cont_def Let_def)

lemma utf8_points_char:
  assumes "is_scalar p"
  shows "utf8_points (utf8_char p @ r) = map_option (Cons p) (utf8_points r)"
proof -
  have q: "p div 4096 = p div 64 div 64" "p div 262144 = p div 64 div 64 div 64"
    by (simp_all flip: div_mult2_eq)
  have d1: "p div 64 * 64 + p mod 64 = p" by simp
  have e2: "p div 64 div 64 * 64 + p div 64 mod 64 = p div 64" by simp
  have e3: "p div 64 div 64 div 64 * 64 + p div 64 div 64 mod 64 = p div 64 div 64" by simp
  have d2: "p div 4096 * 4096 + p div 64 mod 64 * 64 + p mod 64 = p"
    unfolding q using d1 e2 by linarith
  have d3: "p div 262144 * 262144 + p div 4096 mod 64 * 4096 + p div 64 mod 64 * 64 + p mod 64 = p"
    unfolding q using d1 e2 e3 by linarith
  have m: "p mod 64 < 64" "p div 64 mod 64 < 64" "p div 4096 mod 64 < 64" by simp_all
  consider "p < 128" | "128 \<le> p" "p < 2048" | "2048 \<le> p" "p < 65536" | "65536 \<le> p"
    by linarith
  then show ?thesis
  proof cases
    case 1
    then show ?thesis by (simp add: utf8_char_def utf8_points.simps)
  next
    case 2
    then have "2 \<le> p div 64" "p div 64 < 32" by (auto simp: less_mult_imp_div_less)
    then have "utf8_points ((192 + p div 64) # (128 + p mod 64) # r) =
        map_option (Cons p) (utf8_points r)"
      using utf8_points_2 [of "p div 64" "p mod 64" r] m(1) d1 by (simp only:)
    with 2 show ?thesis by (simp add: utf8_char_def)
  next
    case 3
    then have "p div 4096 < 16" by (auto simp: less_mult_imp_div_less)
    then have "utf8_points ((224 + p div 4096) # (128 + p div 64 mod 64) # (128 + p mod 64) # r) =
        map_option (Cons p) (utf8_points r)"
      using 3 d2 m assms by (intro utf8_points_3) (auto simp: is_scalar_def)
    with 3 show ?thesis by (simp add: utf8_char_def)
  next
    case 4
    with assms have "p div 262144 < 5" by (auto simp: is_scalar_def less_mult_imp_div_less)
    then have "utf8_points ((240 + p div 262144) # (128 + p div 4096 mod 64) #
        (128 + p div 64 mod 64) # (128 + p mod 64) # r) = map_option (Cons p) (utf8_points r)"
      using 4 d3 m assms by (intro utf8_points_4) (auto simp: is_scalar_def)
    with 4 show ?thesis by (simp add: utf8_char_def)
  qed
qed

lemma utf8_char_bytes: "is_scalar p \<Longrightarrow> c \<in> set (utf8_char p) \<Longrightarrow> c < 256"
proof -
  assume "is_scalar p" and c: "c \<in> set (utf8_char p)"
  then have "p div 262144 < 5" by (auto simp: is_scalar_def less_mult_imp_div_less)
  moreover have "p mod 64 < 64" "p div 64 mod 64 < 64" "p div 4096 mod 64 < 64" by simp_all
  moreover have "p < 2048 \<Longrightarrow> p div 64 < 32" "p < 65536 \<Longrightarrow> p div 4096 < 16"
    by (auto simp: less_mult_imp_div_less)
  ultimately show ?thesis using c
    by (auto simp: utf8_char_def split: if_splits)
qed

lemma utf8_decode_encode: "list_all is_scalar s \<Longrightarrow> utf8_decode (utf8_encode s) = Inr s"
proof -
  assume ok: "list_all is_scalar s"
  have "map (unat \<circ> (of_nat :: nat \<Rightarrow> 8 word)) (concat (map utf8_char s)) =
        concat (map utf8_char s)"
    using ok utf8_char_bytes by (intro map_idI) (auto simp: list_all_iff unat_of_nat)
  moreover have "utf8_points (concat (map utf8_char s)) = Some s"
    using ok by (induction s) (simp_all add: utf8_points_char)
  ultimately show ?thesis by (simp add: utf8_decode_def utf8_encode_def)
qed

lemma ascii_decode_encode:
  "(\<And>c. c \<in> set s \<Longrightarrow> c < 128) \<Longrightarrow> ascii_decode (ascii_encode s) = Inr s"
proof -
  assume "\<And>c. c \<in> set s \<Longrightarrow> c < 128"
  then have "\<And>c. c \<in> set s \<Longrightarrow> c mod 256 = c \<and> c < 128" by force
  then show ?thesis
    by (auto simp: ascii_decode_def ascii_encode_def list_all_iff unat_of_nat o_def
        intro!: map_idI)
qed

subsection \<open>Paths\<close>

text \<open>
  \<open>PurePosixPath(s).parts\<close>: the components between slashes without the empty ones and
  the dots, after the root when the path is absolute (two leading slashes stay two).
\<close>

definition posix_parts :: "pystr \<Rightarrow> pystr list" where
  "posix_parts s =
     (let root = (if \<not> startswith s [47] then []
                  else if startswith s [47, 47] \<and> \<not> startswith s [47, 47, 47] then [[47, 47]]
                  else [[47]])
      in root @ filter (\<lambda>p. p \<noteq> [] \<and> p \<noteq> [46]) (split_on 47 s))"

definition posix_name :: "pystr \<Rightarrow> pystr" where
  "posix_name s = (case rev (filter (\<lambda>p. p \<noteq> [] \<and> p \<noteq> [46]) (split_on 47 s)) of
     [] \<Rightarrow> [] | p # _ \<Rightarrow> p)"

text \<open>\<open>Path(name).suffix\<close>: from the last dot of the last component, unless it leads or ends it.\<close>

definition path_suffix :: "pystr \<Rightarrow> pystr" where
  "path_suffix path = (let name = rev (posix_name path); ext = takeWhile (\<lambda>c. c \<noteq> 46) name
     in if ext \<noteq> [] \<and> length name > length ext + 1 then 46 # rev ext else [])"

subsection \<open>Reading a text file\<close>

text \<open>\<open>read_text(encoding="utf-8")\<close> with the translation of line ends to a newline.\<close>

fun universal_newlines :: "pystr \<Rightarrow> pystr" where
  "universal_newlines (c # s) =
     (if c = 13 then 10 # universal_newlines (if take 1 s = [10] then drop 1 s else s)
      else c # universal_newlines s)"
| "universal_newlines [] = []"

definition read_text :: "file_read \<Rightarrow> pystr res" where
  "read_text f = (case f of
       Content data \<Rightarrow> andThen (utf8_decode data) (\<lambda>s. Inr (universal_newlines s))
     | _ \<Rightarrow> Inl (OSError ''cannot read'' []))"

lemma utf8_points_scalar: "utf8_points s = Some t \<Longrightarrow> list_all is_scalar t"
proof (induction s arbitrary: t rule: utf8_points.induct)
  case (2 a r)
  show ?case
    using 2(1-4) 2(5) [unfolded utf8_points.simps(2)]
    by (auto simp: is_scalar_def is_cont_def Let_def split: if_splits list.splits)
qed simp

lemma utf8_decode_scalar: "utf8_decode b = Inr s \<Longrightarrow> list_all is_scalar s"
  using utf8_points_scalar by (auto simp: utf8_decode_def split: option.splits)

lemma universal_newlines_set: "set (universal_newlines s) \<subseteq> insert 10 (set s)"
proof (induction s rule: universal_newlines.induct)
  case (1 c s)
  have "set (drop 1 s) \<subseteq> set s" by (rule set_drop_subset)
  with 1 show ?case by (cases "c = 13"; cases "take 1 s = [10]") auto
qed simp

lemma read_text_scalar: "read_text f = Inr s \<Longrightarrow> list_all is_scalar s"
  using utf8_decode_scalar universal_newlines_set
  by (fastforce simp: read_text_def andThen_eq_Inr list_all_iff is_scalar_def split: file_read.splits)

lemma splitlines_set: "l \<in> set (splitlines s) \<Longrightarrow> set l \<subseteq> set s"
proof (induction s rule: splitlines.induct)
  case (1 s)
  have ne: "s \<noteq> []" using "1.prems" by auto
  show ?case
  proof (cases "dropWhile (\<lambda>c. \<not> is_linebreak c) s")
    case Nil
    then have "splitlines s = [takeWhile (\<lambda>c. \<not> is_linebreak c) s]" by (simp only: splitlines_cases [OF ne] list.case)
    then show ?thesis using "1.prems" by (auto dest: set_takeWhileD)
  next
    case (Cons d t)
    let ?t = "if d = 13 \<and> t \<noteq> [] \<and> hd t = 10 then tl t else t"
    have "splitlines s = takeWhile (\<lambda>c. \<not> is_linebreak c) s # splitlines ?t"
      using Cons by (simp only: splitlines_cases [OF ne] list.case)
    then consider "l = takeWhile (\<lambda>c. \<not> is_linebreak c) s" | "l \<in> set (splitlines ?t)" using "1.prems" by auto
    then show ?thesis
    proof cases
      case 1
      then show ?thesis by (auto dest: set_takeWhileD)
    next
      case 2
      have "set ?t \<subseteq> set (d # t)" by (cases t) auto
      also have "\<dots> \<subseteq> set s" using set_dropWhileD [of _ "\<lambda>c. \<not> is_linebreak c" s] unfolding Cons by blast
      finally show ?thesis using "1.IH" [OF ne Cons 2] by blast
    qed
  qed
qed

end
