(* ===== verification/TsCheck.thy ===== *)
theory TsCheck
  imports PyText
begin

unbundle bit_operations_syntax

section \<open>The transport stream checker\<close>

text \<open>
  \<open>docs/release-validation/ts-check.py\<close>: framing of a captured MPEG transport stream
  into 188-byte packets, classification of every packet (lost sync, transport error, null,
  invalid adaptation field, good) and the per-PID continuity counter check with tolerated
  duplicates, manual exclusions and retune boundaries. The loop body of \<open>inspect\<close> is
  \<open>inspect_packet\<close>, its chunked reading \<open>inspect_chunk\<close>, and \<open>inspect_main\<close> is the
  argument checking and the exit status of \<open>main\<close>.

  The loop only forms whole packets, so an index below 188 never leaves the packet.
\<close>

subsection \<open>Packet fields\<close>

definition pkt_pid :: "bytes \<Rightarrow> nat" where
  "pkt_pid packet = push_bit 8 (unat (packet ! 1 AND 0x1F)) OR unat (packet ! 2)"

definition pkt_tei :: "bytes \<Rightarrow> bool" where
  "pkt_tei packet \<longleftrightarrow> packet ! 1 AND 0x80 \<noteq> 0"

definition pkt_adaptation :: "bytes \<Rightarrow> nat" where
  "pkt_adaptation packet = unat (drop_bit 4 (packet ! 3) AND 0x03)"

definition pkt_counter :: "bytes \<Rightarrow> nat" where
  "pkt_counter packet = unat (packet ! 3 AND 0x0F)"

definition pkt_has_payload :: "bytes \<Rightarrow> bool" where
  "pkt_has_payload packet \<longleftrightarrow> pkt_adaptation packet \<in> {1, 3}"

definition pkt_discontinuity :: "bytes \<Rightarrow> bool" where
  "pkt_discontinuity packet \<longleftrightarrow>
     pkt_adaptation packet \<in> {2, 3} \<and> packet ! 4 > 0 \<and> packet ! 5 AND 0x80 \<noteq> 0"

definition pkt_has_pcr :: "bytes \<Rightarrow> bool" where
  "pkt_has_pcr packet \<longleftrightarrow>
     pkt_adaptation packet \<in> {2, 3} \<and> packet ! 4 > 0 \<and> packet ! 5 AND 0x10 \<noteq> 0"

definition pcr_extension :: "bytes \<Rightarrow> nat" where
  "pcr_extension packet = push_bit 8 (unat (packet ! 10 AND 1)) OR unat (packet ! 11)"

definition bad_adaptation_field :: "bytes \<Rightarrow> bool" where
  "bad_adaptation_field packet \<longleftrightarrow>
     pkt_adaptation packet \<in> {2, 3} \<and>
     (let length = unat (packet ! 4) in
      (pkt_adaptation packet = 2 \<and> length \<noteq> 183) \<or>
      (pkt_adaptation packet = 3 \<and> length > 182) \<or>
      (pkt_has_pcr packet \<and>
        (length < 7 \<or> packet ! 10 AND 0x7e \<noteq> 0x7e \<or> pcr_extension packet \<ge> 300)))"

definition equivalent_duplicate :: "bytes \<Rightarrow> bytes \<Rightarrow> bool \<Rightarrow> bool" where
  "equivalent_duplicate previous packet has_pcr \<longleftrightarrow>
     (if \<not> has_pcr then previous = packet
      else take 6 previous = take 6 packet
        \<and> previous ! 10 AND 0x7e = packet ! 10 AND 0x7e
        \<and> drop 12 previous = drop 12 packet)"

subsection \<open>State\<close>

record cc_state =
  counter :: nat
  has_payload :: bool
  repeated :: bool
  epoch :: nat
  cc_packet :: bytes

record scan =
  sync_errors :: nat
  tei :: nat
  invalid_packets :: nat
  continuity_error_indices :: "nat list"
  duplicate_packet_indices :: "nat list"
  invalid_packet_indices :: "nat list"
  excluded_seen :: "nat list"
  previous :: "nat \<Rightarrow> cc_state option"
  packets :: nat
  total_bytes :: nat
  null_packet_count :: nat
  null_indices :: "nat list"
  untrusted_epoch :: nat
  retune_boundary_index :: nat
  retune_segment :: nat
  retune_segment_pids :: "nat set"
  retune_excluded_cc :: "nat set"

definition scan0 :: scan where
  "scan0 = \<lparr>sync_errors = 0, tei = 0, invalid_packets = 0, continuity_error_indices = [],
     duplicate_packet_indices = [], invalid_packet_indices = [], excluded_seen = [],
     previous = (\<lambda>_. None), packets = 0, total_bytes = 0, null_packet_count = 0,
     null_indices = [], untrusted_epoch = 0, retune_boundary_index = 0, retune_segment = 0,
     retune_segment_pids = {}, retune_excluded_cc = {}\<rparr>"

subsection \<open>One packet\<close>

text \<open>Counting the packet, a lost sync byte, and entering the next tune segment.\<close>

definition enter_packet :: "nat list \<Rightarrow> nat \<Rightarrow> bytes \<Rightarrow> scan \<Rightarrow> scan" where
  "enter_packet retune_boundaries index packet s =
     (let s = s\<lparr>packets := packets s + 1\<rparr>;
          s = (if packet ! 0 \<noteq> 0x47 then s\<lparr>sync_errors := sync_errors s + 1\<rparr> else s)
      in if retune_boundary_index s < length retune_boundaries \<and>
            index \<ge> retune_boundaries ! retune_boundary_index s
         then s\<lparr>retune_segment := retune_segment s + 1, retune_segment_pids := {},
                retune_boundary_index := retune_boundary_index s + 1\<rparr>
         else s)"

definition note_pid :: "nat \<Rightarrow> nat \<Rightarrow> scan \<Rightarrow> scan" where
  "note_pid index pid s =
     (let retune_first_pid_packet = (pid \<noteq> 0x1FFF \<and> pid \<notin> retune_segment_pids s);
          s = (if pid \<noteq> 0x1FFF
               then s\<lparr>retune_segment_pids := insert pid (retune_segment_pids s)\<rparr> else s)
      in if retune_segment s > 0 \<and> retune_first_pid_packet
         then s\<lparr>retune_excluded_cc := insert index (retune_excluded_cc s)\<rparr> else s)"

definition mark_tei :: "scan \<Rightarrow> scan" where
  "mark_tei s = s\<lparr>tei := tei s + 1, untrusted_epoch := untrusted_epoch s + 1\<rparr>"

definition mark_null :: "nat \<Rightarrow> scan \<Rightarrow> scan" where
  "mark_null index s =
     s\<lparr>null_packet_count := null_packet_count s + 1, null_indices := null_indices s @ [index]\<rparr>"

definition mark_invalid :: "nat \<Rightarrow> scan \<Rightarrow> scan" where
  "mark_invalid index s =
     s\<lparr>invalid_packets := invalid_packets s + 1,
       invalid_packet_indices := invalid_packet_indices s @ [index],
       untrusted_epoch := untrusted_epoch s + 1\<rparr>"

definition compare_counter :: "nat set \<Rightarrow> nat \<Rightarrow> bytes \<Rightarrow> cc_state \<Rightarrow> scan \<Rightarrow> scan" where
  "compare_counter excluded_cc index packet st s =
     (let ctr = pkt_counter packet;
          expected = (counter st + (if pkt_has_payload packet then 1 else 0)) mod 16;
          rep = (pkt_has_payload packet \<and> ctr = counter st)
      in if rep \<and> has_payload st \<and> \<not> repeated st \<and> epoch st = untrusted_epoch s \<and>
            equivalent_duplicate (cc_packet st) packet (pkt_has_pcr packet)
         then s\<lparr>duplicate_packet_indices := duplicate_packet_indices s @ [index]\<rparr>
         else if ctr \<noteq> expected
         then (if index \<in> excluded_cc \<or> index \<in> retune_excluded_cc s
               then s\<lparr>excluded_seen := excluded_seen s @ [index]\<rparr>
               else s\<lparr>continuity_error_indices := continuity_error_indices s @ [index]\<rparr>)
         else s)"

definition check_continuity :: "nat set \<Rightarrow> nat \<Rightarrow> nat \<Rightarrow> bytes \<Rightarrow> scan \<Rightarrow> scan" where
  "check_continuity excluded_cc index pid packet s =
     (let state = previous s pid;
          s = (case state of
                 None \<Rightarrow> s
               | Some st \<Rightarrow> if pkt_discontinuity packet then s
                            else compare_counter excluded_cc index packet st s);
          rep = (case state of
                   None \<Rightarrow> False
                 | Some st \<Rightarrow> pkt_has_payload packet \<and> pkt_counter packet = counter st)
      in s\<lparr>previous := (previous s)(pid \<mapsto>
             \<lparr>counter = pkt_counter packet, has_payload = pkt_has_payload packet,
              repeated = rep, epoch = untrusted_epoch s, cc_packet = packet\<rparr>)\<rparr>)"

definition inspect_packet :: "nat set \<Rightarrow> nat list \<Rightarrow> scan \<Rightarrow> bytes \<Rightarrow> scan" where
  "inspect_packet excluded_cc retune_boundaries s packet =
     (let index = packets s;
          s = enter_packet retune_boundaries index packet s
      in if packet ! 0 \<noteq> 0x47 then s\<lparr>untrusted_epoch := untrusted_epoch s + 1\<rparr>
         else (let pid = pkt_pid packet; s = note_pid index pid s
               in if pkt_tei packet then mark_tei s
                  else if pid = 0x1FFF then mark_null index s
                  else if pkt_adaptation packet = 0 then mark_invalid index s
                  else if bad_adaptation_field packet then mark_invalid index s
                  else check_continuity excluded_cc index pid packet s))"

subsection \<open>Reading the file\<close>

text \<open>The whole 188-byte frames of a byte string; a partial frame is left over.\<close>

fun frames :: "nat \<Rightarrow> 'a list \<Rightarrow> 'a list list" where
  "frames n data = (if n = 0 \<or> length data < n then [] else take n data # frames n (drop n data))"

declare frames.simps [simp del]

definition inspect_chunk :: "nat set \<Rightarrow> nat list \<Rightarrow> scan \<times> bytes \<Rightarrow> bytes \<Rightarrow> scan \<times> bytes" where
  "inspect_chunk excluded_cc retune_boundaries sp chunk =
     (case sp of (s, pending) \<Rightarrow>
       let s = s\<lparr>total_bytes := total_bytes s + length chunk\<rparr>;
           data = pending @ chunk;
           complete_bytes = length data - length data mod 188
       in (foldl (inspect_packet excluded_cc retune_boundaries) s
             (frames 188 (take complete_bytes data)),
           drop complete_bytes data))"

text \<open>\<open>source.read(n)\<close> until it returns nothing.\<close>

fun read_chunks :: "nat \<Rightarrow> 'a list \<Rightarrow> 'a list list" where
  "read_chunks n data = (if n = 0 \<or> data = [] then [] else take n data # read_chunks n (drop n data))"

declare read_chunks.simps [simp del]

definition inspect_chunks :: "nat set \<Rightarrow> nat list \<Rightarrow> bytes list \<Rightarrow> scan" where
  "inspect_chunks excluded_cc retune_boundaries chunks =
     fst (foldl (inspect_chunk excluded_cc retune_boundaries) (scan0, []) chunks)"

definition inspect :: "nat set \<Rightarrow> nat list \<Rightarrow> bytes \<Rightarrow> scan" where
  "inspect excluded_cc retune_boundaries data =
     inspect_chunks excluded_cc retune_boundaries (read_chunks (188 * 4096) data)"

subsection \<open>The command line\<close>

datatype ts_outcome = UsageError string | Exit nat

definition scan_exit_status :: "scan \<Rightarrow> nat" where
  "scan_exit_status r =
     (if packets r = 0 then 2
      else if total_bytes r mod 188 \<noteq> 0 \<or> sync_errors r \<noteq> 0 \<or> tei r \<noteq> 0 \<or>
              invalid_packets r \<noteq> 0 \<or> length (continuity_error_indices r) \<noteq> 0 then 1
      else 0)"

text \<open>
  The arguments are Python integers; \<open>same_file\<close> is whether \<open>--null-indices\<close> resolves to
  the input file. \<open>parser.error\<close> ends the program with a usage error.
\<close>

definition inspect_main :: "int list \<Rightarrow> int list \<Rightarrow> bool \<Rightarrow> bytes \<Rightarrow> ts_outcome" where
  "inspect_main exclude_cc_at retune_boundary_at same_file data =
     (if card (set exclude_cc_at) \<noteq> length exclude_cc_at \<or> list_ex (\<lambda>i. i < 0) exclude_cc_at
      then UsageError ''CC exclusion indices must be unique and nonnegative''
      else if list_ex (\<lambda>i. i \<le> 0) retune_boundary_at \<or>
              retune_boundary_at \<noteq> sorted_list_of_set (set retune_boundary_at)
      then UsageError ''retune boundaries must be unique, positive, and increasing''
      else if same_file
      then UsageError ''null index output must not overwrite the TS input''
      else let result = inspect (nat ` set exclude_cc_at) (map nat retune_boundary_at) data
           in if list_ex (\<lambda>i. i \<ge> int (packets result)) exclude_cc_at
              then UsageError ''CC exclusion index is outside the TS packet range''
              else if list_ex (\<lambda>i. i \<ge> int (packets result)) retune_boundary_at
              then UsageError ''retune boundary is outside the TS packet range''
              else Exit (scan_exit_status result))"

end
