(* ===== verification/TsContinuity.thy ===== *)
theory TsContinuity
  imports TsCheck
begin

unbundle bit_operations_syntax

section \<open>What the transport stream checker reports\<close>

text \<open>
  A declarative account of a packet sequence, stated without the checker's state: the class
  of a packet, the last good packet of a PID, the packets that are a tolerated duplicate or
  a continuity mismatch, and those a retune excuses. The lemmas show that the state of
  \<open>inspect_packet\<close> after any sequence is exactly this account.
\<close>

subsection \<open>The account\<close>

datatype packet_class =
  Sync_Lost | Transport_Error | Null_Packet | Invalid_Packet | Good_Packet

definition classify :: "bytes \<Rightarrow> packet_class" where
  "classify p =
     (if p ! 0 \<noteq> 0x47 then Sync_Lost
      else if pkt_tei p then Transport_Error
      else if pkt_pid p = 0x1FFF then Null_Packet
      else if pkt_adaptation p = 0 \<or> bad_adaptation_field p then Invalid_Packet
      else Good_Packet)"

definition untrusted :: "bytes \<Rightarrow> bool" where
  "untrusted p \<longleftrightarrow> classify p \<in> {Sync_Lost, Transport_Error, Invalid_Packet}"

definition indices :: "('a \<Rightarrow> bool) \<Rightarrow> 'a list \<Rightarrow> nat list" where
  "indices P ps = filter (\<lambda>i. P (ps ! i)) [0..<length ps]"

definition last_good :: "bytes list \<Rightarrow> nat \<Rightarrow> nat option" where
  "last_good ps pid =
     (let js = indices (\<lambda>q. classify q = Good_Packet \<and> pkt_pid q = pid) ps
      in if js = [] then None else Some (last js))"

text \<open>The packet repeats the counter of the good packet of its PID before it.\<close>

definition repeats :: "bytes list \<Rightarrow> nat \<Rightarrow> bool" where
  "repeats ps j \<longleftrightarrow> pkt_has_payload (ps ! j) \<and>
     (case last_good (take j ps) (pkt_pid (ps ! j)) of
        None \<Rightarrow> False | Some k \<Rightarrow> pkt_counter (ps ! j) = pkt_counter (ps ! k))"

definition untrusted_before :: "bytes list \<Rightarrow> nat \<Rightarrow> nat" where
  "untrusted_before ps i = length (indices untrusted (take i ps))"

text \<open>The good packet that packet \<open>i\<close> is compared with, if it is compared at all.\<close>

definition compared_with :: "bytes list \<Rightarrow> nat \<Rightarrow> nat option" where
  "compared_with ps i =
     (if classify (ps ! i) = Good_Packet \<and> \<not> pkt_discontinuity (ps ! i)
      then last_good (take i ps) (pkt_pid (ps ! i)) else None)"

definition tolerated :: "bytes list \<Rightarrow> nat \<Rightarrow> nat \<Rightarrow> bool" where
  "tolerated ps j i \<longleftrightarrow>
     pkt_has_payload (ps ! i) \<and> pkt_counter (ps ! i) = pkt_counter (ps ! j) \<and>
     pkt_has_payload (ps ! j) \<and> \<not> repeats ps j \<and>
     untrusted_before ps j = untrusted_before ps i \<and>
     equivalent_duplicate (ps ! j) (ps ! i) (pkt_has_pcr (ps ! i))"

definition duplicate_at :: "bytes list \<Rightarrow> nat \<Rightarrow> bool" where
  "duplicate_at ps i \<longleftrightarrow> (case compared_with ps i of None \<Rightarrow> False | Some j \<Rightarrow> tolerated ps j i)"

definition mismatch_at :: "bytes list \<Rightarrow> nat \<Rightarrow> bool" where
  "mismatch_at ps i \<longleftrightarrow>
     (case compared_with ps i of
        None \<Rightarrow> False
      | Some j \<Rightarrow> \<not> tolerated ps j i \<and>
          pkt_counter (ps ! i) \<noteq>
            (pkt_counter (ps ! j) + (if pkt_has_payload (ps ! i) then 1 else 0)) mod 16)"

text \<open>The packet is the first of its PID in a tune segment that follows a retune.\<close>

definition retune_first :: "nat list \<Rightarrow> bytes list \<Rightarrow> nat \<Rightarrow> bool" where
  "retune_first bs ps i \<longleftrightarrow>
     (\<exists>b \<in> set bs. b \<le> i) \<and> ps ! i ! 0 = 0x47 \<and> pkt_pid (ps ! i) \<noteq> 0x1FFF \<and>
     (\<forall>k \<in> {0..<i}. ps ! k ! 0 = 0x47 \<and> pkt_pid (ps ! k) = pkt_pid (ps ! i) \<longrightarrow>
        (\<exists>b \<in> set bs. k < b \<and> b \<le> i))"

definition excused :: "nat set \<Rightarrow> nat list \<Rightarrow> bytes list \<Rightarrow> nat \<Rightarrow> bool" where
  "excused excluded_cc bs ps i \<longleftrightarrow> i \<in> excluded_cc \<or> retune_first bs ps i"

subsection \<open>Indices of a growing sequence\<close>

lemma indices_snoc:
  "indices P (ps @ [p]) = indices P ps @ (if P p then [length ps] else [])"
  by (auto simp: indices_def nth_append intro!: filter_cong)

lemma indices_Nil [simp]: "indices P [] = []"
  by (simp add: indices_def)

lemma set_indices: "set (indices P ps) = {i. i < length ps \<and> P (ps ! i)}"
  by (auto simp: indices_def)

lemma sorted_indices: "sorted_wrt (<) (indices P ps)"
  by (simp add: indices_def sorted_wrt_filter)

lemma last_good_snoc:
  "last_good (ps @ [p]) pid =
     (if classify p = Good_Packet \<and> pkt_pid p = pid then Some (length ps) else last_good ps pid)"
  by (simp add: last_good_def indices_snoc Let_def)

lemma last_good_SomeD:
  assumes "last_good ps pid = Some j"
  shows "j < length ps" and "classify (ps ! j) = Good_Packet" and "pkt_pid (ps ! j) = pid"
proof -
  let ?js = "indices (\<lambda>q. classify q = Good_Packet \<and> pkt_pid q = pid) ps"
  from assms have "j \<in> set ?js"
    by (auto simp: last_good_def Let_def split: if_splits)
  then show "j < length ps" "classify (ps ! j) = Good_Packet" "pkt_pid (ps ! j) = pid"
    by (auto simp: set_indices)
qed

lemma last_good_latest:
  assumes "last_good ps pid = Some j" and "j < k" and "k < length ps"
  shows "\<not> (classify (ps ! k) = Good_Packet \<and> pkt_pid (ps ! k) = pid)"
proof
  let ?js = "indices (\<lambda>q. classify q = Good_Packet \<and> pkt_pid q = pid) ps"
  assume "classify (ps ! k) = Good_Packet \<and> pkt_pid (ps ! k) = pid"
  with assms(3) have "k \<in> set ?js" by (simp add: set_indices)
  moreover have "j = last ?js" "?js \<noteq> []"
    using assms(1) by (auto simp: last_good_def Let_def split: if_splits)
  moreover have "sorted ?js" using sorted_indices strict_sorted_imp_sorted by blast
  ultimately have "k \<le> j" using sorted_le_last by blast
  with assms(2) show False by simp
qed

lemma take_snoc: "i \<le> length ps \<Longrightarrow> take i (ps @ [p]) = take i ps"
  by simp

lemma repeats_snoc: "j < length ps \<Longrightarrow> repeats (ps @ [p]) j = repeats ps j"
  by (auto simp: repeats_def nth_append split: option.splits dest: last_good_SomeD(1))

lemma untrusted_before_snoc: "i \<le> length ps \<Longrightarrow> untrusted_before (ps @ [p]) i = untrusted_before ps i"
  by (simp add: untrusted_before_def)

lemma compared_with_snoc: "i < length ps \<Longrightarrow> compared_with (ps @ [p]) i = compared_with ps i"
  by (simp add: compared_with_def nth_append)

lemma compared_with_less: "compared_with ps i = Some j \<Longrightarrow> j < i"
  by (auto simp: compared_with_def split: if_splits dest: last_good_SomeD(1))

lemma tolerated_snoc:
  "j < i \<Longrightarrow> i < length ps \<Longrightarrow> tolerated (ps @ [p]) j i = tolerated ps j i"
  by (simp add: tolerated_def nth_append repeats_snoc untrusted_before_snoc)

lemma duplicate_at_snoc: "i < length ps \<Longrightarrow> duplicate_at (ps @ [p]) i = duplicate_at ps i"
  by (auto simp: duplicate_at_def compared_with_snoc tolerated_snoc compared_with_less
      split: option.splits)

lemma mismatch_at_snoc: "i < length ps \<Longrightarrow> mismatch_at (ps @ [p]) i = mismatch_at ps i"
  by (auto simp: mismatch_at_def compared_with_snoc tolerated_snoc nth_append
      split: option.splits dest: compared_with_less)

lemma retune_first_snoc: "i < length ps \<Longrightarrow> retune_first bs (ps @ [p]) i = retune_first bs ps i"
  by (auto simp: retune_first_def nth_append)

lemma excused_snoc: "i < length ps \<Longrightarrow> excused E bs (ps @ [p]) i = excused E bs ps i"
  by (simp add: excused_def retune_first_snoc)

lemma filter_upt_snoc:
  assumes "\<And>i. i < n \<Longrightarrow> P i = Q i"
  shows "filter P [0..<Suc n] = filter Q [0..<n] @ (if P n then [n] else [])"
  using assms by (auto intro!: filter_cong)

subsection \<open>How one packet changes each field\<close>

lemma compare_counter_frame [simp]:
  "sync_errors (compare_counter E i p st s) = sync_errors s"
  "tei (compare_counter E i p st s) = tei s"
  "invalid_packets (compare_counter E i p st s) = invalid_packets s"
  "invalid_packet_indices (compare_counter E i p st s) = invalid_packet_indices s"
  "previous (compare_counter E i p st s) = previous s"
  "packets (compare_counter E i p st s) = packets s"
  "total_bytes (compare_counter E i p st s) = total_bytes s"
  "null_packet_count (compare_counter E i p st s) = null_packet_count s"
  "null_indices (compare_counter E i p st s) = null_indices s"
  "untrusted_epoch (compare_counter E i p st s) = untrusted_epoch s"
  "retune_boundary_index (compare_counter E i p st s) = retune_boundary_index s"
  "retune_segment (compare_counter E i p st s) = retune_segment s"
  "retune_segment_pids (compare_counter E i p st s) = retune_segment_pids s"
  "retune_excluded_cc (compare_counter E i p st s) = retune_excluded_cc s"
  by (simp_all add: compare_counter_def Let_def)

lemma check_continuity_frame [simp]:
  "sync_errors (check_continuity E i pid p s) = sync_errors s"
  "tei (check_continuity E i pid p s) = tei s"
  "invalid_packets (check_continuity E i pid p s) = invalid_packets s"
  "invalid_packet_indices (check_continuity E i pid p s) = invalid_packet_indices s"
  "packets (check_continuity E i pid p s) = packets s"
  "total_bytes (check_continuity E i pid p s) = total_bytes s"
  "null_packet_count (check_continuity E i pid p s) = null_packet_count s"
  "null_indices (check_continuity E i pid p s) = null_indices s"
  "untrusted_epoch (check_continuity E i pid p s) = untrusted_epoch s"
  "retune_boundary_index (check_continuity E i pid p s) = retune_boundary_index s"
  "retune_segment (check_continuity E i pid p s) = retune_segment s"
  "retune_segment_pids (check_continuity E i pid p s) = retune_segment_pids s"
  "retune_excluded_cc (check_continuity E i pid p s) = retune_excluded_cc s"
  by (simp_all add: check_continuity_def Let_def split: option.split)

lemma note_pid_frame [simp]:
  "sync_errors (note_pid i pid s) = sync_errors s"
  "tei (note_pid i pid s) = tei s"
  "invalid_packets (note_pid i pid s) = invalid_packets s"
  "invalid_packet_indices (note_pid i pid s) = invalid_packet_indices s"
  "continuity_error_indices (note_pid i pid s) = continuity_error_indices s"
  "duplicate_packet_indices (note_pid i pid s) = duplicate_packet_indices s"
  "excluded_seen (note_pid i pid s) = excluded_seen s"
  "previous (note_pid i pid s) = previous s"
  "packets (note_pid i pid s) = packets s"
  "total_bytes (note_pid i pid s) = total_bytes s"
  "null_packet_count (note_pid i pid s) = null_packet_count s"
  "null_indices (note_pid i pid s) = null_indices s"
  "untrusted_epoch (note_pid i pid s) = untrusted_epoch s"
  "retune_boundary_index (note_pid i pid s) = retune_boundary_index s"
  "retune_segment (note_pid i pid s) = retune_segment s"
  by (simp_all add: note_pid_def Let_def)

lemma enter_packet_frame [simp]:
  "sync_errors (enter_packet bs i p s) = sync_errors s + (if p ! 0 \<noteq> 0x47 then 1 else 0)"
  "tei (enter_packet bs i p s) = tei s"
  "invalid_packets (enter_packet bs i p s) = invalid_packets s"
  "invalid_packet_indices (enter_packet bs i p s) = invalid_packet_indices s"
  "continuity_error_indices (enter_packet bs i p s) = continuity_error_indices s"
  "duplicate_packet_indices (enter_packet bs i p s) = duplicate_packet_indices s"
  "excluded_seen (enter_packet bs i p s) = excluded_seen s"
  "previous (enter_packet bs i p s) = previous s"
  "packets (enter_packet bs i p s) = packets s + 1"
  "total_bytes (enter_packet bs i p s) = total_bytes s"
  "null_packet_count (enter_packet bs i p s) = null_packet_count s"
  "null_indices (enter_packet bs i p s) = null_indices s"
  "untrusted_epoch (enter_packet bs i p s) = untrusted_epoch s"
  "retune_excluded_cc (enter_packet bs i p s) = retune_excluded_cc s"
  by (simp_all add: enter_packet_def Let_def)

lemmas mark_defs = mark_tei_def mark_null_def mark_invalid_def

lemma inspect_packet_counts [simp]:
  "packets (inspect_packet E bs s p) = packets s + 1"
  "total_bytes (inspect_packet E bs s p) = total_bytes s"
  "sync_errors (inspect_packet E bs s p) =
     sync_errors s + (if classify p = Sync_Lost then 1 else 0)"
  "tei (inspect_packet E bs s p) = tei s + (if classify p = Transport_Error then 1 else 0)"
  "null_packet_count (inspect_packet E bs s p) =
     null_packet_count s + (if classify p = Null_Packet then 1 else 0)"
  "null_indices (inspect_packet E bs s p) =
     null_indices s @ (if classify p = Null_Packet then [packets s] else [])"
  "invalid_packets (inspect_packet E bs s p) =
     invalid_packets s + (if classify p = Invalid_Packet then 1 else 0)"
  "invalid_packet_indices (inspect_packet E bs s p) =
     invalid_packet_indices s @ (if classify p = Invalid_Packet then [packets s] else [])"
  "untrusted_epoch (inspect_packet E bs s p) =
     untrusted_epoch s + (if untrusted p then 1 else 0)"
  by (simp_all add: inspect_packet_def classify_def untrusted_def mark_defs Let_def)

lemma inspect_packet_previous:
  "previous (inspect_packet E bs s p) =
     (if classify p = Good_Packet
      then (previous s)(pkt_pid p \<mapsto>
             \<lparr>counter = pkt_counter p, has_payload = pkt_has_payload p,
              repeated = (case previous s (pkt_pid p) of
                None \<Rightarrow> False | Some st \<Rightarrow> pkt_has_payload p \<and> pkt_counter p = counter st),
              epoch = untrusted_epoch s, cc_packet = p\<rparr>)
      else previous s)"
  by (simp add: inspect_packet_def classify_def mark_defs check_continuity_def Let_def
      split: option.split)

text \<open>What the comparison of a good packet with a remembered one appends.\<close>

definition duplicate_of :: "cc_state \<Rightarrow> nat \<Rightarrow> bytes \<Rightarrow> bool" where
  "duplicate_of st ep p \<longleftrightarrow>
     pkt_has_payload p \<and> pkt_counter p = counter st \<and> has_payload st \<and> \<not> repeated st \<and>
     epoch st = ep \<and> equivalent_duplicate (cc_packet st) p (pkt_has_pcr p)"

definition counter_off :: "cc_state \<Rightarrow> bytes \<Rightarrow> bool" where
  "counter_off st p \<longleftrightarrow>
     pkt_counter p \<noteq> (counter st + (if pkt_has_payload p then 1 else 0)) mod 16"

definition compared_state :: "scan \<Rightarrow> bytes \<Rightarrow> cc_state option" where
  "compared_state s p =
     (if classify p = Good_Packet \<and> \<not> pkt_discontinuity p then previous s (pkt_pid p) else None)"

lemma compare_counter_lists:
  "duplicate_packet_indices (compare_counter E i p st s) = duplicate_packet_indices s @
     (if duplicate_of st (untrusted_epoch s) p then [i] else [])"
  "continuity_error_indices (compare_counter E i p st s) = continuity_error_indices s @
     (if \<not> duplicate_of st (untrusted_epoch s) p \<and> counter_off st p \<and>
         \<not> (i \<in> E \<or> i \<in> retune_excluded_cc s) then [i] else [])"
  "excluded_seen (compare_counter E i p st s) = excluded_seen s @
     (if \<not> duplicate_of st (untrusted_epoch s) p \<and> counter_off st p \<and>
         (i \<in> E \<or> i \<in> retune_excluded_cc s) then [i] else [])"
  by (auto simp: compare_counter_def duplicate_of_def counter_off_def Let_def)

lemma inspect_packet_lists:
  "duplicate_packet_indices (inspect_packet E bs s p) = duplicate_packet_indices s @
     (case compared_state s p of None \<Rightarrow> [] | Some st \<Rightarrow>
        if duplicate_of st (untrusted_epoch s) p then [packets s] else [])"
  "continuity_error_indices (inspect_packet E bs s p) = continuity_error_indices s @
     (case compared_state s p of None \<Rightarrow> [] | Some st \<Rightarrow>
        if \<not> duplicate_of st (untrusted_epoch s) p \<and> counter_off st p \<and>
           \<not> (packets s \<in> E \<or> packets s \<in> retune_excluded_cc (inspect_packet E bs s p))
        then [packets s] else [])"
  "excluded_seen (inspect_packet E bs s p) = excluded_seen s @
     (case compared_state s p of None \<Rightarrow> [] | Some st \<Rightarrow>
        if \<not> duplicate_of st (untrusted_epoch s) p \<and> counter_off st p \<and>
           (packets s \<in> E \<or> packets s \<in> retune_excluded_cc (inspect_packet E bs s p))
        then [packets s] else [])"
  by (simp_all add: inspect_packet_def classify_def mark_defs check_continuity_def
      compared_state_def compare_counter_lists Let_def split: option.split)

definition at_boundary :: "nat list \<Rightarrow> scan \<Rightarrow> bool" where
  "at_boundary bs s \<longleftrightarrow> retune_boundary_index s < length bs \<and>
     packets s \<ge> bs ! retune_boundary_index s"

definition segment_pids :: "nat list \<Rightarrow> scan \<Rightarrow> nat set" where
  "segment_pids bs s = (if at_boundary bs s then {} else retune_segment_pids s)"

definition tracked :: "bytes \<Rightarrow> bool" where
  "tracked p \<longleftrightarrow> p ! 0 = 0x47 \<and> pkt_pid p \<noteq> 0x1FFF"

lemma enter_packet_retune:
  "retune_boundary_index (enter_packet bs (packets s) p s) =
     retune_boundary_index s + (if at_boundary bs s then 1 else 0)"
  "retune_segment (enter_packet bs (packets s) p s) =
     retune_segment s + (if at_boundary bs s then 1 else 0)"
  "retune_segment_pids (enter_packet bs (packets s) p s) = segment_pids bs s"
  by (auto simp: enter_packet_def at_boundary_def segment_pids_def Let_def)

lemma note_pid_retune:
  "retune_segment_pids (note_pid i pid s) =
     (if pid \<noteq> 0x1FFF then insert pid (retune_segment_pids s) else retune_segment_pids s)"
  "retune_excluded_cc (note_pid i pid s) =
     (if pid \<noteq> 0x1FFF \<and> retune_segment s > 0 \<and> pid \<notin> retune_segment_pids s
      then insert i (retune_excluded_cc s) else retune_excluded_cc s)"
  by (simp_all add: note_pid_def Let_def)

lemma inspect_packet_retune:
  "retune_boundary_index (inspect_packet E bs s p) =
     retune_boundary_index s + (if at_boundary bs s then 1 else 0)"
  "retune_segment (inspect_packet E bs s p) =
     retune_segment s + (if at_boundary bs s then 1 else 0)"
  "retune_segment_pids (inspect_packet E bs s p) =
     (if tracked p then insert (pkt_pid p) (segment_pids bs s) else segment_pids bs s)"
  "retune_excluded_cc (inspect_packet E bs s p) =
     (if tracked p \<and> (at_boundary bs s \<or> retune_segment s > 0) \<and> pkt_pid p \<notin> segment_pids bs s
      then insert (packets s) (retune_excluded_cc s) else retune_excluded_cc s)"
  by (simp_all add: inspect_packet_def enter_packet_retune note_pid_retune mark_defs Let_def
      tracked_def)

subsection \<open>The state after a sequence of packets\<close>

abbreviation run :: "nat set \<Rightarrow> nat list \<Rightarrow> bytes list \<Rightarrow> scan" where
  "run E bs ps \<equiv> foldl (inspect_packet E bs) scan0 ps"

lemma run_counts:
  "packets (run E bs ps) = length ps"
  "total_bytes (run E bs ps) = 0"
  "sync_errors (run E bs ps) = length (indices (\<lambda>p. classify p = Sync_Lost) ps)"
  "tei (run E bs ps) = length (indices (\<lambda>p. classify p = Transport_Error) ps)"
  "null_packet_count (run E bs ps) = length (indices (\<lambda>p. classify p = Null_Packet) ps)"
  "null_indices (run E bs ps) = indices (\<lambda>p. classify p = Null_Packet) ps"
  "invalid_packets (run E bs ps) = length (indices (\<lambda>p. classify p = Invalid_Packet) ps)"
  "invalid_packet_indices (run E bs ps) = indices (\<lambda>p. classify p = Invalid_Packet) ps"
  "untrusted_epoch (run E bs ps) = length (indices untrusted ps)"
  by (induction ps rule: rev_induct) (simp_all add: scan0_def indices_snoc)

definition entry_of :: "bytes list \<Rightarrow> nat \<Rightarrow> cc_state" where
  "entry_of ps j =
     \<lparr>counter = pkt_counter (ps ! j), has_payload = pkt_has_payload (ps ! j),
      repeated = repeats ps j, epoch = untrusted_before ps j, cc_packet = ps ! j\<rparr>"

lemma entry_of_snoc: "j < length ps \<Longrightarrow> entry_of (ps @ [p]) j = entry_of ps j"
  by (simp add: entry_of_def nth_append repeats_snoc untrusted_before_snoc)

lemma run_previous:
  "previous (run E bs ps) pid = map_option (entry_of ps) (last_good ps pid)"
proof (induction ps arbitrary: pid rule: rev_induct)
  case Nil
  then show ?case by (simp add: scan0_def last_good_def)
next
  case (snoc p ps)
  have old: "map_option (entry_of (ps @ [p])) (last_good ps pid) =
      map_option (entry_of ps) (last_good ps pid)" for pid
    by (cases "last_good ps pid") (auto simp: entry_of_snoc dest: last_good_SomeD(1))
  have new: "entry_of (ps @ [p]) (length ps) =
      \<lparr>counter = pkt_counter p, has_payload = pkt_has_payload p,
       repeated = (case previous (run E bs ps) (pkt_pid p) of
         None \<Rightarrow> False | Some st \<Rightarrow> pkt_has_payload p \<and> pkt_counter p = counter st),
       epoch = untrusted_epoch (run E bs ps), cc_packet = p\<rparr>"
    by (auto simp: entry_of_def repeats_def untrusted_before_def snoc.IH run_counts nth_append
        split: option.splits dest: last_good_SomeD(1))
  show ?case
    by (simp add: inspect_packet_previous last_good_snoc old snoc.IH new [simplified snoc.IH])
qed

lemma compared_state_run:
  "compared_state (run E bs ps) p =
     map_option (entry_of ps) (compared_with (ps @ [p]) (length ps))"
  by (simp add: compared_state_def compared_with_def run_previous)

lemma duplicate_of_entry:
  "j < length ps \<Longrightarrow>
   duplicate_of (entry_of ps j) (length (indices untrusted ps)) p =
     tolerated (ps @ [p]) j (length ps)"
  by (simp add: duplicate_of_def tolerated_def entry_of_def nth_append repeats_snoc
      untrusted_before_def)

lemma counter_off_entry:
  "j < length ps \<Longrightarrow>
   counter_off (entry_of ps j) p \<longleftrightarrow>
     pkt_counter ((ps @ [p]) ! length ps) \<noteq>
       (pkt_counter ((ps @ [p]) ! j) +
         (if pkt_has_payload ((ps @ [p]) ! length ps) then 1 else 0)) mod 16"
  by (simp add: counter_off_def entry_of_def nth_append)

subsection \<open>Retune boundaries\<close>

lemma boundary_reached:
  fixes bs :: "nat list"
  assumes "sorted_wrt (<) bs"
  shows "length (filter (\<lambda>b. b < n) bs) < length bs \<and> bs ! length (filter (\<lambda>b. b < n) bs) \<le> n
     \<longleftrightarrow> n \<in> set bs"
  using assms
proof (induction bs)
  case (Cons b bs)
  show ?case
  proof (cases "b < n")
    case True
    with Cons show ?thesis by auto
  next
    case False
    with Cons.prems have "filter (\<lambda>b. b < n) bs = []" by (auto simp: filter_empty_conv)
    with False Cons.prems show ?thesis by auto
  qed
qed simp

lemma boundaries_Suc:
  fixes bs :: "nat list"
  assumes "sorted_wrt (<) bs"
  shows "length (filter (\<lambda>b. b < Suc n) bs) =
     length (filter (\<lambda>b. b < n) bs) + (if n \<in> set bs then 1 else 0)"
  using assms by (induction bs) (auto simp: less_Suc_eq)

definition pids_since :: "nat list \<Rightarrow> bytes list \<Rightarrow> nat \<Rightarrow> nat set" where
  "pids_since bs ps m = (\<lambda>k. pkt_pid (ps ! k)) `
     {k. k < length ps \<and> tracked (ps ! k) \<and> (\<forall>b \<in> set bs. \<not> (k < b \<and> b < m))}"

lemma pids_since_snoc:
  "pids_since bs (ps @ [p]) (Suc (length ps)) =
     (if tracked p then insert (pkt_pid p) (pids_since bs ps (Suc (length ps)))
      else pids_since bs ps (Suc (length ps)))"
proof -
  let ?K = "{k. k < length ps \<and> tracked (ps ! k) \<and> (\<forall>b \<in> set bs. \<not> (k < b \<and> b < Suc (length ps)))}"
  have "{k. k < length (ps @ [p]) \<and> tracked ((ps @ [p]) ! k) \<and>
      (\<forall>b \<in> set bs. \<not> (k < b \<and> b < Suc (length ps)))} = ?K \<union> (if tracked p then {length ps} else {})"
    by (auto simp: nth_append less_Suc_eq)
  moreover have "(\<lambda>k. pkt_pid ((ps @ [p]) ! k)) ` ?K = (\<lambda>k. pkt_pid (ps ! k)) ` ?K"
    by (rule image_cong) (auto simp: nth_append)
  ultimately show ?thesis by (simp add: pids_since_def image_Un)
qed

lemma run_retune:
  assumes "sorted_wrt (<) bs"
  shows "retune_boundary_index (run E bs ps) = length (filter (\<lambda>b. b < length ps) bs) \<and>
     retune_segment (run E bs ps) = length (filter (\<lambda>b. b < length ps) bs) \<and>
     retune_segment_pids (run E bs ps) = pids_since bs ps (length ps) \<and>
     retune_excluded_cc (run E bs ps) = {i. i < length ps \<and> retune_first bs ps i}"
proof (induction ps rule: rev_induct)
  case Nil
  show ?case by (auto simp: scan0_def pids_since_def)
next
  case (snoc p ps)
  let ?n = "length ps" and ?s = "run E bs ps"
  have at: "at_boundary bs ?s \<longleftrightarrow> ?n \<in> set bs"
    using snoc.IH boundary_reached [OF assms, of ?n] by (simp add: at_boundary_def run_counts)
  have seg: "segment_pids bs ?s = pids_since bs ps (Suc ?n)"
    using snoc.IH unfolding segment_pids_def at
    by (auto simp: pids_since_def less_Suc_eq)
  have some: "at_boundary bs ?s \<or> retune_segment ?s > 0 \<longleftrightarrow> (\<exists>b \<in> set bs. b \<le> ?n)"
    using snoc.IH by (auto simp: at filter_empty_conv le_less)
  have first: "retune_first bs (ps @ [p]) ?n \<longleftrightarrow>
      tracked p \<and> (\<exists>b \<in> set bs. b \<le> ?n) \<and> pkt_pid p \<notin> pids_since bs ps (Suc ?n)"
    by (auto simp: retune_first_def pids_since_def tracked_def nth_append less_Suc_eq_le
        image_iff)
  have grow: "{i. i < Suc ?n \<and> retune_first bs (ps @ [p]) i} =
      (if retune_first bs (ps @ [p]) ?n then insert ?n {i. i < ?n \<and> retune_first bs ps i}
       else {i. i < ?n \<and> retune_first bs ps i})"
    by (auto simp: less_Suc_eq retune_first_snoc)
  have "retune_excluded_cc (run E bs (ps @ [p])) = {i. i < Suc ?n \<and> retune_first bs (ps @ [p]) i}"
    using snoc.IH [THEN conjunct2, THEN conjunct2, THEN conjunct2]
    by (simp only: grow first foldl_append foldl.simps inspect_packet_retune(4) seg some
        run_counts(1))
  with snoc.IH show ?case
    by (simp add: inspect_packet_retune(1-3) at seg boundaries_Suc [OF assms] pids_since_snoc)
qed

lemma excused_run:
  assumes "sorted_wrt (<) bs"
  shows "length ps \<in> E \<or> length ps \<in> retune_excluded_cc (run E bs (ps @ [p])) \<longleftrightarrow>
     excused E bs (ps @ [p]) (length ps)"
  using run_retune [OF assms, of E "ps @ [p]"] by (auto simp: excused_def)

subsection \<open>The reported lists\<close>

lemma run_lists:
  assumes "sorted_wrt (<) bs"
  shows "duplicate_packet_indices (run E bs ps) = filter (duplicate_at ps) [0..<length ps] \<and>
     continuity_error_indices (run E bs ps) =
       filter (\<lambda>i. mismatch_at ps i \<and> \<not> excused E bs ps i) [0..<length ps] \<and>
     excluded_seen (run E bs ps) =
       filter (\<lambda>i. mismatch_at ps i \<and> excused E bs ps i) [0..<length ps]"
proof (induction ps rule: rev_induct)
  case Nil
  show ?case by (simp add: scan0_def)
next
  case (snoc p ps)
  let ?n = "length ps" and ?ps = "ps @ [p]"
  note ex = excused_run [OF assms, of ps E p, simplified]
  have old: "filter (duplicate_at ?ps) [0..<Suc ?n] =
        filter (duplicate_at ps) [0..<?n] @ (if duplicate_at ?ps ?n then [?n] else [])"
    "filter (\<lambda>i. mismatch_at ?ps i \<and> \<not> excused E bs ?ps i) [0..<Suc ?n] =
        filter (\<lambda>i. mismatch_at ps i \<and> \<not> excused E bs ps i) [0..<?n] @
        (if mismatch_at ?ps ?n \<and> \<not> excused E bs ?ps ?n then [?n] else [])"
    "filter (\<lambda>i. mismatch_at ?ps i \<and> excused E bs ?ps i) [0..<Suc ?n] =
        filter (\<lambda>i. mismatch_at ps i \<and> excused E bs ps i) [0..<?n] @
        (if mismatch_at ?ps ?n \<and> excused E bs ?ps ?n then [?n] else [])"
    by (rule filter_upt_snoc; simp add: duplicate_at_snoc mismatch_at_snoc excused_snoc)+
  show ?case
  proof (cases "compared_with ?ps ?n")
    case None
    then have "\<not> duplicate_at ?ps ?n" and "\<not> mismatch_at ?ps ?n"
      by (simp_all add: duplicate_at_def mismatch_at_def)
    with None snoc.IH show ?thesis
      by (simp add: old inspect_packet_lists compared_state_run del: upt_Suc)
  next
    case (Some j)
    then have j: "j < ?n" by (rule compared_with_less)
    have "duplicate_at ?ps ?n \<longleftrightarrow> tolerated ?ps j ?n"
      and "mismatch_at ?ps ?n \<longleftrightarrow> \<not> tolerated ?ps j ?n \<and> counter_off (entry_of ps j) p"
      using Some by (simp_all add: duplicate_at_def mismatch_at_def counter_off_entry [OF j])
    with Some snoc.IH show ?thesis
      by (simp add: old inspect_packet_lists compared_state_run run_counts ex
          duplicate_of_entry [OF j] del: upt_Suc)
  qed
qed

end
