(* ===== verification/TsReport.thy ===== *)
theory TsReport
  imports TsContinuity
begin

unbundle bit_operations_syntax

section \<open>Reading a capture in chunks, and the checker's verdict\<close>

text \<open>
  The locale \<open>framed_reader\<close> is the contract between the chunked reading loop and the
  packet step: a step that does not look at the byte count sees the same packets however
  the file is cut. Its interpretation on \<open>inspect_chunk\<close> and the account of
  \<open>TsContinuity\<close> give the properties of \<open>inspect\<close> and of the exit status.
\<close>

subsection \<open>Frames\<close>

lemma frames_short [simp]: "length d < n \<Longrightarrow> frames n d = []"
  by (simp add: frames.simps)

lemma frames_Nil [simp]: "frames n [] = []"
  by (cases n) (simp_all add: frames.simps)

lemma frames_step: "0 < n \<Longrightarrow> n \<le> length d \<Longrightarrow> frames n d = take n d # frames n (drop n d)"
  by (subst frames.simps) auto

lemma frames_append:
  "0 < n \<Longrightarrow> length a mod n = 0 \<Longrightarrow> frames n (a @ b) = frames n a @ frames n b"
proof (induction n a rule: frames.induct)
  case (1 n a)
  show ?case
  proof (cases "length a < n")
    case True
    with 1 have "a = []" by simp
    then show ?thesis by simp
  next
    case False
    then have "length (drop n a) mod n = 0" using 1 by (simp add: le_mod_geq)
    with False 1 have "frames n (drop n a @ b) = frames n (drop n a) @ frames n b" by simp
    with False 1 show ?thesis by (simp add: frames_step)
  qed
qed

lemma frames_split_whole:
  assumes "0 < n"
  shows "frames n (d @ c) = frames n (take (length d - length d mod n) d) @
     frames n (drop (length d - length d mod n) d @ c)"
proof -
  let ?c = "length d - length d mod n"
  have "length (take ?c d) = ?c" by simp
  then have "length (take ?c d) mod n = 0" by (simp only:) simp
  then have "frames n (take ?c d @ (drop ?c d @ c)) = frames n (take ?c d) @ frames n (drop ?c d @ c)"
    by (rule frames_append [OF assms])
  then show ?thesis by (simp flip: append_assoc)
qed

lemma frames_whole:
  assumes "0 < n"
  shows "frames n (take (length d - length d mod n) d) = frames n d"
proof -
  have "length (drop (length d - length d mod n) d) < n" using assms by simp
  then show ?thesis using frames_split_whole [OF assms, of d "[]"] by simp
qed

lemma length_frames: "0 < n \<Longrightarrow> length (frames n d) = length d div n"
proof (induction n d rule: frames.induct)
  case (1 n d)
  then show ?case
    by (cases "length d < n") (auto simp: frames_step le_div_geq)
qed

lemma frames_length: "p \<in> set (frames n d) \<Longrightarrow> length p = n"
proof (induction n d rule: frames.induct)
  case (1 n d)
  then show ?case by (subst (asm) (2) frames.simps) (auto split: if_splits)
qed

lemma concat_read_chunks: "0 < n \<Longrightarrow> concat (read_chunks n d) = d"
proof (induction n d rule: read_chunks.induct)
  case (1 n d)
  then show ?case by (subst read_chunks.simps) auto
qed

subsection \<open>Chunks do not matter\<close>

locale framed_reader =
  fixes n :: nat
    and step :: "'s \<Rightarrow> 'a list \<Rightarrow> 's"
    and account :: "nat \<Rightarrow> 's \<Rightarrow> 's"
    and feed :: "'s \<times> 'a list \<Rightarrow> 'a list \<Rightarrow> 's \<times> 'a list"
  assumes n_pos: "0 < n"
    and account_0: "account 0 s = s"
    and account_add: "account k (account l s) = account (l + k) s"
    and account_step: "step (account k s) p = account k (step s p)"
    and feed_eq: "feed (s, pending) chunk =
      (foldl step (account (length chunk) s)
         (frames n (take (length (pending @ chunk) - length (pending @ chunk) mod n)
                     (pending @ chunk))),
       drop (length (pending @ chunk) - length (pending @ chunk) mod n) (pending @ chunk))"
begin

lemma account_foldl: "foldl step (account k s) ps = account k (foldl step s ps)"
  by (induction ps arbitrary: s) (simp_all add: account_step)

lemma feed_all:
  "foldl feed (s, []) chunks =
     (account (length (concat chunks)) (foldl step s (frames n (concat chunks))),
      drop (length (concat chunks) - length (concat chunks) mod n) (concat chunks))"
proof (induction chunks rule: rev_induct)
  case Nil
  then show ?case by (simp add: account_0)
next
  case (snoc c cs)
  define C where "C = concat cs"
  define k where "k = length C - length C mod n"
  define D where "D = drop k C @ c"
  have k: "k mod n = 0" "k \<le> length C" by (simp_all add: k_def)
  have whole: "frames n (C @ c) = frames n C @ frames n D"
    using frames_split_whole [OF n_pos, of C c] frames_whole [OF n_pos, of C]
    by (simp add: k_def D_def)
  have len: "length (C @ c) = k + length D" using k(2) by (simp add: D_def)
  then have "length (C @ c) mod n = length D mod n"
    using k(1) by (metis add_0 mod_add_left_eq)
  then have "length (C @ c) - length (C @ c) mod n = k + (length D - length D mod n)"
    using len by simp
  moreover have "drop (k + (length D - length D mod n)) (take k C @ D) =
      drop (length D - length D mod n) D"
    using k(2) by (simp add: min_def del: add_diff_assoc)
  moreover have "C @ c = take k C @ D" by (simp add: D_def)
  ultimately have rest: "drop (length (C @ c) - length (C @ c) mod n) (C @ c) =
      drop (length D - length D mod n) D"
    by (simp only:)
  have IH: "foldl feed (s, []) cs = (account (length C) (foldl step s (frames n C)), drop k C)"
    using snoc.IH by (simp only: C_def k_def)
  have "feed (account (length C) (foldl step s (frames n C)), drop k C) c =
      (foldl step (account (length c) (account (length C) (foldl step s (frames n C)))) (frames n D),
       drop (length D - length D mod n) D)"
    unfolding feed_eq D_def [symmetric] frames_whole [OF n_pos] ..
  with IH show ?case
    by (simp add: C_def [symmetric] whole [simplified] rest [simplified] account_foldl account_add)
qed

lemma feed_state:
  "fst (foldl feed (s, []) chunks) =
     account (length (concat chunks)) (foldl step s (frames n (concat chunks)))"
  by (simp add: feed_all)

end

lemma enter_packet_total:
  "enter_packet bs i p (s\<lparr>total_bytes := t\<rparr>) = (enter_packet bs i p s)\<lparr>total_bytes := t\<rparr>"
  by (simp add: enter_packet_def Let_def)

lemma note_pid_total:
  "note_pid i pid (s\<lparr>total_bytes := t\<rparr>) = (note_pid i pid s)\<lparr>total_bytes := t\<rparr>"
  by (simp add: note_pid_def Let_def)

lemma compare_counter_total:
  "compare_counter E i p st (s\<lparr>total_bytes := t\<rparr>) = (compare_counter E i p st s)\<lparr>total_bytes := t\<rparr>"
  by (simp add: compare_counter_def Let_def)

lemma check_continuity_total:
  "check_continuity E i pid p (s\<lparr>total_bytes := t\<rparr>) =
     (check_continuity E i pid p s)\<lparr>total_bytes := t\<rparr>"
  by (simp add: check_continuity_def compare_counter_total Let_def split: option.split)

lemma inspect_packet_total:
  "inspect_packet E bs (s\<lparr>total_bytes := t\<rparr>) p = (inspect_packet E bs s p)\<lparr>total_bytes := t\<rparr>"
  by (simp add: inspect_packet_def enter_packet_total note_pid_total check_continuity_total
      mark_defs Let_def)

interpretation ts_file: framed_reader 188 "inspect_packet E bs"
  "\<lambda>k s. s\<lparr>total_bytes := total_bytes s + k\<rparr>" "inspect_chunk E bs" for E bs
  by unfold_locales (simp_all add: inspect_packet_total inspect_chunk_def Let_def)

lemma inspect_chunks_run:
  "inspect_chunks E bs chunks =
     (run E bs (frames 188 (concat chunks)))\<lparr>total_bytes := length (concat chunks)\<rparr>"
  using ts_file.feed_state [of E bs scan0 chunks] run_counts(2) [of E bs]
  by (simp add: inspect_chunks_def)

lemma inspect_run:
  "inspect E bs data = (run E bs (frames 188 data))\<lparr>total_bytes := length data\<rparr>"
  by (simp add: inspect_def inspect_chunks_run concat_read_chunks)

lemma class_partition:
  "length (indices (\<lambda>p. classify p = Sync_Lost) ps) +
   length (indices (\<lambda>p. classify p = Transport_Error) ps) +
   length (indices (\<lambda>p. classify p = Null_Packet) ps) +
   length (indices (\<lambda>p. classify p = Invalid_Packet) ps) +
   length (indices (\<lambda>p. classify p = Good_Packet) ps) = length ps"
proof (induction ps rule: rev_induct)
  case (snoc p ps)
  then show ?case by (cases "classify p") (simp_all add: indices_snoc)
qed simp

lemma indices_empty_iff: "indices P ps = [] \<longleftrightarrow> (\<forall>p \<in> set ps. \<not> P p)"
  by (auto simp: indices_def filter_empty_conv all_set_conv_all_nth)

subsection \<open>Properties\<close>

text \<open>A well-formed payload packet of PID 256, for the witnesses.\<close>

definition sample_packet :: "8 word \<Rightarrow> bytes" where
  "sample_packet c = [0x47, 0x01, 0x00, 0x10 + c] @ replicate 184 0"


text \<open>C37. The report does not depend on how the operating system cuts the file into chunks:
  any sequence of reads whose concatenation is the file gives the state that \<open>inspect\<close>
  computes with its own reads of 188 * 4096 bytes.\<close>

theorem ts_chunking_irrelevant: "inspect_chunks E bs chunks = inspect E bs (concat chunks)"
  by (simp add: inspect_chunks_run inspect_run)

text \<open>C38. The indices reported as continuity errors are exactly the packets whose counter does
  not follow the last good packet of their PID, that are not the one tolerated duplicate,
  and that neither a manual exclusion nor a retune boundary excuses; the excused mismatches
  and the tolerated duplicates are listed apart, each in increasing order.\<close>

theorem ts_continuity_errors_exact:
  assumes "sorted_wrt (<) bs"
  shows "continuity_error_indices (inspect E bs data) =
       filter (\<lambda>i. mismatch_at (frames 188 data) i \<and> \<not> excused E bs (frames 188 data) i)
         [0..<length data div 188] \<and>
     excluded_seen (inspect E bs data) =
       filter (\<lambda>i. mismatch_at (frames 188 data) i \<and> excused E bs (frames 188 data) i)
         [0..<length data div 188] \<and>
     duplicate_packet_indices (inspect E bs data) =
       filter (duplicate_at (frames 188 data)) [0..<length data div 188]"
  using run_lists [OF assms, of E "frames 188 data"]
  by (simp add: inspect_run length_frames)

theorem ts_continuity_errors_exact_witness:
  "sorted_wrt (<) [5::nat] \<and>
   continuity_error_indices (inspect {} [5] (sample_packet 0 @ sample_packet 2)) = [1]"
proof -
  have s: "sorted_wrt (<) [5::nat]" by simp
  have "filter (\<lambda>i. mismatch_at (frames 188 (sample_packet 0 @ sample_packet 2)) i \<and>
      \<not> excused {} [5] (frames 188 (sample_packet 0 @ sample_packet 2)) i)
      [0..<length (sample_packet 0 @ sample_packet 2) div 188] = [1]"
    by code_simp
  then show ?thesis
    using s ts_continuity_errors_exact [OF s, of "{}" "sample_packet 0 @ sample_packet 2"] by simp
qed

text \<open>C39. Every whole packet of the file is counted in exactly one class: the counters of
  lost sync, transport errors, null packets and invalid packets and the good packets add up
  to the packet count, which is the file size divided by 188.\<close>

theorem ts_packet_accounting:
  "packets (inspect E bs data) = length data div 188 \<and>
   total_bytes (inspect E bs data) = length data \<and>
   sync_errors (inspect E bs data) + tei (inspect E bs data) +
     null_packet_count (inspect E bs data) + invalid_packets (inspect E bs data) +
     length (indices (\<lambda>p. classify p = Good_Packet) (frames 188 data)) = length data div 188"
  using class_partition [of "frames 188 data"]
  by (simp add: inspect_run run_counts length_frames)

text \<open>At most one duplicate is tolerated: after a packet accepted as the duplicate of its
  predecessor, the next compared packet of that PID that carries payload with the same
  counter is a continuity error (or an excused mismatch), never a second duplicate.\<close>

theorem ts_third_copy_reported:
  assumes "sorted_wrt (<) bs" and "k < length data div 188"
    and "i \<in> set (duplicate_packet_indices (inspect E bs data))"
    and "compared_with (frames 188 data) k = Some i"
    and "pkt_has_payload (frames 188 data ! k)"
    and "pkt_counter (frames 188 data ! k) = pkt_counter (frames 188 data ! i)"
  shows "k \<in> set (continuity_error_indices (inspect E bs data)) \<union>
       set (excluded_seen (inspect E bs data)) \<and>
     k \<notin> set (duplicate_packet_indices (inspect E bs data))"
proof -
  let ?ps = "frames 188 data"
  note lists = run_lists [OF assms(1), of E ?ps]
  have "duplicate_at ?ps i" using assms(3) lists by (simp add: inspect_run)
  then obtain j where j: "compared_with ?ps i = Some j" "tolerated ?ps j i"
    by (auto simp: duplicate_at_def split: option.splits)
  have "last_good (take i ?ps) (pkt_pid (?ps ! i)) = Some j"
    using j(1) by (auto simp: compared_with_def split: if_splits)
  then have "repeats ?ps i" using j(2) by (simp add: repeats_def tolerated_def)
  then have "\<not> tolerated ?ps i k" by (simp add: tolerated_def)
  moreover have "pkt_counter (?ps ! k) \<noteq> (pkt_counter (?ps ! i) + 1) mod 16"
    unfolding assms(6) by presburger
  ultimately have "mismatch_at ?ps k" and "\<not> duplicate_at ?ps k"
    using assms(4-5) by (simp_all add: mismatch_at_def duplicate_at_def)
  then show ?thesis using lists assms(2) by (auto simp: inspect_run length_frames)
qed

lemma three_copies_duplicate:
  "1 \<in> set (duplicate_packet_indices
     (inspect {} [] (sample_packet 0 @ sample_packet 0 @ sample_packet 0)))"
proof -
  have "duplicate_at (frames 188 (sample_packet 0 @ sample_packet 0 @ sample_packet 0)) 1"
    by code_simp
  moreover have "length (frames 188 (sample_packet 0 @ sample_packet 0 @ sample_packet 0)) = 3"
    by (simp add: length_frames sample_packet_def)
  ultimately show ?thesis
    using run_lists [of "[]" "{}" "frames 188 (sample_packet 0 @ sample_packet 0 @ sample_packet 0)"]
    by (simp add: inspect_run)
qed

theorem ts_third_copy_reported_witness:
  "2 \<in> set (continuity_error_indices
       (inspect {} [] (sample_packet 0 @ sample_packet 0 @ sample_packet 0))) \<union>
     set (excluded_seen (inspect {} [] (sample_packet 0 @ sample_packet 0 @ sample_packet 0)))"
proof -
  let ?d = "sample_packet 0 @ sample_packet 0 @ sample_packet 0"
  have "compared_with (frames 188 ?d) 2 = Some 1" and "pkt_has_payload (frames 188 ?d ! 2)"
    and "pkt_counter (frames 188 ?d ! 2) = pkt_counter (frames 188 ?d ! 1)"
    by code_simp+
  moreover have "2 < length ?d div 188" by (simp add: sample_packet_def)
  ultimately show ?thesis
    using ts_third_copy_reported [of "[]" 2 ?d 1 "{}"] three_copies_duplicate by simp
qed

text \<open>C40. The checker exits with status 0 exactly on a non-empty capture of whole packets that
  are all good or null and have no unexcused continuity mismatch.\<close>

theorem ts_exit_zero_iff:
  assumes "sorted_wrt (<) bs"
  shows "scan_exit_status (inspect E bs data) = 0 \<longleftrightarrow>
     data \<noteq> [] \<and> length data mod 188 = 0 \<and>
     (\<forall>p \<in> set (frames 188 data). classify p \<in> {Good_Packet, Null_Packet}) \<and>
     (\<forall>i < length data div 188. mismatch_at (frames 188 data) i \<longrightarrow>
        excused E bs (frames 188 data) i)"
proof -
  let ?ps = "frames 188 data"
  have cls: "(\<forall>p \<in> set ?ps. classify p \<in> {Good_Packet, Null_Packet}) \<longleftrightarrow>
      indices (\<lambda>p. classify p = Sync_Lost) ?ps = [] \<and>
      indices (\<lambda>p. classify p = Transport_Error) ?ps = [] \<and>
      indices (\<lambda>p. classify p = Invalid_Packet) ?ps = []"
    unfolding indices_empty_iff by (auto intro: packet_class.exhaust)
  have cc: "continuity_error_indices (run E bs ?ps) = [] \<longleftrightarrow>
      (\<forall>i < length data div 188. mismatch_at ?ps i \<longrightarrow> excused E bs ?ps i)"
    using run_lists [OF assms, of E ?ps] by (auto simp: filter_empty_conv length_frames)
  have "length data mod 188 = 0 \<Longrightarrow> data \<noteq> [] \<longleftrightarrow> length data div 188 \<noteq> 0"
    by (auto simp: div_greater_zero_iff dest: dvd_imp_le)
  then show ?thesis unfolding cls
    by (auto simp: scan_exit_status_def inspect_run run_counts length_frames cc)
qed

theorem ts_exit_zero_iff_witness:
  "scan_exit_status (inspect {} [] (sample_packet 15 @ sample_packet 0)) = 0"
proof -
  let ?d = "sample_packet 15 @ sample_packet 0"
  have "\<forall>p \<in> set (frames 188 ?d). classify p \<in> {Good_Packet, Null_Packet}" by code_simp
  moreover have "\<forall>i \<in> set [0..<2]. \<not> mismatch_at (frames 188 ?d) i" by code_simp
  then have "\<forall>i < 2. \<not> mismatch_at (frames 188 ?d) i" by simp
  ultimately show ?thesis
    using ts_exit_zero_iff [of "[]" "{}" ?d] by (simp add: sample_packet_def)
qed

text \<open>A run that is not refused has unique, nonnegative exclusions and strictly increasing,
  positive retune boundaries, all of them indices of packets of the file, and its status is
  that of \<open>inspect\<close>: nothing is excused outside the capture.\<close>

theorem ts_main_checks_arguments:
  assumes "inspect_main ex rb same data = Exit n"
  shows "distinct ex \<and> sorted_wrt (<) rb \<and> \<not> same \<and>
     (\<forall>i \<in> set ex. 0 \<le> i \<and> i < int (length data div 188)) \<and>
     (\<forall>i \<in> set rb. 0 < i \<and> i < int (length data div 188)) \<and>
     n = scan_exit_status (inspect (nat ` set ex) (map nat rb) data)"
  using assms
  by (auto simp: inspect_main_def Let_def list_ex_iff inspect_run run_counts length_frames
      card_distinct split: if_splits)
    (metis strict_sorted_list_of_set)

lemma sample_main: "inspect_main [1] [] False (sample_packet 0 @ sample_packet 2) = Exit 0"
proof -
  let ?d = "sample_packet 0 @ sample_packet 2"
  have "scan_exit_status ((run {1} [] (frames 188 ?d))\<lparr>total_bytes := length ?d\<rparr>) = 0" by code_simp
  moreover have "length ?d div 188 = 2" by (simp add: sample_packet_def)
  ultimately show ?thesis
    by (simp add: inspect_main_def inspect_run run_counts length_frames)
qed

theorem ts_main_checks_arguments_witness:
  "inspect_main [1] [] False (sample_packet 0 @ sample_packet 2) = Exit 0 \<and>
   0 = scan_exit_status (inspect (nat ` set [1]) (map nat []) (sample_packet 0 @ sample_packet 2))"
  using ts_main_checks_arguments [OF sample_main] sample_main by blast

end
