(* ===== verification/Json.thy ===== *)
theory Json
  imports PyText "HOL-Library.Log_Nat"
begin

section \<open>JSON documents\<close>

text \<open>
  What the scripts use of Python's \<open>json\<close> module: \<open>loads\<close> on text and on bytes (with the
  detection of the encoding), the \<open>object_pairs_hook\<close> and \<open>parse_constant\<close> hooks, and
  \<open>dumps\<close> with \<open>indent=2, sort_keys=True\<close>. Values compare with Python's \<open>==\<close>
  (\<open>py_eq\<close>), in which \<open>True\<close>, \<open>1\<close> and \<open>1.0\<close> are equal and the order of keys does not
  matter.

  The recursive descent takes fuel; \<open>json_loads\<close> supplies twice the length of the text
  plus two, and \<open>JsonFacts\<close> shows that it never runs out. Python's limit on the depth of
  the recursion is not modelled.
\<close>

subsection \<open>Values\<close>

datatype pyfloat = Finite rat | NegZero | PosInf | NegInf | NaN

datatype json =
    JNull
  | JBool bool
  | JInt int
  | JFloat pyfloat
  | JStr pystr
  | JArr "json list"
  | JObj "(pystr \<times> json) list"

definition float_rat :: "pyfloat \<Rightarrow> rat option" where
  "float_rat f = (case f of Finite r \<Rightarrow> Some r | NegZero \<Rightarrow> Some 0 | _ \<Rightarrow> None)"

definition numeric :: "json \<Rightarrow> rat option" where
  "numeric v = (case v of
       JBool b \<Rightarrow> Some (if b then 1 else 0)
     | JInt i \<Rightarrow> Some (of_int i)
     | JFloat f \<Rightarrow> float_rat f
     | _ \<Rightarrow> None)"

text \<open>A float equals a number of the same value; an infinity only itself, and a NaN nothing.\<close>

definition float_eq :: "pyfloat \<Rightarrow> json \<Rightarrow> bool" where
  "float_eq f w = (case float_rat f of
       Some r \<Rightarrow> numeric w = Some r
     | None \<Rightarrow> f \<noteq> NaN \<and> w = JFloat f)"

fun py_eq :: "json \<Rightarrow> json \<Rightarrow> bool"
  and py_eq_list :: "json list \<Rightarrow> json list \<Rightarrow> bool"
  and py_eq_items :: "(pystr \<times> json) list \<Rightarrow> (pystr \<times> json) list \<Rightarrow> bool" where
  "py_eq (JStr s) w = (case w of JStr t \<Rightarrow> s = t | _ \<Rightarrow> False)"
| "py_eq (JArr xs) w = (case w of JArr ys \<Rightarrow> py_eq_list xs ys | _ \<Rightarrow> False)"
| "py_eq (JObj d) w =
     (case w of JObj e \<Rightarrow> length d = length e \<and> py_eq_items d e | _ \<Rightarrow> False)"
| "py_eq JNull w = (w = JNull)"
| "py_eq (JBool b) w = (numeric w = Some (if b then 1 else 0))"
| "py_eq (JInt i) w = (numeric w = Some (of_int i))"
| "py_eq (JFloat f) w = float_eq f w"
| "py_eq_list [] ys = (ys = [])"
| "py_eq_list (x # xs) ys = (case ys of [] \<Rightarrow> False | y # ys' \<Rightarrow> py_eq x y \<and> py_eq_list xs ys')"
| "py_eq_items [] e = True"
| "py_eq_items ((k, v) # d) e =
     ((case map_of e k of None \<Rightarrow> False | Some w \<Rightarrow> py_eq v w) \<and> py_eq_items d e)"

text \<open>\<open>d.get(k)\<close> is \<open>None\<close> for a missing key.\<close>

definition jget :: "(pystr, json) dict \<Rightarrow> pystr \<Rightarrow> json" where
  "jget d k = (case map_of d k of None \<Rightarrow> JNull | Some v \<Rightarrow> v)"

fun is_obj :: "json \<Rightarrow> bool" where
  "is_obj (JObj d) = True"
| "is_obj _ = False"

fun obj_items :: "json \<Rightarrow> (pystr, json) dict" where
  "obj_items (JObj d) = d"
| "obj_items _ = []"

fun is_str :: "json \<Rightarrow> bool" where
  "is_str (JStr s) = True"
| "is_str _ = False"

fun str_of :: "json \<Rightarrow> pystr" where
  "str_of (JStr s) = s"
| "str_of _ = []"

text \<open>\<open>isinstance(v, int)\<close>, which holds for booleans too, and \<open>type(v) is int\<close>.\<close>

fun is_int_instance :: "json \<Rightarrow> bool" where
  "is_int_instance (JInt i) = True"
| "is_int_instance (JBool b) = True"
| "is_int_instance _ = False"

fun is_bool :: "json \<Rightarrow> bool" where
  "is_bool (JBool b) = True"
| "is_bool _ = False"

fun is_exact_int :: "json \<Rightarrow> bool" where
  "is_exact_int (JInt i) = True"
| "is_exact_int _ = False"

fun int_of :: "json \<Rightarrow> int" where
  "int_of (JInt i) = i"
| "int_of (JBool b) = (if b then 1 else 0)"
| "int_of _ = 0"

subsection \<open>Numbers\<close>

definition pow2 :: "int \<Rightarrow> rat" where
  "pow2 e = (if e \<ge> 0 then 2 ^ nat e else 1 / 2 ^ nat (- e))"

definition round_half_even :: "rat \<Rightarrow> int" where
  "round_half_even r =
     (let f = \<lfloor>r\<rfloor>; d = r - of_int f
      in if d < 1 / 2 then f else if d > 1 / 2 then f + 1 else if even f then f else f + 1)"

text \<open>The nearest IEEE 754 binary64 value of a positive rational, ties to even.\<close>

definition binary64 :: "rat \<Rightarrow> pyfloat" where
  "binary64 r =
     (let (n, d) = quotient_of r;
          e0 = bitlen n - bitlen d - 53;
          e1 = (if r / pow2 e0 \<ge> 2 ^ 53 then e0 + 1 else e0);
          e = max e1 (- 1074);
          v = of_int (round_half_even (r / pow2 e)) * pow2 e
      in if v \<ge> 2 ^ 1024 then PosInf else Finite v)"

definition float_of_parts :: "bool \<Rightarrow> pystr \<Rightarrow> pystr \<Rightarrow> int \<Rightarrow> pyfloat" where
  "float_of_parts neg whole fracd ex =
     (let m = int_of_digits (whole @ fracd); e = ex - int (length fracd);
          r = of_nat m * (if e \<ge> 0 then 10 ^ nat e else 1 / 10 ^ nat (- e))
      in if m = 0 then (if neg then NegZero else Finite 0)
         else case binary64 r of
           Finite v \<Rightarrow> if neg then (if v = 0 then NegZero else Finite (- v)) else Finite v
         | _ \<Rightarrow> if neg then NegInf else PosInf)"

subsection \<open>Lexical elements\<close>

definition json_error :: "'a res" where
  "json_error = Inl (ValueError ''JSONDecodeError'' [])"

definition is_ws :: "nat \<Rightarrow> bool" where
  "is_ws c \<longleftrightarrow> c \<in> {32, 9, 10, 13}"

definition skip_ws :: "pystr \<Rightarrow> pystr" where
  "skip_ws s = dropWhile is_ws s"

definition hex_val :: "nat \<Rightarrow> nat" where
  "hex_val c = (if is_digit c then c - 48 else if 97 \<le> c then c - 87 else c - 55)"

text \<open>The four hexadecimal digits after \<open>\u\<close>.\<close>

fun hex4 :: "pystr \<Rightarrow> (nat \<times> pystr) option" where
  "hex4 (a # b # c # d # r) =
     (if is_hex a \<and> is_hex b \<and> is_hex c \<and> is_hex d
      then Some (((hex_val a * 16 + hex_val b) * 16 + hex_val c) * 16 + hex_val d, r)
      else None)"
| "hex4 _ = None"

definition escape_char :: "nat \<Rightarrow> nat option" where
  "escape_char c =
     (if c = 34 then Some 34 else if c = 92 then Some 92 else if c = 47 then Some 47
      else if c = 98 then Some 8 else if c = 102 then Some 12 else if c = 110 then Some 10
      else if c = 114 then Some 13 else if c = 116 then Some 9 else None)"

text \<open>A \<open>\u\<close> escape, joined with a following low surrogate when it is a high one.\<close>

definition unicode_escape :: "pystr \<Rightarrow> (nat \<times> pystr) option" where
  "unicode_escape s =
     (case hex4 s of
        None \<Rightarrow> None
      | Some (n, r) \<Rightarrow>
          if 55296 \<le> n \<and> n < 56320 \<and> take 2 r = [92, 117] then
            (case hex4 (drop 2 r) of
               None \<Rightarrow> None
             | Some (m, r') \<Rightarrow>
                 if 56320 \<le> m \<and> m < 57344
                 then Some (65536 + (n - 55296) * 1024 + (m - 56320), r')
                 else Some (n, r))
          else Some (n, r))"

lemma hex4_length: "hex4 s = Some (n, r) \<Longrightarrow> length r < length s"
  by (induction s rule: hex4.induct) (auto split: if_splits)

lemma unicode_escape_length: "unicode_escape s = Some (n, r) \<Longrightarrow> length r < length s"
proof -
  assume "unicode_escape s = Some (n, r)"
  then obtain m q where h: "hex4 s = Some (m, q)" and r: "r = q \<or> (\<exists>k. hex4 (drop 2 q) = Some (k, r))"
    by (auto simp: unicode_escape_def split: option.splits if_splits)
  have "length r \<le> length q" using r hex4_length [of "drop 2 q"] by fastforce
  with hex4_length [OF h] show ?thesis by simp
qed

function scanstring :: "pystr \<Rightarrow> pystr \<Rightarrow> (pystr \<times> pystr) res" where
  "scanstring acc s =
     (case s of
        [] \<Rightarrow> json_error
      | c # r \<Rightarrow>
          if c = 34 then Inr (rev acc, r)
          else if c < 32 then json_error
          else if c \<noteq> 92 then scanstring (c # acc) r
          else (case r of
              [] \<Rightarrow> json_error
            | e # r' \<Rightarrow>
                if e = 117 then
                  (case unicode_escape r' of
                     None \<Rightarrow> json_error
                   | Some (n, r'') \<Rightarrow> scanstring (n # acc) r'')
                else (case escape_char e of
                     None \<Rightarrow> json_error
                   | Some n \<Rightarrow> scanstring (n # acc) r')))"
  by pat_completeness auto
termination
proof (relation "measure (\<lambda>(acc, s). length s)", goal_cases)
  case (3 acc s c r e r' x n r'')
  then show ?case using unicode_escape_length [of r' n r''] by simp
qed auto

declare scanstring.simps [simp del]

text \<open>
  A number: \<open>-?(0|[1-9][0-9]*)\<close> with an optional fraction and exponent. Converting more
  than 4300 digits to an \<open>int\<close> raises.
\<close>

definition scan_number :: "pystr \<Rightarrow> (json \<times> pystr) option" where
  "scan_number s =
     (let neg = (take 1 s = [45]); t = (if neg then drop 1 s else s);
          whole = (if take 1 t = [48] then [48] else takeWhile is_digit t);
          t1 = drop (length whole) t;
          fracd = (if take 1 t1 = [46] then takeWhile is_digit (drop 1 t1) else []);
          t2 = (if fracd = [] then t1 else drop (1 + length fracd) t1);
          signed = (if take 1 t2 = [101] \<or> take 1 t2 = [69] then drop 1 t2 else []);
          eneg = (take 1 signed = [45]);
          digits = (if eneg \<or> take 1 signed = [43] then drop 1 signed else signed);
          ex = takeWhile is_digit digits;
          t3 = (if ex = [] then t2 else drop (length ex) digits)
      in if whole = [] then None
         else if fracd = [] \<and> ex = [] then
           Some (JInt (if neg then - int (int_of_digits whole) else int (int_of_digits whole)), t1)
         else
           Some (JFloat (float_of_parts neg whole fracd
             (if eneg then - int (int_of_digits ex) else int (int_of_digits ex))), t3))"

definition number_value :: "(json \<times> pystr) \<Rightarrow> pystr \<Rightarrow> (json \<times> pystr) res" where
  "number_value vr s =
     (case vr of (v, r) \<Rightarrow>
        if is_exact_int v \<and> length s - length r > 4300 + (if take 1 s = [45] then 1 else 0)
        then Inl (ValueError ''Exceeds the limit for integer string conversion'' [])
        else Inr (v, r))"

subsection \<open>Documents\<close>

record json_hooks =
  pairs_hook :: "(pystr \<times> json) list \<Rightarrow> (pystr \<times> json) list res"
  constant_hook :: "pystr \<Rightarrow> json res"

definition literal :: "string \<Rightarrow> json res \<Rightarrow> pystr \<Rightarrow> (json \<times> pystr) res" where
  "literal w v s =
     (if startswith s (U w) then andThen v (\<lambda>v. Inr (v, drop (length w) s)) else json_error)"

text \<open>What does not open a string, an object or an array.\<close>

definition scan_scalar :: "json_hooks \<Rightarrow> pystr \<Rightarrow> (json \<times> pystr) res" where
  "scan_scalar h s =
     (if startswith s (U ''null'') then literal ''null'' (Inr JNull) s
      else if startswith s (U ''true'') then literal ''true'' (Inr (JBool True)) s
      else if startswith s (U ''false'') then literal ''false'' (Inr (JBool False)) s
      else if startswith s (U ''NaN'') then literal ''NaN'' (constant_hook h (U ''NaN'')) s
      else if startswith s (U ''Infinity'') then literal ''Infinity'' (constant_hook h (U ''Infinity'')) s
      else if startswith s (U ''-Infinity'')
        then literal ''-Infinity'' (constant_hook h (U ''-Infinity'')) s
      else (case scan_number s of None \<Rightarrow> json_error | Some vr \<Rightarrow> number_value vr s))"

definition out_of_fuel :: "'a res" where
  "out_of_fuel = Inl (OSError ''out of fuel'' [])"

function (sequential) scan_once :: "json_hooks \<Rightarrow> nat \<Rightarrow> pystr \<Rightarrow> (json \<times> pystr) res"
  and scan_members :: "json_hooks \<Rightarrow> nat \<Rightarrow> (pystr \<times> json) list \<Rightarrow> pystr \<Rightarrow> (json \<times> pystr) res"
  and scan_elements :: "json_hooks \<Rightarrow> nat \<Rightarrow> json list \<Rightarrow> pystr \<Rightarrow> (json \<times> pystr) res" where
  "scan_once h 0 s = out_of_fuel"
| "scan_once h (Suc n) s =
     (if take 1 s = [34] then
        andThen (scanstring [] (drop 1 s)) (\<lambda>(t, r). Inr (JStr t, r))
      else if take 1 s = [123] then
        (let r = skip_ws (drop 1 s) in
         if take 1 r = [125]
         then andThen (pairs_hook h []) (\<lambda>d. Inr (JObj d, drop 1 r))
         else scan_members h n [] r)
      else if take 1 s = [91] then
        (let r = skip_ws (drop 1 s) in
         if take 1 r = [93] then Inr (JArr [], drop 1 r) else scan_elements h n [] r)
      else scan_scalar h s)"
| "scan_members h 0 acc s = out_of_fuel"
| "scan_members h (Suc n) acc s =
     (if take 1 s \<noteq> [34] then json_error
      else andThen (scanstring [] (drop 1 s)) (\<lambda>(k, r).
        let r = skip_ws r in
        if take 1 r \<noteq> [58] then json_error
        else andThen (scan_once h n (skip_ws (drop 1 r))) (\<lambda>(v, r).
          let r = skip_ws r; acc = acc @ [(k, v)] in
          if take 1 r = [125] then andThen (pairs_hook h acc) (\<lambda>d. Inr (JObj d, drop 1 r))
          else if take 1 r = [44] then scan_members h n acc (skip_ws (drop 1 r))
          else json_error)))"
| "scan_elements h 0 acc s = out_of_fuel"
| "scan_elements h (Suc n) acc s =
     andThen (scan_once h n s) (\<lambda>(v, r).
       let r = skip_ws r; acc = acc @ [v] in
       if take 1 r = [93] then Inr (JArr acc, drop 1 r)
       else if take 1 r = [44] then scan_elements h n acc (skip_ws (drop 1 r))
       else json_error)"

  by pat_completeness auto
termination
  by (relation "measure (case_sum (\<lambda>(h, n, s). n) (case_sum (\<lambda>(h, n, acc, s). n) (\<lambda>(h, n, acc, s). n)))")
    auto

text \<open>\<open>JSONDecoder.decode\<close>: one value between white space, and nothing after it.\<close>

definition json_loads :: "json_hooks \<Rightarrow> pystr \<Rightarrow> json res" where
  "json_loads h s =
     (if take 1 s = [65279] then json_error
      else andThen (scan_once h (2 * length s + 2) (skip_ws s)) (\<lambda>(v, r).
        if skip_ws r = [] then Inr v else json_error))"

text \<open>The default hooks: a later duplicate wins, and the three constants are floats.\<close>

definition default_hooks :: json_hooks where
  "default_hooks =
     \<lparr>pairs_hook = (\<lambda>ps. Inr (foldl (\<lambda>d (k, v). dict_set d k v) [] ps)),
      constant_hook = (\<lambda>c. Inr (JFloat (if c = U ''NaN'' then NaN
         else if c = U ''Infinity'' then PosInf else NegInf)))\<rparr>"

subsection \<open>Encodings of a JSON byte string\<close>

text \<open>
  \<open>json.detect_encoding\<close>, and the decoders with the \<open>surrogatepass\<close> handler that
  \<open>json.loads\<close> applies to a \<open>bytes\<close> argument.
\<close>

datatype encoding = Utf8 | Utf8Sig | Utf16 | Utf16le | Utf16be | Utf32 | Utf32le | Utf32be

definition detect_encoding :: "bytes \<Rightarrow> encoding" where
  "detect_encoding b =
     (if startswith b [0, 0, 0xFE, 0xFF] \<or> startswith b [0xFF, 0xFE, 0, 0] then Utf32
      else if startswith b [0xFE, 0xFF] \<or> startswith b [0xFF, 0xFE] then Utf16
      else if startswith b [0xEF, 0xBB, 0xBF] then Utf8Sig
      else if length b \<ge> 4 then
        (if b ! 0 = 0 then (if b ! 1 \<noteq> 0 then Utf16be else Utf32be)
         else if b ! 1 = 0 then (if b ! 2 \<noteq> 0 \<or> b ! 3 \<noteq> 0 then Utf16le else Utf32le)
         else Utf8)
      else if length b = 2 then
        (if b ! 0 = 0 then Utf16be else if b ! 1 = 0 then Utf16le else Utf8)
      else Utf8)"

definition utf8_width :: "nat \<Rightarrow> nat" where
  "utf8_width a = (if a < 128 then 1 else if a < 224 then 2 else if a < 240 then 3 else 4)"

definition is_surrogate_seq :: "nat list \<Rightarrow> bool" where
  "is_surrogate_seq s \<longleftrightarrow> length s \<ge> 3 \<and> s ! 0 = 237 \<and> 160 \<le> s ! 1 \<and> is_cont (s ! 1) \<and> is_cont (s ! 2)"

function utf8_pass :: "nat list \<Rightarrow> pystr option" where
  "utf8_pass s =
     (if s = [] then Some []
      else if is_surrogate_seq s
        then map_option (Cons (53248 + (s ! 1 - 128) * 64 + (s ! 2 - 128))) (utf8_pass (drop 3 s))
      else (case utf8_points (take (utf8_width (hd s)) s) of
          None \<Rightarrow> None
        | Some p \<Rightarrow> map_option (append p) (utf8_pass (drop (utf8_width (hd s)) s))))"
  by pat_completeness auto
termination
  by (relation "measure length") (auto simp: utf8_width_def)

declare utf8_pass.simps [simp del]

fun utf16_units :: "bool \<Rightarrow> nat list \<Rightarrow> nat list option" where
  "utf16_units be [] = Some []"
| "utf16_units be [a] = None"
| "utf16_units be (a # b # r) =
     map_option (Cons (if be then a * 256 + b else b * 256 + a)) (utf16_units be r)"

fun utf16_join :: "nat list \<Rightarrow> pystr" where
  "utf16_join (n # m # r) =
     (if 55296 \<le> n \<and> n < 56320 \<and> 56320 \<le> m \<and> m < 57344
      then (65536 + (n - 55296) * 1024 + (m - 56320)) # utf16_join r
      else n # utf16_join (m # r))"
| "utf16_join s = s"

fun utf32_points :: "bool \<Rightarrow> nat list \<Rightarrow> pystr option" where
  "utf32_points be [] = Some []"
| "utf32_points be (a # b # c # d # r) =
     (let p = (if be then ((a * 256 + b) * 256 + c) * 256 + d
               else ((d * 256 + c) * 256 + b) * 256 + a)
      in if p < 1114112 then map_option (Cons p) (utf32_points be r) else None)"
| "utf32_points be _ = None"

definition decode_json_bytes :: "bytes \<Rightarrow> pystr res" where
  "decode_json_bytes b =
     (let n = map unat b;
          s = (case detect_encoding b of
                 Utf8 \<Rightarrow> utf8_pass n
               | Utf8Sig \<Rightarrow> utf8_pass (drop 3 n)
               | Utf16 \<Rightarrow> map_option utf16_join (utf16_units (startswith b [0xFE, 0xFF]) (drop 2 n))
               | Utf16le \<Rightarrow> map_option utf16_join (utf16_units False n)
               | Utf16be \<Rightarrow> map_option utf16_join (utf16_units True n)
               | Utf32 \<Rightarrow> utf32_points (startswith b [0, 0]) (drop 4 n)
               | Utf32le \<Rightarrow> utf32_points False n
               | Utf32be \<Rightarrow> utf32_points True n)
      in case s of None \<Rightarrow> Inl UnicodeDecodeError | Some t \<Rightarrow> Inr t)"

text \<open>\<open>json.loads\<close> of a \<open>bytes\<close> object; a BOM that survives decoding is white space to no one.\<close>

definition json_loads_bytes :: "json_hooks \<Rightarrow> bytes \<Rightarrow> json res" where
  "json_loads_bytes h b =
     andThen (decode_json_bytes b) (\<lambda>s.
       andThen (scan_once h (2 * length s + 2) (skip_ws s)) (\<lambda>(v, r).
         if skip_ws r = [] then Inr v else json_error))"

end
