(* ===== verification/JsonFacts.thy ===== *)
theory JsonFacts
  imports Json
begin

section \<open>The JSON decoder ends\<close>

text \<open>
  The recursive descent always consumes input, the fuel does not influence its result once
  there is enough of it, and \<open>json_loads\<close> supplies enough.
\<close>


lemma length_skip_ws: "length (skip_ws s) \<le> length s"
  by (simp add: skip_ws_def length_dropWhile_le)

lemma scanstring_Nil: "scanstring acc [] = json_error"
  by (subst scanstring.simps) simp

lemmas scanstring_Cons = scanstring.simps [where s = "c # r" for c r, unfolded list.case]

lemma scanstring_length: "scanstring acc s = Inr (t, r) \<Longrightarrow> length r < length s"
proof (induction "length s" arbitrary: acc s rule: less_induct)
  case less
  show ?case
  proof (cases s)
    case Nil
    with less.prems show ?thesis by (simp add: scanstring_Nil json_error_def)
  next
    case (Cons c q)
    then have "r = q \<or> (\<exists>acc' q'. length q' < length s \<and> scanstring acc' q' = Inr (t, r))"
      using less.prems
      by (fastforce simp: scanstring_Cons json_error_def
          split: if_splits option.splits prod.splits list.splits dest!: unicode_escape_length)
    then show ?thesis using less.hyps Cons by force
  qed
qed

lemma scan_number_length: "scan_number s = Some (v, r) \<Longrightarrow> length r < length s"
proof -
  assume r: "scan_number s = Some (v, r)"
  have le: "length (takeWhile is_digit u) \<le> length u" for u
    by (rule length_takeWhile_le)
  define t where "t = (if take 1 s = [45] then drop 1 s else s)"
  define whole where "whole = (if take 1 t = [48] then [48] else takeWhile is_digit t)"
  have "length whole \<le> length t" using le [of t] unfolding whole_def by (cases t) auto
  moreover have "length t \<le> length s" by (simp add: t_def)
  moreover have "whole \<noteq> [] \<and> length r \<le> length (drop (length whole) t)"
    using r unfolding scan_number_def Let_def t_def [symmetric] whole_def [symmetric]
    by (auto split: if_splits)
  ultimately show ?thesis by (cases whole) auto
qed


lemma scan_scalar_length: "scan_scalar h s = Inr (v, r) \<Longrightarrow> length r < length s"
proof -
  assume r: "scan_scalar h s = Inr (v, r)"
  have lit: "length r < length s" if "literal w x s = Inr (v, r)" "w \<noteq> []" for w x
    using that by (auto simp: literal_def json_error_def startswith_iff res_simps split: if_splits)
  have "length r < length s" if "number_value vr s = Inr (v, r)" "scan_number s = Some vr" for vr
    using that scan_number_length by (auto simp: number_value_def split: if_splits prod.splits)
  then show ?thesis using r lit
    by (auto simp: scan_scalar_def json_error_def split: if_splits option.splits)
qed

lemma length_drop1_skip: "take 1 r = [c] \<Longrightarrow> length (skip_ws (drop 1 r)) < length r"
  using length_skip_ws [of "drop 1 r"] by (cases r) auto


lemma skip_ws_less: "length r < n \<Longrightarrow> length (skip_ws r) < n"
  using length_skip_ws [of r] by simp

lemma scan_length:
  "scan_once h n s = Inr (v, r) \<Longrightarrow> length r < length s"
  "scan_members h n ps s = Inr (v, r) \<Longrightarrow> length r < length s"
  "scan_elements h n vs s = Inr (v, r) \<Longrightarrow> length r < length s"
proof (induction n arbitrary: s v r ps vs)
  case (Suc n)
  have drop1: "length (drop 1 q) \<le> length q" for q :: pystr by simp
  { case 1
    have sk: "length (skip_ws (drop 1 s)) < length s" if "take 1 s = [c]" for c
      by (rule length_drop1_skip [OF that])
    from 1 sk show ?case
      by (auto simp: Let_def res_simps split: if_splits prod.splits
          dest!: Suc.IH(2) Suc.IH(3) scan_scalar_length scanstring_length)
  next
    case 2
    then obtain k q v' q' where k: "scanstring [] (drop 1 s) = Inr (k, q)"
      and c: "take 1 (skip_ws q) = [58]"
      and v': "scan_once h n (skip_ws (drop 1 (skip_ws q))) = Inr (v', q')"
      and e: "r = drop 1 (skip_ws q') \<or>
         take 1 (skip_ws q') = [44] \<and>
         scan_members h n (ps @ [(k, v')]) (skip_ws (drop 1 (skip_ws q'))) = Inr (v, r)"
      by (auto simp: Let_def res_simps json_error_def split: if_splits prod.splits)
    note scanstring_length [OF k] length_drop1_skip [OF c] length_skip_ws [of q]
      Suc.IH(1) [OF v'] length_skip_ws [of q']
    moreover have "length r \<le> length (skip_ws q')"
      using e length_drop1_skip [of "skip_ws q'" 44] by (auto dest!: Suc.IH(2))
    ultimately show ?case by simp
  next
    case 3
    then obtain v' q' where v': "scan_once h n s = Inr (v', q')"
      and e: "r = drop 1 (skip_ws q') \<or>
         take 1 (skip_ws q') = [44] \<and>
         scan_elements h n (vs @ [v']) (skip_ws (drop 1 (skip_ws q'))) = Inr (v, r)"
      by (auto simp: Let_def res_simps json_error_def split: if_splits prod.splits)
    have "length r \<le> length (skip_ws q')"
      using e length_drop1_skip [of "skip_ws q'" 44] by (auto dest!: Suc.IH(3))
    then show ?case using Suc.IH(1) [OF v'] length_skip_ws [of q'] by simp
  }
qed (simp_all add: out_of_fuel_def)

lemma scan_fuel:
  "2 * length s + 1 \<le> n \<Longrightarrow> 2 * length s + 1 \<le> m \<Longrightarrow> scan_once h n s = scan_once h m s"
  "2 * length s + 2 \<le> n \<Longrightarrow> 2 * length s + 2 \<le> m \<Longrightarrow> scan_members h n ps s = scan_members h m ps s"
  "2 * length s + 2 \<le> n \<Longrightarrow> 2 * length s + 2 \<le> m \<Longrightarrow> scan_elements h n vs s = scan_elements h m vs s"
proof (induction n arbitrary: s m ps vs)
  case (Suc n)
  { case 1
    then obtain m' where m: "m = Suc m'" by (cases m) auto
    have "scan_members h n [] (skip_ws (drop 1 s)) = scan_members h m' [] (skip_ws (drop 1 s))"
      "scan_elements h n [] (skip_ws (drop 1 s)) = scan_elements h m' [] (skip_ws (drop 1 s))"
      if "take 1 s = [c]" for c
      using 1 m length_drop1_skip [OF that] by (auto intro!: Suc.IH)
    then show ?case by (simp add: m Let_def)
  next
    case 2
    then obtain m' where m: "m = Suc m'" by (cases m) auto
    have "scan_once h n (skip_ws (drop 1 (skip_ws q))) = scan_once h m' (skip_ws (drop 1 (skip_ws q)))"
      if "scanstring [] (drop 1 s) = Inr (k, q)" "take 1 (skip_ws q) = [58]" for k q
      using 2 m scanstring_length [OF that(1)] length_drop1_skip [OF that(2)] length_skip_ws [of q]
      by (intro Suc.IH) auto
    moreover have "scan_members h n ps' (skip_ws (drop 1 (skip_ws q'))) =
        scan_members h m' ps' (skip_ws (drop 1 (skip_ws q')))"
      if "scanstring [] (drop 1 s) = Inr (k, q)" "take 1 (skip_ws q) = [58]"
        "scan_once h m' (skip_ws (drop 1 (skip_ws q))) = Inr (v, q')" "take 1 (skip_ws q') = [44]"
      for k q v q' ps'
      using 2 m scanstring_length [OF that(1)] length_drop1_skip [OF that(2)] length_skip_ws [of q]
        scan_length(1) [OF that(3)] length_drop1_skip [OF that(4)] length_skip_ws [of q']
      by (intro Suc.IH) auto
    ultimately show ?case
      by (auto simp: m Let_def intro!: andThen_cong)
  next
    case 3
    then obtain m' where m: "m = Suc m'" by (cases m) auto
    have "scan_once h n s = scan_once h m' s"
      using 3 m by (intro Suc.IH) auto
    moreover have "scan_elements h n vs' (skip_ws (drop 1 (skip_ws q))) =
        scan_elements h m' vs' (skip_ws (drop 1 (skip_ws q)))"
      if "scan_once h m' s = Inr (v, q)" "take 1 (skip_ws q) = [44]" for v q vs'
      using 3 m scan_length(1) [OF that(1)] length_drop1_skip [OF that(2)] length_skip_ws [of q]
      by (intro Suc.IH) auto
    ultimately show ?case
      by (auto simp: m Let_def intro!: andThen_cong)
  }
qed simp_all

text \<open>Hooks raise errors of their own, never the one that stands for missing fuel.\<close>

definition hooks_ok :: "json_hooks \<Rightarrow> bool" where
  "hooks_ok h \<longleftrightarrow> (\<forall>ps. pairs_hook h ps \<noteq> out_of_fuel) \<and> (\<forall>c. constant_hook h c \<noteq> out_of_fuel)"

lemma andThen_fuel: "andThen m f = out_of_fuel \<longleftrightarrow> m = out_of_fuel \<or> (\<exists>x. m = Inr x \<and> f x = out_of_fuel)"
  by (cases m) (auto simp: out_of_fuel_def)

lemma fuel_neq [simp]:
  "json_error \<noteq> out_of_fuel" "Inr x \<noteq> out_of_fuel"
  by (auto simp: out_of_fuel_def json_error_def)

lemma scanstring_fuel: "scanstring acc s \<noteq> out_of_fuel"
proof (induction acc s rule: scanstring.induct)
  case (1 acc s)
  then show ?case
    by (subst scanstring.simps) (auto split: list.splits option.splits prod.splits)
qed

lemma scan_scalar_fuel: "hooks_ok h \<Longrightarrow> scan_scalar h s \<noteq> out_of_fuel"
  by (auto simp: scan_scalar_def literal_def number_value_def andThen_fuel hooks_ok_def
      split: option.splits prod.splits) (auto simp: out_of_fuel_def)

lemma scan_enough:
  assumes h: "hooks_ok h"
  shows "2 * length s + 1 \<le> n \<Longrightarrow> scan_once h n s \<noteq> out_of_fuel"
    and "2 * length s + 2 \<le> n \<Longrightarrow> scan_members h n ps s \<noteq> out_of_fuel"
    and "2 * length s + 2 \<le> n \<Longrightarrow> scan_elements h n vs s \<noteq> out_of_fuel"
proof (induction n arbitrary: s ps vs)
  case (Suc n)
  have hook: "pairs_hook h ps \<noteq> out_of_fuel" for ps using h by (simp add: hooks_ok_def)
  { case 1
    have "scan_members h n [] (skip_ws (drop 1 s)) \<noteq> out_of_fuel"
      "scan_elements h n [] (skip_ws (drop 1 s)) \<noteq> out_of_fuel"
      if "take 1 s = [c]" for c
      using 1 length_drop1_skip [OF that] by (auto intro!: Suc.IH)
    then show ?case
      using scan_scalar_fuel [OF h] hook scanstring_fuel
      by (auto simp: Let_def andThen_fuel split: prod.splits)
  next
    case 2
    have "scan_once h n (skip_ws (drop 1 (skip_ws q))) \<noteq> out_of_fuel"
      if "scanstring [] (drop 1 s) = Inr (k, q)" "take 1 (skip_ws q) = [58]" for k q
      using 2 scanstring_length [OF that(1)] length_drop1_skip [OF that(2)] length_skip_ws [of q]
      by (intro Suc.IH) auto
    moreover have "scan_members h n ps' (skip_ws (drop 1 (skip_ws q'))) \<noteq> out_of_fuel"
      if "scanstring [] (drop 1 s) = Inr (k, q)" "take 1 (skip_ws q) = [58]"
        "scan_once h n (skip_ws (drop 1 (skip_ws q))) = Inr (v, q')" "take 1 (skip_ws q') = [44]"
      for k q v q' ps'
      using 2 scanstring_length [OF that(1)] length_drop1_skip [OF that(2)] length_skip_ws [of q]
        scan_length(1) [OF that(3)] length_drop1_skip [OF that(4)] length_skip_ws [of q']
      by (intro Suc.IH) auto
    ultimately show ?case
      using hook scanstring_fuel by (auto simp: Let_def andThen_fuel split: prod.splits if_splits)
  next
    case 3
    have "scan_once h n s \<noteq> out_of_fuel"
      using 3 by (intro Suc.IH) auto
    moreover have "scan_elements h n vs' (skip_ws (drop 1 (skip_ws q))) \<noteq> out_of_fuel"
      if "scan_once h n s = Inr (v, q)" "take 1 (skip_ws q) = [44]" for v q vs'
      using 3 scan_length(1) [OF that(1)] length_drop1_skip [OF that(2)] length_skip_ws [of q]
      by (intro Suc.IH) auto
    ultimately show ?case
      by (auto simp: Let_def andThen_fuel split: prod.splits if_splits)
  }
qed simp_all

lemma json_loads_fuel: "hooks_ok h \<Longrightarrow> json_loads h s \<noteq> out_of_fuel"
  using scan_enough(1) [of h "skip_ws s" "2 * length s + 2"] length_skip_ws [of s]
  by (auto simp: json_loads_def andThen_fuel split: prod.splits if_splits)

subsection \<open>What holds of every value of a parsed document\<close>

fun json_all :: "(json \<Rightarrow> bool) \<Rightarrow> json \<Rightarrow> bool" where
  "json_all P (JArr xs) = (P (JArr xs) \<and> list_all (json_all P) xs)"
| "json_all P (JObj d) = (P (JObj d) \<and> list_all (\<lambda>kv. json_all P (snd kv)) d)"
| "json_all P v = P v"

lemma float_of_parts_not_NaN: "float_of_parts neg w f e \<noteq> NaN"
  by (simp add: float_of_parts_def Let_def split: pyfloat.split)

lemma scan_number_shape: "scan_number s = Some (v, r) \<Longrightarrow> (\<exists>i. v = JInt i) \<or> (\<exists>f. v = JFloat f \<and> f \<noteq> NaN)"
proof -
  have shape: "v = JInt i \<or> v = JFloat f"
    if "(if a then None else if b then Some (JInt i, t) else Some (JFloat f, t')) = Some (v, r)"
    for a b i f t t'
    using that by (simp split: if_splits)
  assume "scan_number s = Some (v, r)"
  from shape [OF this [unfolded scan_number_def Let_def]] show ?thesis
    using float_of_parts_not_NaN by blast
qed

lemma scan_scalar_all:
  assumes "scan_scalar h s = Inr (v, r)"
    and hc: "\<And>c v. constant_hook h c = Inr v \<Longrightarrow> json_all P v"
    and other: "\<And>v. \<not> is_obj v \<Longrightarrow> v \<noteq> JFloat NaN \<Longrightarrow> P v"
  shows "json_all P v"
proof -
  consider w m where "literal w m s = Inr (v, r)" "m \<in> {Inr JNull, Inr (JBool True), Inr (JBool False)}"
    | w c where "literal w (constant_hook h c) s = Inr (v, r)"
    | vr where "number_value vr s = Inr (v, r)" "scan_number s = Some vr"
    using assms(1) unfolding scan_scalar_def json_error_def
    by (auto split: if_splits option.splits)
  then show ?thesis
  proof cases
    case 1
    then show ?thesis using other by (auto simp: literal_def json_error_def res_simps split: if_splits)
  next
    case 2
    then show ?thesis using hc by (auto simp: literal_def json_error_def res_simps split: if_splits)
  next
    case 3
    then have "scan_number s = Some (v, r)"
      by (auto simp: number_value_def split: prod.splits if_splits)
    then show ?thesis using scan_number_shape other by fastforce
  qed
qed

lemma scan_all:
  assumes hc: "\<And>c v. constant_hook h c = Inr v \<Longrightarrow> json_all P v"
    and hp: "\<And>ps d. pairs_hook h ps = Inr d \<Longrightarrow> list_all (\<lambda>kv. json_all P (snd kv)) ps \<Longrightarrow> json_all P (JObj d)"
    and other: "\<And>v. \<not> is_obj v \<Longrightarrow> v \<noteq> JFloat NaN \<Longrightarrow> P v"
  shows "scan_once h n s = Inr (v, r) \<Longrightarrow> json_all P v"
    and "scan_members h n ps s = Inr (v, r) \<Longrightarrow> list_all (\<lambda>kv. json_all P (snd kv)) ps \<Longrightarrow> json_all P v"
    and "scan_elements h n vs s = Inr (v, r) \<Longrightarrow> list_all (json_all P) vs \<Longrightarrow> json_all P v"
proof (induction n arbitrary: s v r ps vs)
  case (Suc n)
  { case 1
    then show ?case using hp [of "[]"] scan_scalar_all [OF _ hc other] Suc.IH(2,3) other
      by (auto simp: Let_def res_simps split: if_splits prod.splits)
  next
    case 2
    from 2(1) obtain k q v' q' where "scan_once h n (skip_ws (drop 1 (skip_ws q))) = Inr (v', q')"
      and e: "(\<exists>d. pairs_hook h (ps @ [(k, v')]) = Inr d \<and> v = JObj d) \<or>
         scan_members h n (ps @ [(k, v')]) (skip_ws (drop 1 (skip_ws q'))) = Inr (v, r)"
      by (fastforce simp: Let_def res_simps json_error_def split: if_splits prod.splits)
    then have "list_all (\<lambda>kv. json_all P (snd kv)) (ps @ [(k, v')])"
      using Suc.IH(1) 2(2) by auto
    with e show ?case using hp Suc.IH(2) by blast
  next
    case 3
    from 3(1) obtain v' q' where "scan_once h n s = Inr (v', q')"
      and e: "v = JArr (vs @ [v']) \<or>
         scan_elements h n (vs @ [v']) (skip_ws (drop 1 (skip_ws q'))) = Inr (v, r)"
      by (auto simp: Let_def res_simps json_error_def split: if_splits prod.splits)
    then have "list_all (json_all P) (vs @ [v'])"
      using Suc.IH(1) 3(2) by auto
    with e show ?case using other Suc.IH(3) by auto
  }
qed (simp_all add: out_of_fuel_def)
subsection \<open>The errors of the decoder\<close>

text \<open>With hooks that raise only \<open>ValueError\<close>, decoding raises nothing else.\<close>

definition value_error :: "exc \<Rightarrow> bool" where
  "value_error e \<longleftrightarrow> (\<exists>m a. e = ValueError m a)"

lemma json_error_eq: "json_error = Inl e \<longleftrightarrow> e = ValueError ''JSONDecodeError'' []"
  by (auto simp: json_error_def)

lemma value_error_json [simp]: "value_error (ValueError m a)"
  by (auto simp: value_error_def)

lemma scanstring_error: "scanstring acc s = Inl e \<Longrightarrow> value_error e"
proof (induction "length s" arbitrary: acc s rule: less_induct)
  case less
  show ?case
  proof (cases s)
    case Nil
    with less.prems show ?thesis by (simp add: scanstring_Nil json_error_eq)
  next
    case (Cons c q)
    then have "value_error e \<or> (\<exists>acc' q'. length q' < length s \<and> scanstring acc' q' = Inl e)"
      using less.prems
      by (fastforce simp: scanstring_Cons json_error_eq
          split: if_splits option.splits prod.splits list.splits dest!: unicode_escape_length)
    then show ?thesis using less.hyps by blast
  qed
qed

definition hooks_raise_value_errors :: "json_hooks \<Rightarrow> bool" where
  "hooks_raise_value_errors h \<longleftrightarrow>
     (\<forall>ps e. pairs_hook h ps = Inl e \<longrightarrow> value_error e) \<and>
     (\<forall>c e. constant_hook h c = Inl e \<longrightarrow> value_error e)"

lemma scan_scalar_error:
  "hooks_raise_value_errors h \<Longrightarrow> scan_scalar h s = Inl e \<Longrightarrow> value_error e"
  by (auto simp: scan_scalar_def literal_def number_value_def hooks_raise_value_errors_def res_simps
      json_error_eq split: if_splits option.splits prod.splits)

lemma scan_error:
  assumes h: "hooks_raise_value_errors h"
  shows "scan_once h n s = Inl e \<Longrightarrow> value_error e \<or> Inl e = (out_of_fuel :: unit res)"
    and "scan_members h n ps s = Inl e \<Longrightarrow> value_error e \<or> Inl e = (out_of_fuel :: unit res)"
    and "scan_elements h n vs s = Inl e \<Longrightarrow> value_error e \<or> Inl e = (out_of_fuel :: unit res)"
proof (induction n arbitrary: s ps vs)
  case (Suc n)
  have hp: "pairs_hook h ps = Inl e \<Longrightarrow> value_error e" for ps
    using h by (simp add: hooks_raise_value_errors_def)
  { case 1
    then show ?case using hp scan_scalar_error [OF h] Suc.IH(2,3) scanstring_error
      by (auto simp: Let_def res_simps split: if_splits prod.splits)
  next
    case 2
    then show ?case using hp Suc.IH(1,2) scanstring_error
      by (fastforce simp: Let_def res_simps json_error_eq split: if_splits prod.splits)
  next
    case 3
    then show ?case using Suc.IH(1,3)
      by (fastforce simp: Let_def res_simps json_error_eq split: if_splits prod.splits)
  }
qed (simp_all add: out_of_fuel_def)

lemma hooks_raise_ok: "hooks_raise_value_errors h \<Longrightarrow> hooks_ok h"
  by (fastforce simp: hooks_raise_value_errors_def hooks_ok_def out_of_fuel_def value_error_def)

lemma decode_json_error: "decode_json_bytes b = Inl e \<Longrightarrow> e = UnicodeDecodeError"
  by (simp add: decode_json_bytes_def Let_def split: option.splits)

lemma json_loads_bytes_error:
  assumes "hooks_raise_value_errors h" and "json_loads_bytes h b = Inl e"
  shows "value_error e \<or> e = UnicodeDecodeError"
proof -
  from assms(2) consider "e = UnicodeDecodeError"
    | s where "scan_once h (2 * length s + 2) (skip_ws s) = Inl e" | "value_error e"
    by (auto simp: json_loads_bytes_def res_simps json_error_eq simp del: scan_once.simps
        split: prod.splits if_splits dest: decode_json_error)
  then show ?thesis
  proof cases
    case 2
    moreover have "scan_once h (2 * length s + 2) (skip_ws s) \<noteq> out_of_fuel"
      using length_skip_ws [of s] by (intro scan_enough(1) hooks_raise_ok assms(1)) simp
    ultimately show ?thesis using scan_error(1) [OF assms(1) 2] by (auto simp: out_of_fuel_def)
  qed auto
qed

end
