(* ===== verification/JsonDump.thy ===== *)
theory JsonDump
  imports JsonFacts
begin

section \<open>Printing JSON\<close>

text \<open>
  \<open>json.dumps(value, indent=2, sort_keys=True)\<close>, which writes every manifest and evidence
  file and is the canonical form \<open>release_verify.py\<close> insists on, and the round trip through
  the decoder. Floats print as Python's shortest \<open>repr\<close>.
\<close>

subsection \<open>Scalars\<close>

definition str_int :: "int \<Rightarrow> pystr" where
  "str_int i = (if i < 0 then 45 # str_nat (nat (- i)) else str_nat (nat i))"

definition u_escape :: "nat \<Rightarrow> pystr" where
  "u_escape n = [92, 117] @ hex_word 4 n"

definition dump_char :: "nat \<Rightarrow> pystr" where
  "dump_char c =
     (if c = 34 then [92, 34] else if c = 92 then [92, 92] else if c = 10 then [92, 110]
      else if c = 13 then [92, 114] else if c = 9 then [92, 116] else if c = 12 then [92, 102]
      else if c = 8 then [92, 98] else if 32 \<le> c \<and> c \<le> 126 then [c]
      else if c < 65536 then u_escape c
      else u_escape (55296 + (c - 65536) div 1024) @ u_escape (56320 + (c - 65536) mod 1024))"

definition dump_str :: "pystr \<Rightarrow> pystr" where
  "dump_str s = 34 # concat (map dump_char s) @ [34]"

text \<open>
  \<open>float.__repr__\<close>: the fewest significant digits that read back as the same value, the
  nearest such decimal first, with an exponent below \<open>1e-4\<close> and from \<open>1e16\<close>.
\<close>

definition pow10 :: "int \<Rightarrow> rat" where
  "pow10 e = (if e \<ge> 0 then 10 ^ nat e else 1 / 10 ^ nat (- e))"

definition decimal_point :: "rat \<Rightarrow> int" where
  "decimal_point r =
     (let (n, d) = quotient_of r; e = int (floorlog 10 (nat n)) - int (floorlog 10 (nat d))
      in if r < pow10 (e - 1) then e - 1 else if r \<ge> pow10 e then e + 1 else e)"

definition short_candidates :: "rat \<Rightarrow> nat \<Rightarrow> nat list" where
  "short_candidates r n =
     (let x = r * pow10 (int n - decimal_point r); f = \<lfloor>x\<rfloor>; near = round_half_even x
      in [nat near, nat (if near = f then f + 1 else f)])"

definition float_digits :: "rat \<Rightarrow> pystr \<times> int" where
  "float_digits r =
     (let p = decimal_point r;
          ok = (\<lambda>(n, m). binary64 (of_nat m * pow10 (p - int n)) = Finite r);
          cs = filter ok (concat (map (\<lambda>n. map (\<lambda>m. (n, m)) (short_candidates r n)) [1..<18]))
      in case cs of
           [] \<Rightarrow> ([48], 1)
         | (n, m) # _ \<Rightarrow>
             let s = str_nat m in
             (rev (case dropWhile (\<lambda>c. c = 48) (rev s) of [] \<Rightarrow> [48] | t \<Rightarrow> t), p + int (length s) - int n))"

definition float_repr_pos :: "rat \<Rightarrow> pystr" where
  "float_repr_pos r =
     (if r = 0 then U ''0.0''
      else case float_digits r of (ds, p) \<Rightarrow>
        let n = int (length ds) in
        if -4 < p \<and> p \<le> 16 then
          (if p \<le> 0 then U ''0.'' @ replicate (nat (- p)) 48 @ ds
           else if p \<ge> n then ds @ replicate (nat (p - n)) 48 @ U ''.0''
           else take (nat p) ds @ [46] @ drop (nat p) ds)
        else take 1 ds @ (if n > 1 then [46] @ drop 1 ds else []) @ [101]
          @ (if p - 1 < 0 then [45] else [43])
          @ (let e = str_nat (nat \<bar>p - 1\<bar>) in if length e < 2 then 48 # e else e))"

definition float_repr :: "pyfloat \<Rightarrow> pystr" where
  "float_repr f = (case f of
       Finite r \<Rightarrow> if r < 0 then 45 # float_repr_pos (- r) else float_repr_pos r
     | NegZero \<Rightarrow> U ''-0.0'' | PosInf \<Rightarrow> U ''Infinity'' | NegInf \<Rightarrow> U ''-Infinity'' | NaN \<Rightarrow> U ''NaN'')"

subsection \<open>Documents\<close>

definition nl :: "nat \<Rightarrow> pystr" where
  "nl level = 10 # replicate (2 * level) 32"

fun dump :: "nat \<Rightarrow> json \<Rightarrow> pystr" where
  "dump l JNull = U ''null''"
| "dump l (JBool b) = (if b then U ''true'' else U ''false'')"
| "dump l (JInt i) = str_int i"
| "dump l (JFloat f) = float_repr f"
| "dump l (JStr s) = dump_str s"
| "dump l (JArr xs) = (if xs = [] then [91, 93]
     else 91 # nl (l + 1) @ join (44 # nl (l + 1)) (map (dump (l + 1)) xs) @ nl l @ [93])"
| "dump l (JObj d) = (if d = [] then [123, 125]
     else 123 # nl (l + 1) @
       join (44 # nl (l + 1)) (map (\<lambda>kv. dump_str (fst kv) @ [58, 32] @ dump (l + 1) (snd kv)) d)
       @ nl l @ [125])"

fun sort_json :: "json \<Rightarrow> json" where
  "sort_json (JArr xs) = JArr (map sort_json xs)"
| "sort_json (JObj d) = JObj (sort_key fst (map (\<lambda>kv. (fst kv, sort_json (snd kv))) d))"
| "sort_json v = v"

definition json_dumps :: "json \<Rightarrow> pystr" where
  "json_dumps v = dump 0 (sort_json v)"

text \<open>
  \<open>write_json\<close>: the content of the file it writes, as UTF-8; the printed document is ASCII.
\<close>

definition write_json :: "json \<Rightarrow> bytes" where
  "write_json v = ascii_encode (json_dumps v @ [10])"

end
