(* ===== verification/TsQuality.thy ===== *)
theory TsQuality
  imports JsonDump
begin

section \<open>The five-minute quality gate\<close>

text \<open>
  \<open>docs/release-validation/ts-quality-check.py\<close>: reads the reports that \<open>ts-check.py\<close> printed,
  one per receiver of a profile, and decides whether transport errors and continuity errors
  stay within the limits of the profile.

  Parameters: the content of a file, or how reading it fails, and \<open>Path.resolve\<close>, which depends
  on the file system.
\<close>

record quality_env =
  read_bytes :: "pystr \<Rightarrow> file_read"
  resolve_path :: "pystr \<Rightarrow> pystr"

subsection \<open>Profiles\<close>

record quality_profile =
  q_product :: pystr
  q_pattern :: pystr
  q_receivers :: "pystr list"
  q_tei_numerator :: int
  q_tei_denominator :: int
  q_tei_op :: string
  q_cc_limit :: int
  q_cc_op :: string

definition make_profile ::
  "string \<Rightarrow> string \<Rightarrow> string list \<Rightarrow> int \<times> int \<Rightarrow> string \<Rightarrow> int \<Rightarrow> string \<Rightarrow> quality_profile" where
  "make_profile product_name pat rs tei tei_op cc cc_op =
     \<lparr>q_product = U product_name, q_pattern = U pat, q_receivers = map U rs, q_tei_numerator = fst tei,
      q_tei_denominator = snd tei, q_tei_op = tei_op, q_cc_limit = cc, q_cc_op = cc_op\<rparr>"

definition PROFILES :: "(pystr, quality_profile) dict" where
  "PROFILES =
     [(U ''asicen-w3u3-rx0-3'', make_profile ''ASICEN'' ''PX-W3U3 receivers 0-3 simultaneous''
         [''0'', ''1'', ''2'', ''3''] (0, 1) ''zero'' 0 ''equal''),
      (U ''px4-rx0-5'', make_profile ''PX4'' ''PX-Q3U4 receivers 0-5 simultaneous''
         [''0'', ''1'', ''2'', ''3'', ''4'', ''5''] (0, 1) ''zero'' 0 ''equal''),
      (U ''px4-rx6'', make_profile ''PX4'' ''PX-Q3U4 receiver 6 single'' [''6''] (0, 1) ''zero'' 0 ''equal''),
      (U ''px4-rx7'', make_profile ''PX4'' ''PX-Q3U4 receiver 7 single'' [''7''] (1, 2) ''less'' 40 ''less''),
      (U ''pix-dt181'', make_profile ''PIX'' ''PIX-DT181-PU0'' [''0''] (0, 1) ''zero'' 12 ''less''),
      (U ''pix-dt295'', make_profile ''PIX'' ''PIX-DT295'' [''0''] (0, 1) ''zero'' 12 ''less''),
      (U ''siano-s1ud'', make_profile ''Siano'' ''PX-S1UD receiver 0'' [''0''] (1, 1000) ''less'' 10 ''less'')]"

subsection \<open>Reading a report\<close>

definition valid_count :: "json \<Rightarrow> bool" where
  "valid_count v \<longleftrightarrow> is_int_instance v \<and> \<not> is_bool v \<and> int_of v \<ge> 0"

text \<open>\<open>data.decode("utf-16")\<close> of data with a byte order mark: lone surrogates are refused.\<close>

definition utf16_decode :: "bytes \<Rightarrow> pystr res" where
  "utf16_decode b =
     (case utf16_units (startswith b [0xFE, 0xFF]) (drop 2 (map unat b)) of
        None \<Rightarrow> Inl UnicodeDecodeError
      | Some units \<Rightarrow>
          let s = utf16_join units in if list_all is_scalar s then Inr s else Inl UnicodeDecodeError)"

definition scan_text :: "bytes \<Rightarrow> pystr res" where
  "scan_text b =
     (if startswith b [0xFF, 0xFE] then utf16_decode b
      else if startswith b [0xFE, 0xFF] then utf16_decode b
      else if startswith b [0xEF, 0xBB, 0xBF] then utf8_decode (drop 3 b)
      else utf8_decode b)"

text \<open>
  The result is the report or the text of the error that goes into the result; an exception
  that the script does not catch leaves it.
\<close>

type_synonym scan_report = "(pystr, json) dict"

fun first_invalid :: "scan_report \<Rightarrow> string list \<Rightarrow> string option" where
  "first_invalid rep [] = None"
| "first_invalid rep (key # ks) = (if \<not> valid_count (jget rep (U key)) then Some key else first_invalid rep ks)"

definition check_scan :: "json \<Rightarrow> pystr + scan_report" where
  "check_scan scan =
     (if \<not> is_obj scan then Inl (U ''scan JSON must be an object'')
      else
      let rep = obj_items scan in
      (case first_invalid rep [''packets'', ''tei'', ''continuity_errors''] of
         Some key \<Rightarrow> Inl (U key @ U '' must be a nonnegative integer'')
       | None \<Rightarrow>
           if int_of (jget rep (U ''packets'')) = 0 then Inl (U ''packet count is zero'')
           else if int_of (jget rep (U ''tei'')) > int_of (jget rep (U ''packets''))
           then Inl (U ''TEI count exceeds packet count'')
           else Inr rep))"

definition load_scan :: "quality_env \<Rightarrow> pystr \<Rightarrow> (pystr + scan_report) res" where
  "load_scan env path =
     (case read_bytes env path of
        Missing \<Rightarrow> Inr (Inl (U ''missing scan JSON''))
      | Unreadable \<Rightarrow> Inr (Inl (U ''unreadable scan JSON''))
      | Content data \<Rightarrow>
          (case andThen (scan_text data) (json_loads default_hooks) of
             Inl UnicodeDecodeError \<Rightarrow> Inr (Inl (U ''unreadable scan JSON''))
           | Inl (ValueError m a) \<Rightarrow>
               if m = ''JSONDecodeError'' then Inr (Inl (U ''unreadable scan JSON'')) else Inl (ValueError m a)
           | Inl e \<Rightarrow> Inl e
           | Inr scan \<Rightarrow> Inr (check_scan scan)))"

subsection \<open>Decimal division\<close>

text \<open>
  \<open>str(Decimal(a) / Decimal(b))\<close> with 24 digits of precision, for \<open>a >= 0\<close> and \<open>b > 0\<close>: the
  quotient has one or two digits more than the precision, an inexact one never ends in 0 or 5,
  and is then rounded half to even; an exact one drops its trailing zeros down to exponent 0.
\<close>

function strip_zeros :: "nat \<Rightarrow> int \<Rightarrow> nat \<times> int" where
  "strip_zeros coeff e = (if e < 0 \<and> coeff mod 10 = 0 then strip_zeros (coeff div 10) (e + 1) else (coeff, e))"
  by auto

termination strip_zeros
  by (relation "measure (\<lambda>(coeff, e). nat (- e))") auto

declare strip_zeros.simps [simp del]

definition decimal_round :: "nat \<Rightarrow> nat \<times> int \<Rightarrow> nat \<times> int" where
  "decimal_round prec ce = (case ce of (coeff, e) \<Rightarrow>
     let n = length (str_nat coeff) in
     if n \<le> prec then (coeff, e)
     else
       let unit = 10 ^ (n - prec); q = coeff div unit; r = coeff mod unit;
           q' = (if 2 * r > unit \<or> 2 * r = unit \<and> odd q then q + 1 else q)
       in if q' = 10 ^ prec then (q' div 10, e + int (n - prec) + 1) else (q', e + int (n - prec)))"

definition decimal_div :: "nat \<Rightarrow> nat \<Rightarrow> nat \<Rightarrow> nat \<times> int" where
  "decimal_div prec a b =
     (if a = 0 then (0, 0)
      else
      let shift = int (length (str_nat b)) - int (length (str_nat a)) + int prec + 1;
          n = (if shift \<ge> 0 then a * 10 ^ nat shift else a);
          d = (if shift \<ge> 0 then b else b * 10 ^ nat (- shift));
          coeff = n div d
      in decimal_round prec
           (if n mod d \<noteq> 0 then (if coeff mod 5 = 0 then coeff + 1 else coeff, - shift)
            else strip_zeros coeff (- shift)))"

definition decimal_str :: "nat \<times> int \<Rightarrow> pystr" where
  "decimal_str ce = (case ce of (coeff, e) \<Rightarrow>
     let ds = str_nat coeff; leftdigits = e + int (length ds);
         dotplace = (if e \<le> 0 \<and> leftdigits > -6 then leftdigits else 1);
         body = (if dotplace \<le> 0 then U ''0.'' @ replicate (nat (- dotplace)) 48 @ ds
                 else if dotplace \<ge> int (length ds) then ds @ replicate (nat (dotplace - int (length ds))) 48
                 else take (nat dotplace) ds @ [46] @ drop (nat dotplace) ds);
         x = leftdigits - dotplace
     in body @ (if x = 0 then [] else [69] @ (if x < 0 then [45] else [43]) @ str_nat (nat \<bar>x\<bar>)))"

subsection \<open>Evaluating a report\<close>

record scan_eval =
  se_input :: pystr
  se_receiver :: pystr
  se_scan_file :: json
  se_packets :: int
  se_tei :: int
  se_tei_rate :: pystr
  se_tei_rule :: pystr
  se_tei_pass :: bool
  se_cc :: int
  se_cc_rule :: pystr
  se_cc_pass :: bool

datatype quality_result =
    Failed pystr pystr pystr
  | DuplicateFile pystr pystr pystr
  | Evaluated scan_eval

definition tei_within :: "quality_profile \<Rightarrow> int \<Rightarrow> int \<Rightarrow> bool" where
  "tei_within profile tei packets =
     (if q_tei_op profile = ''zero'' then tei = 0
      else tei * 100 * q_tei_denominator profile < packets * q_tei_numerator profile)"

definition cc_within :: "quality_profile \<Rightarrow> int \<Rightarrow> bool" where
  "cc_within profile cc = (if q_cc_op profile = ''equal'' then cc = q_cc_limit profile else cc < q_cc_limit profile)"

definition evaluate_scan :: "pystr \<Rightarrow> pystr \<Rightarrow> scan_report \<Rightarrow> quality_profile \<Rightarrow> scan_eval" where
  "evaluate_scan path receiver rep profile =
     (let packets = int_of (jget rep (U ''packets'')); tei = int_of (jget rep (U ''tei''));
          cc = int_of (jget rep (U ''continuity_errors''))
      in \<lparr>se_input = path, se_receiver = receiver, se_scan_file = jget rep (U ''file''), se_packets = packets,
          se_tei = tei, se_tei_rate = decimal_str (decimal_div 24 (nat (tei * 100)) (nat packets)),
          se_tei_rule = (if q_tei_op profile = ''zero'' then U ''TEI == 0''
            else U ''TEI * 100 * '' @ str_int (q_tei_denominator profile) @ U '' < packets * '' @ str_int (q_tei_numerator profile)),
          se_tei_pass = tei_within profile tei packets, se_cc = cc,
          se_cc_rule = (if q_cc_op profile = ''equal'' then U ''CC == '' else U ''CC < '') @ str_int (q_cc_limit profile),
          se_cc_pass = cc_within profile cc\<rparr>)"

fun result_pass :: "quality_result \<Rightarrow> bool" where
  "result_pass (Evaluated e) \<longleftrightarrow> se_tei_pass e \<and> se_cc_pass e"
| "result_pass _ \<longleftrightarrow> False"

subsection \<open>The gate\<close>

text \<open>\<open>str(Path(s))\<close>\<close>

definition path_str :: "pystr \<Rightarrow> pystr" where
  "path_str s = (case posix_parts s of
       [] \<Rightarrow> [46]
     | p # ps \<Rightarrow> if startswith p [47] then p @ join [47] ps else join [47] (p # ps))"

definition parse_input :: "quality_profile \<Rightarrow> pystr \<Rightarrow> (pystr \<times> pystr) \<times> pystr list" where
  "parse_input profile v =
     (if 61 \<in> set v then (let (receiver, path) = split1 61 v in ((receiver, path_str path), []))
      else case q_receivers profile of
          [receiver] \<Rightarrow> ((receiver, path_str v), [])
        | _ \<Rightarrow> (([], path_str v), [U ''receiver label required for '' @ v]))"

record input_state =
  seen_receivers :: "pystr set"
  seen_paths :: "pystr set"
  input_errors :: "pystr list"

definition note_input :: "quality_env \<Rightarrow> quality_profile \<Rightarrow> input_state \<Rightarrow> pystr \<times> pystr \<Rightarrow> input_state" where
  "note_input env profile s inp = (case inp of (receiver, path) \<Rightarrow>
     let resolved = resolve_path env path in
     \<lparr>seen_receivers = insert receiver (seen_receivers s),
      seen_paths = insert resolved (seen_paths s),
      input_errors = input_errors s
        @ (if receiver \<in> seen_receivers s then [U ''duplicate receiver: '' @ receiver] else [])
        @ (if receiver \<notin> set (q_receivers profile)
           then [U ''unexpected receiver: '' @ (if receiver = [] then U ''(missing)'' else receiver)] else [])
        @ (if resolved \<in> seen_paths s then [U ''duplicate input path: '' @ resolved] else [])\<rparr>)"

record scan_state =
  seen_files :: "pystr set"
  scan_errors :: "pystr list"
  results :: "quality_result list"

definition scan_input ::
  "quality_env \<Rightarrow> quality_profile \<Rightarrow> scan_state \<Rightarrow> pystr \<times> pystr \<Rightarrow> scan_state res" where
  "scan_input env profile s inp = (case inp of (receiver, path) \<Rightarrow>
     andThen (load_scan env path) (\<lambda>loaded. case loaded of
       Inl e \<Rightarrow> Inr (s\<lparr>results := results s @ [Failed path receiver e]\<rparr>)
     | Inr rep \<Rightarrow>
         (case jget rep (U ''file'') of
            JStr f \<Rightarrow>
              if f \<in> seen_files s then
                Inr (s\<lparr>scan_errors := scan_errors s @ [U ''duplicate scan file: '' @ f],
                  results := results s @ [DuplicateFile path receiver f]\<rparr>)
              else Inr (s\<lparr>seen_files := insert f (seen_files s),
                results := results s @ [Evaluated (evaluate_scan path receiver rep profile)]\<rparr>)
          | _ \<Rightarrow> Inr (s\<lparr>results := results s @ [Evaluated (evaluate_scan path receiver rep profile)]\<rparr>))))"

record quality_report =
  rp_product :: pystr
  rp_profile :: pystr
  rp_pattern :: pystr
  rp_environment :: pystr
  rp_tei_limit :: pystr
  rp_cc_limit :: int
  rp_cc_comparison :: pystr
  rp_results :: "quality_result list"
  rp_input_errors :: "pystr list"
  rp_pass :: bool

definition quality_run :: "quality_env \<Rightarrow> pystr \<Rightarrow> pystr \<Rightarrow> pystr list \<Rightarrow> quality_report res" where
  "quality_run env profile_name environment inputs =
     andThen (get_item PROFILES profile_name (KeyError profile_name)) (\<lambda>profile.
     let parsed = map (parse_input profile) inputs;
         s = foldl (note_input env profile) \<lparr>seen_receivers = {}, seen_paths = {}, input_errors = concat (map snd parsed)\<rparr>
           (map fst parsed);
         missing = filter (\<lambda>r. r \<notin> seen_receivers s) (sort (q_receivers profile));
         errors = input_errors s @ (if missing \<noteq> [] then [U ''missing receivers: '' @ join [44] missing] else [])
     in andThen (foldE (scan_input env profile) \<lparr>seen_files = {}, scan_errors = errors, results = []\<rparr> (map fst parsed)) (\<lambda>t.
     Inr \<lparr>rp_product = q_product profile, rp_profile = profile_name, rp_pattern = q_pattern profile,
       rp_environment = environment,
       rp_tei_limit = str_int (q_tei_numerator profile) @ [47] @ str_int (q_tei_denominator profile),
       rp_cc_limit = q_cc_limit profile,
       rp_cc_comparison = (if q_cc_op profile = ''equal'' then U ''=='' else U ''<''),
       rp_results = results t, rp_input_errors = scan_errors t,
       rp_pass = (results t \<noteq> [] \<and> scan_errors t = [] \<and> list_all result_pass (results t))\<rparr>))"

definition quality_main :: "quality_env \<Rightarrow> pystr \<Rightarrow> pystr \<Rightarrow> pystr list \<Rightarrow> nat res" where
  "quality_main env profile environment inputs =
     andThen (quality_run env profile environment inputs) (\<lambda>result. Inr (if rp_pass result then 0 else 1))"

section \<open>What passing the gate means\<close>

subsection \<open>The inputs\<close>

lemma note_inputs:
  defines "names ins \<equiv> map fst ins" and "paths env ins \<equiv> map (\<lambda>i. resolve_path env (snd i)) ins"
  shows "seen_receivers (foldl (note_input env profile) s ins) = seen_receivers s \<union> set (names ins)"
    and "input_errors (foldl (note_input env profile) s ins) = [] \<longleftrightarrow>
      input_errors s = [] \<and> distinct (names ins) \<and> set (names ins) \<inter> seen_receivers s = {} \<and>
      set (names ins) \<subseteq> set (q_receivers profile) \<and> distinct (paths env ins) \<and>
      set (paths env ins) \<inter> seen_paths s = {}"
proof -
  show "seen_receivers (foldl (note_input env profile) s ins) = seen_receivers s \<union> set (names ins)"
    by (induction ins arbitrary: s) (auto simp: note_input_def Let_def names_def split: prod.splits)
  show "input_errors (foldl (note_input env profile) s ins) = [] \<longleftrightarrow>
      input_errors s = [] \<and> distinct (names ins) \<and> set (names ins) \<inter> seen_receivers s = {} \<and>
      set (names ins) \<subseteq> set (q_receivers profile) \<and> distinct (paths env ins) \<and>
      set (paths env ins) \<inter> seen_paths s = {}"
  proof (induction ins arbitrary: s)
    case (Cons i ins)
    show ?case
      unfolding foldl_Cons Cons.IH
      by (auto simp: note_input_def Let_def names_def paths_def split: prod.splits)
  qed (simp add: names_def paths_def)
qed

subsection \<open>The reports\<close>

text \<open>A report that loads, with counts within the profile.\<close>

definition input_within :: "quality_env \<Rightarrow> quality_profile \<Rightarrow> pystr \<times> pystr \<Rightarrow> bool" where
  "input_within env profile inp \<longleftrightarrow> (\<exists>rep. load_scan env (snd inp) = Inr (Inr rep) \<and>
     tei_within profile (int_of (jget rep (U ''tei''))) (int_of (jget rep (U ''packets''))) \<and>
     cc_within profile (int_of (jget rep (U ''continuity_errors''))))"

definition scan_names :: "quality_env \<Rightarrow> (pystr \<times> pystr) list \<Rightarrow> pystr list" where
  "scan_names env ins = concat (map (\<lambda>i. case load_scan env (snd i) of
       Inr (Inr rep) \<Rightarrow> (case jget rep (U ''file'') of JStr f \<Rightarrow> [f] | _ \<Rightarrow> []) | _ \<Rightarrow> []) ins)"

definition scan_ok :: "scan_state \<Rightarrow> bool" where
  "scan_ok s \<longleftrightarrow> scan_errors s = [] \<and> list_all result_pass (results s)"

lemma scan_names_Nil [simp]: "scan_names env [] = []"
  by (simp add: scan_names_def)

lemma scan_names_Cons: "scan_names env (i # ins) = scan_names env [i] @ scan_names env ins"
  by (simp add: scan_names_def)

lemma str_case: "(case v of JStr f \<Rightarrow> g f | _ \<Rightarrow> b) = (if is_str v then g (str_of v) else b)"
  by (cases v) auto

lemma scan_input_cases:
  assumes "scan_input env profile s i = Inr t"
  obtains e where "load_scan env (snd i) = Inr (Inl e)" "t = s\<lparr>results := results s @ [Failed (snd i) (fst i) e]\<rparr>"
  | rep f where "load_scan env (snd i) = Inr (Inr rep)" "jget rep (U ''file'') = JStr f" "f \<in> seen_files s"
      "t = s\<lparr>scan_errors := scan_errors s @ [U ''duplicate scan file: '' @ f],
         results := results s @ [DuplicateFile (snd i) (fst i) f]\<rparr>"
  | rep f where "load_scan env (snd i) = Inr (Inr rep)" "jget rep (U ''file'') = JStr f" "f \<notin> seen_files s"
      "t = s\<lparr>seen_files := insert f (seen_files s),
         results := results s @ [Evaluated (evaluate_scan (snd i) (fst i) rep profile)]\<rparr>"
  | rep where "load_scan env (snd i) = Inr (Inr rep)" "\<not> is_str (jget rep (U ''file''))"
      "t = s\<lparr>results := results s @ [Evaluated (evaluate_scan (snd i) (fst i) rep profile)]\<rparr>"
proof -
  from assms obtain loaded where l: "load_scan env (snd i) = Inr loaded"
    by (auto simp: scan_input_def split_def andThen_eq_Inr)
  show ?thesis
  proof (cases loaded)
    case (Inl e)
    then show ?thesis using assms l that(1) [of e] by (simp add: scan_input_def split_def)
  next
    case (Inr rep)
    then show ?thesis
      using assms l that(2-4) [of rep]
      by (cases "jget rep (U ''file'')") (simp_all add: scan_input_def split_def split: if_splits)
  qed
qed

lemma scan_names_single:
  "load_scan env (snd i) = Inr (Inl e) \<Longrightarrow> scan_names env [i] = []"
  "load_scan env (snd i) = Inr (Inr rep) \<Longrightarrow>
     scan_names env [i] = (if is_str (jget rep (U ''file'')) then [str_of (jget rep (U ''file''))] else [])"
  by (simp_all add: scan_names_def str_case)

lemma evaluated_pass:
  "load_scan env (snd i) = Inr (Inr rep) \<Longrightarrow>
   result_pass (Evaluated (evaluate_scan (snd i) (fst i) rep profile)) \<longleftrightarrow> input_within env profile i"
  by (simp add: evaluate_scan_def input_within_def Let_def)

lemma scan_input_ok:
  assumes "scan_input env profile s i = Inr t"
  shows "(scan_ok t \<longleftrightarrow> scan_ok s \<and> input_within env profile i \<and> set (scan_names env [i]) \<inter> seen_files s = {}) \<and>
    (scan_ok t \<longrightarrow> seen_files t = seen_files s \<union> set (scan_names env [i])) \<and>
    length (results t) = Suc (length (results s)) \<and> distinct (scan_names env [i])"
  using assms
proof (cases rule: scan_input_cases)
  case (1 e)
  then show ?thesis by (simp add: scan_names_single(1) [OF 1(1)] scan_ok_def input_within_def)
next
  case (2 rep f)
  then show ?thesis by (simp add: scan_names_single(2) [OF 2(1)] scan_ok_def)
next
  case (3 rep f)
  then show ?thesis
    using evaluated_pass [OF 3(1), of profile] by (auto simp: scan_names_single(2) [OF 3(1)] scan_ok_def)
next
  case (4 rep)
  then show ?thesis
    using evaluated_pass [OF 4(1), of profile] by (auto simp: scan_names_single(2) [OF 4(1)] scan_ok_def)
qed

lemma scan_inputs_ok:
  "foldE (scan_input env profile) s ins = Inr t \<Longrightarrow>
   (scan_ok t \<longleftrightarrow> scan_ok s \<and> list_all (input_within env profile) ins \<and>
      distinct (scan_names env ins) \<and> set (scan_names env ins) \<inter> seen_files s = {}) \<and>
   length (results t) = length (results s) + length ins"
proof (induction ins arbitrary: s)
  case (Cons i ins)
  then obtain m where m: "scan_input env profile s i = Inr m" "foldE (scan_input env profile) m ins = Inr t"
    by (auto simp: andThen_eq_Inr)
  show ?case
    unfolding scan_names_Cons [of env i ins] using Cons.IH [OF m(2)] scan_input_ok [OF m(1)] by auto
qed simp

subsection \<open>The limits as ratios\<close>

lemma PROFILES_fields:
  "list_all (\<lambda>(n, p). q_tei_denominator p > 0 \<and> distinct (q_receivers p) \<and> q_receivers p \<noteq> []) PROFILES"
  by (simp add: PROFILES_def make_profile_def)

lemma tei_within_ratio:
  assumes "packets > 0" and "q_tei_denominator profile > 0"
  shows "tei_within profile tei packets \<longleftrightarrow>
    (if q_tei_op profile = ''zero'' then tei = 0
     else 100 * rat_of_int tei / rat_of_int packets
       < rat_of_int (q_tei_numerator profile) / rat_of_int (q_tei_denominator profile))"
proof -
  have "100 * rat_of_int tei / rat_of_int packets < rat_of_int (q_tei_numerator profile) / rat_of_int (q_tei_denominator profile)
    \<longleftrightarrow> rat_of_int (tei * 100 * q_tei_denominator profile) < rat_of_int (packets * q_tei_numerator profile)"
    using assms by (simp add: divide_less_eq less_divide_eq field_simps)
  then show ?thesis by (simp add: tei_within_def del: of_int_mult)
qed

text \<open>A report with a positive number of packets and error counts within the limits.\<close>

definition report_within :: "quality_profile \<Rightarrow> scan_report \<Rightarrow> bool" where
  "report_within profile rep \<longleftrightarrow> (\<exists>packets tei cc. jget rep (U ''packets'') = JInt packets \<and>
     jget rep (U ''tei'') = JInt tei \<and> jget rep (U ''continuity_errors'') = JInt cc \<and>
     0 < packets \<and> 0 \<le> tei \<and> tei \<le> packets \<and> 0 \<le> cc \<and>
     (if q_tei_op profile = ''zero'' then tei = 0
      else 100 * rat_of_int tei / rat_of_int packets
        < rat_of_int (q_tei_numerator profile) / rat_of_int (q_tei_denominator profile)) \<and>
     (if q_cc_op profile = ''equal'' then cc = q_cc_limit profile else cc < q_cc_limit profile))"

lemma valid_count_iff: "valid_count v \<longleftrightarrow> (\<exists>n. v = JInt n \<and> 0 \<le> n)"
  by (cases v) (auto simp: valid_count_def)

lemma check_scan_Inr:
  "check_scan v = Inr rep \<longleftrightarrow> v = JObj rep \<and> (\<exists>packets tei cc. jget rep (U ''packets'') = JInt packets \<and>
     jget rep (U ''tei'') = JInt tei \<and> jget rep (U ''continuity_errors'') = JInt cc \<and>
     0 < packets \<and> 0 \<le> tei \<and> tei \<le> packets \<and> 0 \<le> cc)"
proof (cases v)
  case (JObj d)
  have "check_scan (JObj d) = Inr rep \<longleftrightarrow> d = rep \<and> valid_count (jget d (U ''packets'')) \<and>
      valid_count (jget d (U ''tei'')) \<and> valid_count (jget d (U ''continuity_errors'')) \<and>
      int_of (jget d (U ''packets'')) \<noteq> 0 \<and> int_of (jget d (U ''tei'')) \<le> int_of (jget d (U ''packets''))"
    by (auto simp: check_scan_def Let_def)
  then show ?thesis unfolding JObj valid_count_iff by auto
qed (simp_all add: check_scan_def)

lemma load_scan_Inr:
  "load_scan env path = Inr (Inr rep) \<longleftrightarrow> (\<exists>data v. read_bytes env path = Content data \<and>
     andThen (scan_text data) (json_loads default_hooks) = Inr v \<and> check_scan v = Inr rep)"
  by (auto simp: load_scan_def split: file_read.splits sum.splits exc.splits)

lemma input_within_iff:
  assumes "q_tei_denominator profile > 0"
  shows "input_within env profile i \<longleftrightarrow> (\<exists>rep. load_scan env (snd i) = Inr (Inr rep) \<and> report_within profile rep)"
proof -
  have "load_scan env (snd i) = Inr (Inr rep) \<Longrightarrow>
      tei_within profile (int_of (jget rep (U ''tei''))) (int_of (jget rep (U ''packets''))) \<and>
      cc_within profile (int_of (jget rep (U ''continuity_errors''))) \<longleftrightarrow> report_within profile rep" for rep
    unfolding load_scan_Inr check_scan_Inr report_within_def
    by (cases "q_tei_op profile = ''zero''") (auto simp: tei_within_ratio assms cc_within_def)
  then show ?thesis unfolding input_within_def by blast
qed

subsection \<open>The gate\<close>

text \<open>
  What a passing run has to show: every receiver of the profile once, under distinct files, with
  a report within the limits for each of them, and no report of the same capture twice.
\<close>

definition quality_ok :: "quality_env \<Rightarrow> quality_profile \<Rightarrow> pystr list \<Rightarrow> bool" where
  "quality_ok env profile inputs \<longleftrightarrow>
     (let ins = map (fst \<circ> parse_input profile) inputs in
      list_all (\<lambda>v. snd (parse_input profile v) = []) inputs \<and>
      distinct (map fst ins) \<and> set (map fst ins) = set (q_receivers profile) \<and>
      distinct (map (\<lambda>i. resolve_path env (snd i)) ins) \<and>
      list_all (\<lambda>i. \<exists>rep. load_scan env (snd i) = Inr (Inr rep) \<and> report_within profile rep) ins \<and>
      distinct (scan_names env ins))"

lemma quality_run_pass:
  assumes p: "map_of PROFILES name = Some profile" and run: "quality_run env name environment inputs = Inr report"
  shows "rp_pass report \<longleftrightarrow> quality_ok env profile inputs"
proof -
  define ins where "ins = map (fst \<circ> parse_input profile) inputs"
  have ins: "map fst (map (parse_input profile) inputs) = ins" by (simp add: ins_def)
  have prof: "q_tei_denominator profile > 0" "q_receivers profile \<noteq> []"
    using PROFILES_fields map_of_SomeD [OF p] by (auto simp: list_all_iff)
  define s where "s = foldl (note_input env profile) \<lparr>seen_receivers = {}, seen_paths = {},
      input_errors = concat (map snd (map (parse_input profile) inputs))\<rparr> ins"
  define missing where "missing = filter (\<lambda>r. r \<notin> seen_receivers s) (sort (q_receivers profile))"
  define errors where "errors = input_errors s @ (if missing \<noteq> [] then [U ''missing receivers: '' @ join [44] missing] else [])"
  from run obtain t where t: "foldE (scan_input env profile) \<lparr>seen_files = {}, scan_errors = errors, results = []\<rparr> ins = Inr t"
    and pass: "rp_pass report \<longleftrightarrow> results t \<noteq> [] \<and> scan_ok t"
    unfolding quality_run_def get_item_def p option.case andThen_simps Let_def ins
      s_def [symmetric] missing_def [symmetric] errors_def [symmetric]
    by (auto simp: andThen_eq_Inr scan_ok_def)
  have miss: "missing = [] \<longleftrightarrow> set (q_receivers profile) \<subseteq> set (map fst ins)"
    using note_inputs(1) [of env profile _ ins] by (auto simp: missing_def s_def filter_empty_conv)
  have err: "errors = [] \<longleftrightarrow> list_all (\<lambda>v. snd (parse_input profile v) = []) inputs \<and> distinct (map fst ins) \<and>
      set (map fst ins) = set (q_receivers profile) \<and> distinct (map (\<lambda>i. resolve_path env (snd i)) ins)"
    unfolding errors_def using miss note_inputs(2) [of env profile _ ins]
    by (auto simp: s_def list_all_iff)
  have "ins \<noteq> []" if "set (map fst ins) = set (q_receivers profile)" using that prof(2) by auto
  then show ?thesis
    using scan_inputs_ok [OF t] err
    unfolding pass quality_ok_def Let_def ins_def [symmetric] input_within_iff [OF prof(1), abs_def]
    by (auto simp: scan_ok_def)
qed

text \<open>C14. The quality gate passes exactly when every input is labelled, the labels are the receivers
  of the profile, each once, the files are distinct, no two reports name the same capture, and
  every report is a JSON object with a positive packet count whose transport error rate, as an
  exact ratio, and continuity errors are within the limits of the profile.\<close>

theorem quality_gate_exact:
  "case map_of PROFILES name of None \<Rightarrow> True
   | Some profile \<Rightarrow> (case quality_run env name environment inputs of Inl _ \<Rightarrow> True
      | Inr report \<Rightarrow> rp_pass report \<longleftrightarrow> quality_ok env profile inputs)"
  using quality_run_pass by (auto split: option.splits sum.splits)

end
