(* ===== verification/Archive.thy ===== *)
theory Archive
  imports PyText
begin

unbundle bit_operations_syntax

section \<open>Reading an archive\<close>

text \<open>
  \<open>safe_member\<close> and \<open>archive_payloads\<close> of \<open>audit-artifact.py\<close>. What \<open>zipfile\<close> and
  \<open>tarfile\<close> find in the bytes of a file is the parameter \<open>container_lib\<close>: the list of
  members in archive order, each with the attributes the scripts read and the outcome of
  reading it. The loops and every check of the scripts are modelled on top of it.
\<close>

subsection \<open>Files and containers\<close>

record zip_info =
  zi_filename :: pystr
  zi_external_attr :: "32 word"
  zi_create_system :: nat
  zi_flag_bits :: "16 word"
  zi_compress_type :: nat
  zi_file_size :: nat
  zi_content :: "bytes res"

record tar_info =
  ti_name :: pystr
  ti_isfile :: bool
  ti_sparse :: bool
  ti_mode :: nat
  ti_size :: nat
  ti_content :: "bytes option res"

text \<open>
  \<open>tar_getmembers\<close> also tells whether reading ended in an error after the listed members.
\<close>

record container_lib =
  zip_infolist :: "bytes \<Rightarrow> zip_info list option"
  tar_getmembers :: "bytes \<Rightarrow> tar_info list \<times> bool"

record disk_file =
  f_name :: pystr
  f_is_file :: bool
  f_is_symlink :: bool
  f_data :: bytes

definition S_IFMT :: "nat \<Rightarrow> nat" where
  "S_IFMT mode = mode AND 0xF000"

definition S_IMODE :: "nat \<Rightarrow> nat" where
  "S_IMODE mode = mode AND 0xFFF"

definition S_ISLNK :: "nat \<Rightarrow> bool" where
  "S_ISLNK mode \<longleftrightarrow> S_IFMT mode = 0xA000"

definition S_ISREG :: "nat \<Rightarrow> bool" where
  "S_ISREG mode \<longleftrightarrow> S_IFMT mode = 0x8000"

text \<open>The upper half of the external attributes is the Unix mode.\<close>

definition zip_mode :: "zip_info \<Rightarrow> nat" where
  "zip_mode i = unat (drop_bit 16 (zi_external_attr i)) AND 0xFFFF"

definition zip_is_dir :: "zip_info \<Rightarrow> bool" where
  "zip_is_dir i \<longleftrightarrow> endswith (zi_filename i) [47]"

subsection \<open>Member names\<close>

definition safe_member :: "pystr \<Rightarrow> unit res" where
  "safe_member name =
     (if name = [] \<or> contains name [92] \<or> startswith name [47]
      then fail ''unsafe archive member: {}'' [name]
      else if U ''..'' \<in> set (posix_parts name)
      then fail ''unsafe archive member: {}'' [name]
      else Inr ())"

subsection \<open>The two readers\<close>

fun zip_payloads ::
  "(pystr \<times> bytes \<times> nat) list \<Rightarrow> zip_info list \<Rightarrow> (pystr \<times> bytes \<times> nat) list res" where
  "zip_payloads acc [] = Inr acc"
| "zip_payloads acc (info # rest) =
     andThen (safe_member (zi_filename info)) (\<lambda>_.
       let mode = zip_mode info in
       if zip_is_dir info \<or> S_ISLNK mode \<or> (mode \<noteq> 0 \<and> \<not> S_ISREG mode)
       then fail ''archive member is not a regular file: {}'' [zi_filename info]
       else if zi_filename info \<in> keys acc
       then fail ''duplicate archive member: {}'' [zi_filename info]
       else andThen (zi_content info) (\<lambda>data.
         zip_payloads (acc @ [(zi_filename info, data, mode)]) rest))"

fun tar_payloads ::
  "(pystr \<times> bytes \<times> nat) list \<Rightarrow> tar_info list \<Rightarrow> (pystr \<times> bytes \<times> nat) list res" where
  "tar_payloads acc [] = Inr acc"
| "tar_payloads acc (info # rest) =
     andThen (safe_member (ti_name info)) (\<lambda>_.
       if \<not> ti_isfile info \<or> ti_name info \<in> keys acc
       then fail ''archive member is not a unique regular file: {}'' [ti_name info]
       else andThen (ti_content info) (\<lambda>payload.
         case payload of
           None \<Rightarrow> fail ''cannot read archive member: {}'' [ti_name info]
         | Some data \<Rightarrow> tar_payloads (acc @ [(ti_name info, data, ti_mode info)]) rest))"

text \<open>\<open>except (OSError, tarfile.TarError, zipfile.BadZipFile)\<close>; other exceptions pass.\<close>

definition wrap_io :: "pystr \<Rightarrow> 'a res \<Rightarrow> 'a res" where
  "wrap_io path m = (case m of
       Inl (OSError _ _) \<Rightarrow> fail ''cannot read archive {}'' [path]
     | _ \<Rightarrow> m)"

definition archive_members :: "container_lib \<Rightarrow> disk_file \<Rightarrow> (pystr \<times> bytes \<times> nat) list res" where
  "archive_members L path =
     (if endswith (f_name path) (U ''.zip'') then
        (case zip_infolist L (f_data path) of
           None \<Rightarrow> Inl (OSError ''BadZipFile'' [])
         | Some infos \<Rightarrow> zip_payloads [] infos)
      else
        (case tar_getmembers L (f_data path) of (infos, broken) \<Rightarrow>
           if broken then Inl (OSError ''TarError'' []) else tar_payloads [] infos))"

definition archive_payloads ::
  "container_lib \<Rightarrow> disk_file \<Rightarrow> ((pystr, bytes) dict \<times> (pystr, nat) dict) res" where
  "archive_payloads L path =
     (if \<not> f_is_file path \<or> f_is_symlink path
      then fail ''archive is not an ordinary file: {}'' [f_name path]
      else andThen (wrap_io (f_name path) (archive_members L path)) (\<lambda>members.
        Inr (map (\<lambda>(n, d, m). (n, d)) members, map (\<lambda>(n, d, m). (n, m)) members)))"

subsection \<open>What a member name that passed denotes\<close>

text \<open>
  POSIX resolution of path components below a directory, itself given by its components:
  a root component starts again from the root, and two dots leave a directory.
\<close>

fun resolve :: "pystr list \<Rightarrow> pystr list \<Rightarrow> pystr list" where
  "resolve dir [] = dir"
| "resolve dir (p # ps) =
     (if p = [47] \<or> p = [47, 47] then resolve [] ps
      else if p = [46, 46] then resolve (butlast dir) ps
      else resolve (dir @ [p]) ps)"

lemma safe_member_eq [res_simps]:
  "safe_member name = Inr u \<longleftrightarrow>
     name \<noteq> [] \<and> 92 \<notin> set name \<and> \<not> startswith name [47] \<and> [46, 46] \<notin> set (posix_parts name)"
proof -
  have "contains name [92] \<longleftrightarrow> 92 \<in> set name"
    by (auto simp: contains_iff in_set_conv_decomp)
  then show ?thesis by (auto simp: safe_member_def fail_def U_Cons)
qed

lemma resolve_plain:
  "(\<And>p. p \<in> set ps \<Longrightarrow> p \<notin> {[47], [47, 47], [46, 46]}) \<Longrightarrow> resolve dir ps = dir @ ps"
  by (induction ps arbitrary: dir) auto

lemma safe_member_resolve:
  assumes "safe_member name = Inr ()"
  shows "resolve dir (posix_parts name) = dir @ posix_parts name"
proof (rule resolve_plain)
  fix p
  assume p: "p \<in> set (posix_parts name)"
  then have "p \<in> set (split_on 47 name)"
    using assms by (auto simp: res_simps posix_parts_def)
  then have "47 \<notin> set p" by (rule split_on_parts_no_sep)
  with p assms show "p \<notin> {[47], [47, 47], [46, 46]}" by (auto simp: res_simps)
qed

subsection \<open>The readers are unique collectors\<close>

definition zip_entry :: "zip_info \<Rightarrow> exc + (pystr \<times> (exc + bytes \<times> nat)) option" where
  "zip_entry i = andThen (safe_member (zi_filename i)) (\<lambda>_.
     if zip_is_dir i \<or> S_ISLNK (zip_mode i) \<or> (zip_mode i \<noteq> 0 \<and> \<not> S_ISREG (zip_mode i))
     then fail ''archive member is not a regular file: {}'' [zi_filename i]
     else Inr (Some (zi_filename i, andThen (zi_content i) (\<lambda>d. Inr (d, zip_mode i)))))"

interpretation zip_reader: unique_collector zip_entry
  "\<lambda>k. AuditError ''duplicate archive member: {}'' [k]" zip_payloads
  by unfold_locales
    (auto simp: zip_entry_def andThen_def fail_def Let_def split: sum.splits)

definition tar_entry :: "tar_info \<Rightarrow> exc + (pystr \<times> (exc + bytes \<times> nat)) option" where
  "tar_entry i = andThen (safe_member (ti_name i)) (\<lambda>_.
     if \<not> ti_isfile i then fail ''archive member is not a unique regular file: {}'' [ti_name i]
     else Inr (Some (ti_name i, andThen (ti_content i) (\<lambda>payload.
       case payload of None \<Rightarrow> fail ''cannot read archive member: {}'' [ti_name i]
       | Some d \<Rightarrow> Inr (d, ti_mode i)))))"

interpretation tar_reader: unique_collector tar_entry
  "\<lambda>k. AuditError ''archive member is not a unique regular file: {}'' [k]" tar_payloads
  by unfold_locales
    (auto simp: tar_entry_def andThen_def fail_def split: sum.splits option.splits)

lemma zip_entry_ok:
  assumes "entry_ok zip_entry i"
  obtains d where "zip_entry i = Inr (Some (zi_filename i, Inr (d, zip_mode i)))"
    and "zi_content i = Inr d" and "safe_member (zi_filename i) = Inr ()"
    and "zip_mode i \<noteq> 0 \<longrightarrow> S_ISREG (zip_mode i)"
  using assms
  by (auto simp: entry_ok_def zip_entry_def andThen_def fail_def split: sum.splits if_splits)

lemma tar_entry_ok:
  assumes "entry_ok tar_entry i"
  obtains d where "tar_entry i = Inr (Some (ti_name i, Inr (d, ti_mode i)))"
    and "ti_content i = Inr (Some d)" and "safe_member (ti_name i) = Inr ()" and "ti_isfile i"
  using assms
  by (auto simp: entry_ok_def tar_entry_def andThen_def fail_def
      split: sum.splits if_splits option.splits)

lemma zip_collected:
  "(\<And>i. i \<in> set is \<Longrightarrow> entry_ok zip_entry i) \<Longrightarrow>
   map (\<lambda>(n, d, m). (n, Inr (Some d), m)) (collected zip_entry is) =
     map (\<lambda>i. (zi_filename i, andThen (zi_content i) (\<lambda>d. Inr (Some d)), zip_mode i)) is"
proof (induction "is")
  case (Cons i "is")
  then have "entry_ok zip_entry i" by simp
  then show ?case using Cons by (elim zip_entry_ok) simp
qed simp

lemma tar_collected:
  "(\<And>i. i \<in> set is \<Longrightarrow> entry_ok tar_entry i) \<Longrightarrow>
   map (\<lambda>(n, d, m). (n, Inr (Some d), m)) (collected tar_entry is) =
     map (\<lambda>i. (ti_name i, ti_content i, ti_mode i)) is"
proof (induction "is")
  case (Cons i "is")
  then have "entry_ok tar_entry i" by simp
  then show ?case using Cons by (elim tar_entry_ok) simp
qed simp

lemma wrap_io_eq_Inr [res_simps]: "wrap_io p m = Inr x \<longleftrightarrow> m = Inr x"
  by (auto simp: wrap_io_def fail_def split: sum.splits exc.splits)

text \<open>What the archive holds, as the module for its name reports it.\<close>

definition listing :: "container_lib \<Rightarrow> disk_file \<Rightarrow> (pystr \<times> bytes option res \<times> nat) list" where
  "listing L f =
     (if endswith (f_name f) (U ''.zip'') then
        (case zip_infolist L (f_data f) of
           None \<Rightarrow> []
         | Some infos \<Rightarrow>
             map (\<lambda>i. (zi_filename i, andThen (zi_content i) (\<lambda>d. Inr (Some d)), zip_mode i)) infos)
      else map (\<lambda>i. (ti_name i, ti_content i, ti_mode i)) (fst (tar_getmembers L (f_data f))))"

lemma archive_members_sound:
  assumes "archive_members L f = Inr ms"
  shows "distinct (map fst ms)" and "n \<in> fst ` set ms \<Longrightarrow> safe_member n = Inr ()"
    and "map (\<lambda>(n, d, m). (n, Inr (Some d), m)) ms = listing L f"
proof -
  consider (zip) infos where "endswith (f_name f) (U ''.zip'')"
      "zip_infolist L (f_data f) = Some infos" "zip_payloads [] infos = Inr ms"
    | (tar) infos where "\<not> endswith (f_name f) (U ''.zip'')"
      "tar_getmembers L (f_data f) = (infos, False)" "tar_payloads [] infos = Inr ms"
    using assms by (auto simp: archive_members_def split: if_splits option.splits prod.splits)
  then have "distinct (map fst ms) \<and> (\<forall>n \<in> fst ` set ms. safe_member n = Inr ()) \<and>
      map (\<lambda>(n, d, m). (n, Inr (Some d), m)) ms = listing L f"
  proof cases
    case zip
    then have ok: "\<forall>i \<in> set infos. entry_ok zip_entry i" and c: "ms = collected zip_entry infos"
      and d: "distinct (map fst ms)" by (auto simp: zip_reader.loop_iff)
    have "\<forall>n \<in> fst ` set ms. safe_member n = Inr ()"
      using ok c by (fastforce simp: collected_mem elim: zip_entry_ok)
    then show ?thesis using d zip zip_collected [of infos] ok c by (simp add: listing_def)
  next
    case tar
    then have ok: "\<forall>i \<in> set infos. entry_ok tar_entry i" and c: "ms = collected tar_entry infos"
      and d: "distinct (map fst ms)" by (auto simp: tar_reader.loop_iff)
    have "\<forall>n \<in> fst ` set ms. safe_member n = Inr ()"
      using ok c by (fastforce simp: collected_mem elim: tar_entry_ok)
    then show ?thesis using d tar tar_collected [of infos] ok c by (simp add: listing_def)
  qed
  then show "distinct (map fst ms)" and "n \<in> fst ` set ms \<Longrightarrow> safe_member n = Inr ()"
    and "map (\<lambda>(n, d, m). (n, Inr (Some d), m)) ms = listing L f" by auto
qed

subsection \<open>Properties\<close>

text \<open>C31. When \<open>archive_payloads\<close> returns, the archive is an ordinary file, no name occurs
  twice, the payloads and modes are those of every member of the archive, in archive order and
  none left out, and every name, resolved below any directory, stays below it.\<close>

theorem archive_payloads_sound:
  assumes "archive_payloads L f = Inr (payloads, modes)"
  shows "f_is_file f \<and> \<not> f_is_symlink f \<and> distinct (map fst payloads) \<and>
    map (\<lambda>((n, d), (n', m)). (n, Inr (Some d), m)) (zip payloads modes) = listing L f \<and>
    map fst modes = map fst payloads \<and>
    (\<forall>name \<in> keys payloads. \<forall>dir.
       name \<noteq> [] \<and> resolve dir (posix_parts name) = dir @ posix_parts name)"
proof -
  from assms obtain ms where ord: "f_is_file f \<and> \<not> f_is_symlink f"
    and ms: "archive_members L f = Inr ms"
    and p: "payloads = map (\<lambda>(n, d, m). (n, d)) ms" and m: "modes = map (\<lambda>(n, d, m). (n, m)) ms"
    by (auto simp: archive_payloads_def res_simps)
  note sound = archive_members_sound [OF ms]
  have pn: "map fst payloads = map fst ms" by (simp add: p split_def o_def)
  have "map (\<lambda>((n, d), (n', m)). (n, Inr (Some d), m)) (zip payloads modes) = listing L f"
    unfolding sound(3) [symmetric] p m by (simp add: zip_map_map zip_same_conv_map split_def o_def)
  moreover have "resolve dir (posix_parts name) = dir @ posix_parts name \<and> name \<noteq> []"
    if "name \<in> keys payloads" for name dir
  proof -
    have "safe_member name = Inr ()"
      using that sound(2) pn by (metis keys_set_map list.set_map)
    then show ?thesis by (simp add: safe_member_resolve res_simps)
  qed
  ultimately show ?thesis using ord sound(1) pn by (simp add: p m split_def o_def)
qed

definition sample_tar :: container_lib where
  "sample_tar = \<lparr>zip_infolist = (\<lambda>_. None),
     tar_getmembers = (\<lambda>_. ([\<lparr>ti_name = U ''a/b'', ti_isfile = True, ti_sparse = False,
        ti_mode = 420, ti_size = 2, ti_content = Inr (Some [1, 2])\<rparr>], False))\<rparr>"

definition sample_file :: disk_file where
  "sample_file = \<lparr>f_name = U ''x.tar.gz'', f_is_file = True, f_is_symlink = False, f_data = []\<rparr>"

lemma sample_archive:
  "archive_payloads sample_tar sample_file = Inr ([(U ''a/b'', [1, 2])], [(U ''a/b'', 420)])"
  by (simp add: archive_payloads_def archive_members_def wrap_io_def sample_tar_def sample_file_def
      safe_member_def posix_parts_def U_Cons endswith_def startswith_def)

theorem archive_payloads_sound_witness:
  "listing sample_tar sample_file = [(U ''a/b'', Inr (Some [1, 2]), 420)] \<and>
   resolve [U ''tmp''] (posix_parts (U ''a/b'')) = [U ''tmp'', U ''a'', U ''b'']"
  using archive_payloads_sound [OF sample_archive]
  by (simp add: posix_parts_def startswith_def U_Cons)

end
