(* ===== verification/Provenance.thy ===== *)
theory Provenance
  imports PyText
begin

section \<open>Pinned inputs and platforms\<close>

text \<open>
  The constants of \<open>provenance.py\<close> and of the head of \<open>audit-artifact.py\<close>: the pinned
  firmware, licence and libusb inputs, the platforms that can be packaged and what is
  expected of each, and the two strict formats (\<open>validate_version\<close>,
  \<open>validate_source_ref\<close>) that every identity of a release passes through.
\<close>

definition FIRMWARE_URL :: pystr where
  "FIRMWARE_URL = U ''https://git.kernel.org/pub/scm/linux/kernel/git/firmware/''
     @ U ''linux-firmware.git/plain/isdbt_rio.inp?id='' @ U ''e981caea6ed33c48d25b7dbf473327dbd01df163''"

definition FIRMWARE_SHA256 :: pystr where
  "FIRMWARE_SHA256 = U ''054520642d5d09cb7ab7d08dbd6fd9ba9365de56adf2e7d7d06927f9845ff818''"

definition FIRMWARE_LICENSE_URL :: pystr where
  "FIRMWARE_LICENSE_URL = U ''https://git.kernel.org/pub/scm/linux/kernel/git/firmware/''
     @ U ''linux-firmware.git/plain/LICENSES/LICENCE.siano?id=''
     @ U ''e981caea6ed33c48d25b7dbf473327dbd01df163''"

definition FIRMWARE_LICENSE_SHA256 :: pystr where
  "FIRMWARE_LICENSE_SHA256 = U ''cf2b4a0301e028d7357ca84644c5094dec0aa6a4e8f8616426c3d126788a406a''"

definition LIBUSB_VERSION :: pystr where
  "LIBUSB_VERSION = U ''1.0.30''"

definition LIBUSB_SOURCE_URL :: pystr where
  "LIBUSB_SOURCE_URL = U ''https://github.com/libusb/libusb/releases/download/v1.0.30/''
     @ U ''libusb-1.0.30.tar.bz2''"

definition LIBUSB_SOURCE_SHA256 :: pystr where
  "LIBUSB_SOURCE_SHA256 = U ''fea36f34f9156400209595e300840767ab1a385ede1dc7ee893015aea9c6dbaf''"

definition WINDOWS_LIBUSB_PACKAGE_URL :: pystr where
  "WINDOWS_LIBUSB_PACKAGE_URL = U ''https://github.com/libusb/libusb/releases/download/v1.0.30/''
     @ U ''libusb-1.0.30.7z''"

definition WINDOWS_LIBUSB_PACKAGE_SHA256 :: pystr where
  "WINDOWS_LIBUSB_PACKAGE_SHA256 = U ''7fb1dfec805b97983763d7d0ae244320da12add1003d4249c96cc4d586398c79''"

subsection \<open>Platforms\<close>

text \<open>The keys of \<open>PLATFORMS\<close>, which is also \<open>PACKAGE_PLATFORMS\<close>, with the audit each selects.\<close>

definition PLATFORMS :: "(pystr, pystr) dict" where
  "PLATFORMS = [
     (U ''linux-x86_64'', U ''linux-musl''), (U ''linux-aarch64'', U ''linux-musl''),
     (U ''darwin-arm64'', U ''darwin''), (U ''android-aarch64'', U ''android''),
     (U ''android-armv7a'', U ''android''), (U ''android-x86_64'', U ''android''),
     (U ''windows-x64'', U ''windows'')]"

definition PACKAGE_PLATFORMS :: "pystr set" where
  "PACKAGE_PLATFORMS = {U ''linux-x86_64'', U ''linux-aarch64'', U ''darwin-arm64'',
     U ''android-aarch64'', U ''android-armv7a'', U ''android-x86_64'', U ''windows-x64''}"

record abi_metadata =
  abi :: pystr
  elf_class :: pystr
  machine_names :: "pystr list"
  interpreter :: pystr

definition ANDROID_ABI_METADATA :: "(pystr, abi_metadata) dict" where
  "ANDROID_ABI_METADATA = [
     (U ''android-aarch64'',
        \<lparr>abi = U ''aarch64'', elf_class = U ''ELF64'',
         machine_names = [U ''AArch64'', U ''AARCH64'', U ''ARM aarch64''],
         interpreter = U ''/system/bin/linker64''\<rparr>),
     (U ''android-armv7a'',
        \<lparr>abi = U ''armv7a'', elf_class = U ''ELF32'', machine_names = [U ''ARM'', U ''Arm''],
         interpreter = U ''/system/bin/linker''\<rparr>),
     (U ''android-x86_64'',
        \<lparr>abi = U ''x86_64'', elf_class = U ''ELF64'',
         machine_names = [U ''Advanced Micro Devices X86-64'', U ''AMD x86-64'', U ''X86-64'',
           U ''x86-64''],
         interpreter = U ''/system/bin/linker64''\<rparr>)]"

definition COMMON :: "pystr set" where
  "COMMON = {U ''COPYING'', U ''LICENCE.siano'', U ''README.md'', U ''REBUILD.md'',
     U ''DEPENDENCY-NOTICE.txt'', U ''firmware/isdbt_rio.inp'', U ''manifest.json'',
     U ''SHA256SUMS'', U ''evidence/binary-audit.json''}"

definition LINUX_MDEV :: "pystr set" where
  "LINUX_MDEV = {U ''mdev/siano-ts-mdev.conf'', U ''mdev/siano-ts-mdev.sh'',
     U ''mdev/siano-ts-mdev.start''}"

definition LINUX_ARCHITECTURES :: "(pystr, pystr) dict" where
  "LINUX_ARCHITECTURES = [(U ''linux-x86_64'', U ''x86_64''), (U ''linux-aarch64'', U ''aarch64'')]"

definition LINUX_RUNTIME_LICENSE_SHA256 :: "(pystr, pystr) dict" where
  "LINUX_RUNTIME_LICENSE_SHA256 = [
     (U ''toolchain/gcc-COPYING3'',
      U ''8ceb4b9ee5adedde47b31e975c1d90c73ad27b6b165a1dcd80c7c545eb65b903''),
     (U ''toolchain/gcc-COPYING.RUNTIME'',
      U ''9d6b43ce4d8de0c878bf16b54d8e7a10d9bd42b75178153e3af6a815bdc90f74''),
     (U ''toolchain/musl-1.2.5-COPYRIGHT'',
      U ''f9bc4423732350eb0b3f7ed7e91d530298476f8fec0c6c427a1c04ade22655af'')]"

definition is_linux :: "pystr \<Rightarrow> bool" where
  "is_linux platform \<longleftrightarrow> platform \<in> set (map fst LINUX_ARCHITECTURES)"

definition is_android :: "pystr \<Rightarrow> bool" where
  "is_android platform \<longleftrightarrow> startswith platform (U ''android'')"

definition is_windows :: "pystr \<Rightarrow> bool" where
  "is_windows platform \<longleftrightarrow> platform = U ''windows-x64''"

definition is_darwin :: "pystr \<Rightarrow> bool" where
  "is_darwin platform \<longleftrightarrow> platform = U ''darwin-arm64''"

subsection \<open>Strict formats\<close>

text \<open>\<open>VERSION_RE\<close>: three non-empty runs of ASCII digits between dots.\<close>

definition version_re :: "pystr \<Rightarrow> bool" where
  "version_re s \<longleftrightarrow> length (split_on 46 s) = 3 \<and>
     list_all (\<lambda>p. p \<noteq> [] \<and> list_all is_digit p) (split_on 46 s)"

text \<open>\<open>SOURCE_REF_RE\<close>: forty or sixty-four lower-case hexadecimal digits.\<close>

definition source_ref_re :: "pystr \<Rightarrow> bool" where
  "source_ref_re s \<longleftrightarrow> hex_id 40 s \<or> hex_id 64 s"

definition validate_version :: "pystr \<Rightarrow> unit res" where
  "validate_version version =
     (if \<not> version_re version then fail ''version must be strict N.N.N, got {}'' [version] else Inr ())"

definition validate_source_ref :: "pystr \<Rightarrow> unit res" where
  "validate_source_ref source_ref =
     (if \<not> source_ref_re source_ref
      then fail ''source_ref must be a canonical commit ID, got {}'' [source_ref] else Inr ())"

lemma validate_eq_Inr [res_simps]:
  "validate_version v = Inr u \<longleftrightarrow> version_re v"
  "validate_source_ref r = Inr u \<longleftrightarrow> source_ref_re r"
  by (auto simp: validate_version_def validate_source_ref_def fail_def)

text \<open>A version is what one prints from three numerals, with leading zeros allowed.\<close>

lemma version_re_iff:
  "version_re s \<longleftrightarrow> (\<exists>a b c. s = a @ [46] @ b @ [46] @ c \<and>
     (\<forall>p \<in> {a, b, c}. p \<noteq> [] \<and> (\<forall>d \<in> set p. is_digit d)))"
proof
  assume v: "version_re s"
  then obtain a b c where abc: "split_on 46 s = [a, b, c]"
    unfolding version_re_def by (auto simp: length_Suc_conv eval_nat_numeral)
  then have "s = a @ [46] @ b @ [46] @ c" using join_split_on [of 46 s] by simp
  with v abc show "\<exists>a b c. s = a @ [46] @ b @ [46] @ c \<and>
      (\<forall>p \<in> {a, b, c}. p \<noteq> [] \<and> (\<forall>d \<in> set p. is_digit d))"
    by (auto simp: version_re_def list_all_iff)
next
  assume "\<exists>a b c. s = a @ [46] @ b @ [46] @ c \<and>
     (\<forall>p \<in> {a, b, c}. p \<noteq> [] \<and> (\<forall>d \<in> set p. is_digit d))"
  then obtain a b c where s: "s = a @ [46] @ b @ [46] @ c"
    and d: "\<forall>p \<in> {a, b, c}. p \<noteq> [] \<and> (\<forall>d \<in> set p. is_digit d)" by blast
  have "46 \<notin> set p" if "p \<in> {a, b, c}" for p
    using d that by (auto simp: is_digit_def)
  then have "split_on 46 s = [a, b, c]"
    using split_on_join [of "[a, b, c]" 46] by (simp add: s)
  with d show "version_re s" by (auto simp: version_re_def list_all_iff)
qed

end
