(* ===== verification/AuditRecords.thy ===== *)
theory AuditRecords
  imports Archive Provenance Sha256 JsonFacts "HOL-Library.Multiset"
begin

section \<open>Structured records of an archive\<close>

text \<open>
  The readers of \<open>audit-artifact.py\<close> for the files inside an archive: strict JSON
  (\<open>parse_json\<close>), the fields of the dependency notice, the build properties, and the
  verification of \<open>SHA256SUMS\<close> against the other members.
\<close>

subsection \<open>Strict JSON\<close>

fun reject_duplicate_json_keys ::
  "(pystr \<times> json) list \<Rightarrow> (pystr \<times> json) list \<Rightarrow> (pystr \<times> json) list res" where
  "reject_duplicate_json_keys result [] = Inr result"
| "reject_duplicate_json_keys result ((key, value) # pairs) =
     (if key \<in> keys result then Inl (ValueError ''duplicate JSON key: {}'' [key])
      else reject_duplicate_json_keys (result @ [(key, value)]) pairs)"

definition reject_nonfinite :: "pystr \<Rightarrow> json res" where
  "reject_nonfinite value = Inl (ValueError ''non-finite JSON constant: {}'' [value])"

definition audit_hooks :: json_hooks where
  "audit_hooks = \<lparr>pairs_hook = reject_duplicate_json_keys [], constant_hook = reject_nonfinite\<rparr>"

definition parse_json :: "bytes \<Rightarrow> pystr \<Rightarrow> json res" where
  "parse_json data name = (case json_loads_bytes audit_hooks data of
       Inl (ValueError _ _) \<Rightarrow> fail ''invalid {}'' [name]
     | Inl UnicodeDecodeError \<Rightarrow> fail ''invalid {}'' [name]
     | m \<Rightarrow> m)"

subsection \<open>Notice fields and build properties\<close>

text \<open>\<open>re.fullmatch(r"[a-z0-9_.-]+", key)\<close>.\<close>

definition notice_key :: "pystr \<Rightarrow> bool" where
  "notice_key key \<longleftrightarrow> key \<noteq> [] \<and>
     list_all (\<lambda>c. 97 \<le> c \<and> c \<le> 122 \<or> is_digit c \<or> c = 95 \<or> c = 46 \<or> c = 45) key"

fun notice_loop :: "(pystr, pystr) dict \<Rightarrow> pystr list \<Rightarrow> (pystr, pystr) dict res" where
  "notice_loop flds [] = Inr flds"
| "notice_loop flds (line # lines) =
     (if 61 \<in> set line then
        (let (key, value) = split1 61 line in
         if notice_key key then
           (if key \<in> keys flds then fail ''duplicate dependency notice field: {}'' [key]
            else notice_loop (flds @ [(key, value)]) lines)
         else notice_loop flds lines)
      else notice_loop flds lines)"

definition notice_fields :: "bytes \<Rightarrow> (pystr, pystr) dict res" where
  "notice_fields data = (case utf8_decode data of
       Inl _ \<Rightarrow> fail ''dependency notice is not UTF-8'' []
     | Inr text \<Rightarrow> notice_loop [] (splitlines text))"

fun properties_loop ::
  "pystr \<Rightarrow> (pystr, pystr) dict \<Rightarrow> pystr list \<Rightarrow> (pystr, pystr) dict res" where
  "properties_loop label property_map [] = Inr property_map"
| "properties_loop label property_map (line # lines) =
     (if 61 \<notin> set line then fail ''{} build.properties is malformed'' [label]
      else (let (key, value) = split1 61 line in
        if key \<in> keys property_map then fail ''duplicate {} build property: {}'' [label, key]
        else properties_loop label (property_map @ [(key, value)]) lines))"

definition parse_build_properties :: "bytes \<Rightarrow> pystr \<Rightarrow> (pystr, pystr) dict res" where
  "parse_build_properties data label = (case utf8_decode data of
       Inl _ \<Rightarrow> fail ''{} build.properties is not UTF-8'' [label]
     | Inr text \<Rightarrow> properties_loop label [] (splitlines text))"

subsection \<open>SHA256SUMS\<close>

text \<open>\<open>re.fullmatch(r"([0-9a-f]{64})  ([^\r\n]+)", line)\<close> and its two groups.\<close>

definition checksum_line :: "pystr \<Rightarrow> (pystr \<times> pystr) option" where
  "checksum_line line =
     (let digest = take 64 line; name = drop 66 line in
      if hex_id 64 digest \<and> take 2 (drop 64 line) = [32, 32] \<and> name \<noteq> [] \<and>
         10 \<notin> set name \<and> 13 \<notin> set name
      then Some (digest, name) else None)"

fun checksum_loop :: "(pystr, pystr) dict \<Rightarrow> pystr list \<Rightarrow> (pystr, pystr) dict res" where
  "checksum_loop listed [] = Inr listed"
| "checksum_loop listed (line # lines) =
     (if line = [] then checksum_loop listed lines
      else (case checksum_line line of
          None \<Rightarrow> fail ''invalid SHA256SUMS line: {}'' [line]
        | Some (digest, name) \<Rightarrow>
            andThen (safe_member name) (\<lambda>_.
              if name \<in> keys listed then fail ''duplicate checksum entry: {}'' [name]
              else checksum_loop (listed @ [(name, digest)]) lines)))"

definition verify_checksums :: "(pystr, bytes) dict \<Rightarrow> unit res" where
  "verify_checksums payloads = (case map_of payloads (U ''SHA256SUMS'') of
       None \<Rightarrow> fail ''SHA256SUMS is missing'' []
     | Some data \<Rightarrow> (case ascii_decode data of
           Inl _ \<Rightarrow> fail ''SHA256SUMS is not ASCII'' []
         | Inr text \<Rightarrow>
             andThen (checksum_loop [] (splitlines text)) (\<lambda>listed.
               if keys listed \<noteq> keys payloads - {U ''SHA256SUMS''}
               then fail ''SHA256SUMS must list exactly every other archive member'' []
               else forE (\<lambda>(name, digest).
                 andThen (get_item payloads name (KeyError name)) (\<lambda>content.
                   if sha256_bytes content \<noteq> digest then fail ''checksum mismatch: {}'' [name]
                   else Inr ())) listed)))"

subsection \<open>The loops are unique collectors\<close>

interpretation json_pairs: unique_collector
  "\<lambda>(k, v). Inr (Some (k, Inr v))" "\<lambda>k. ValueError ''duplicate JSON key: {}'' [k]"
  reject_duplicate_json_keys
  by unfold_locales (auto split: prod.splits)

lemma collected_pairs: "collected (\<lambda>(k, v). Inr (Some (k, Inr v))) ps = ps"
  by (induction ps) auto

lemma json_pairs_error: "reject_duplicate_json_keys acc ps = Inl e \<Longrightarrow> value_error e"
  by (induction acc ps rule: reject_duplicate_json_keys.induct) (auto split: if_splits)

definition notice_entry :: "pystr \<Rightarrow> exc + (pystr \<times> (exc + pystr)) option" where
  "notice_entry line = Inr (if 61 \<in> set line \<and> notice_key (fst (split1 61 line))
     then Some (fst (split1 61 line), Inr (snd (split1 61 line))) else None)"

interpretation notice: unique_collector notice_entry
  "\<lambda>k. AuditError ''duplicate dependency notice field: {}'' [k]" notice_loop
  by unfold_locales (auto simp: notice_entry_def fail_def split_def Let_def)

definition property_entry :: "pystr \<Rightarrow> pystr \<Rightarrow> exc + (pystr \<times> (exc + pystr)) option" where
  "property_entry label line = (if 61 \<notin> set line then fail ''{} build.properties is malformed'' [label]
     else Inr (Some (fst (split1 61 line), Inr (snd (split1 61 line)))))"

interpretation properties: unique_collector "property_entry label"
  "\<lambda>k. AuditError ''duplicate {} build property: {}'' [label, k]" "properties_loop label" for label
  by unfold_locales (auto simp: property_entry_def fail_def split_def Let_def)

definition checksum_entry :: "pystr \<Rightarrow> exc + (pystr \<times> (exc + pystr)) option" where
  "checksum_entry line = (if line = [] then Inr None else (case checksum_line line of
       None \<Rightarrow> fail ''invalid SHA256SUMS line: {}'' [line]
     | Some (digest, name) \<Rightarrow> andThen (safe_member name) (\<lambda>_. Inr (Some (name, Inr digest)))))"

interpretation checksums: unique_collector checksum_entry
  "\<lambda>k. AuditError ''duplicate checksum entry: {}'' [k]" checksum_loop
  by unfold_locales
    (auto simp: checksum_entry_def fail_def andThen_def split: option.splits sum.splits)

subsection \<open>What the notice and the build properties say\<close>

text \<open>A line that carries a field: a key of the allowed characters, \<open>=\<close>, a value.\<close>

definition field_line :: "pystr \<Rightarrow> bool" where
  "field_line line \<longleftrightarrow> (\<exists>k v. line = k @ [61] @ v \<and> notice_key k)"

lemma notice_key_no_eq: "notice_key k \<Longrightarrow> 61 \<notin> set k"
  by (auto simp: notice_key_def list_all_iff is_digit_def)

lemma field_line_iff: "field_line line \<longleftrightarrow> 61 \<in> set line \<and> notice_key (fst (split1 61 line))"
proof
  assume "field_line line"
  then obtain k v where "line = k @ 61 # v" "notice_key k" by (auto simp: field_line_def)
  then show "61 \<in> set line \<and> notice_key (fst (split1 61 line))"
    using split1_append [OF notice_key_no_eq [of k], of v] by simp
next
  assume "61 \<in> set line \<and> notice_key (fst (split1 61 line))"
  then show "field_line line"
    using split1_rejoin [of 61 line] by (cases "split1 61 line") (auto simp: field_line_def)
qed

lemma notice_collected: "collected notice_entry ls = map (split1 61) (filter field_line ls)"
  by (induction ls) (auto simp: notice_entry_def field_line_iff)

lemma notice_entry_ok: "entry_ok notice_entry l"
  by (auto simp: entry_ok_def notice_entry_def)

lemma notice_fields_iff:
  "notice_fields data = Inr d \<longleftrightarrow> (\<exists>body. utf8_decode data = Inr body \<and>
     d = map (split1 61) (filter field_line (splitlines body)) \<and> distinct (map fst d))"
  by (auto simp: notice_fields_def notice.loop_iff notice_entry_ok notice_collected fail_def
      split: sum.splits)

lemma properties_entry_ok: "entry_ok (property_entry label) l \<longleftrightarrow> 61 \<in> set l"
  by (auto simp: entry_ok_def property_entry_def fail_def)

lemma properties_collected:
  "(\<And>l. l \<in> set ls \<Longrightarrow> 61 \<in> set l) \<Longrightarrow> collected (property_entry label) ls = map (split1 61) ls"
  by (induction ls) (auto simp: property_entry_def)

lemma parse_build_properties_iff:
  "parse_build_properties data label = Inr d \<longleftrightarrow> (\<exists>body. utf8_decode data = Inr body \<and>
     (\<forall>l \<in> set (splitlines body). 61 \<in> set l) \<and> d = map (split1 61) (splitlines body) \<and>
     distinct (map fst d))"
  by (auto simp: parse_build_properties_def properties.loop_iff properties_entry_ok
      properties_collected fail_def split: sum.splits)

subsection \<open>What SHA256SUMS says when it is accepted\<close>

definition sums_line :: "pystr \<times> bytes \<Rightarrow> pystr" where
  "sums_line m = sha256_bytes (snd m) @ [32, 32] @ fst m"

lemma checksum_line_eq:
  "checksum_line l = Some (d, n) \<longleftrightarrow>
     l = d @ [32, 32] @ n \<and> hex_id 64 d \<and> n \<noteq> [] \<and> 10 \<notin> set n \<and> 13 \<notin> set n"
proof
  assume c: "checksum_line l = Some (d, n)"
  then have d: "d = take 64 l" and n: "n = drop 66 l" and sp: "take 2 (drop 64 l) = [32, 32]"
    and rest: "hex_id 64 d \<and> n \<noteq> [] \<and> 10 \<notin> set n \<and> 13 \<notin> set n"
    by (auto simp: checksum_line_def Let_def split: if_splits)
  have "l = take 64 l @ take 2 (drop 64 l) @ drop 2 (drop 64 l)"
    by (simp only: append_take_drop_id)
  then have "l = d @ [32, 32] @ n" by (simp add: d n sp)
  with rest show "l = d @ [32, 32] @ n \<and> hex_id 64 d \<and> n \<noteq> [] \<and> 10 \<notin> set n \<and> 13 \<notin> set n"
    by blast
next
  assume l: "l = d @ [32, 32] @ n \<and> hex_id 64 d \<and> n \<noteq> [] \<and> 10 \<notin> set n \<and> 13 \<notin> set n"
  then have "length d = 64" by (simp add: hex_id_def)
  with l show "checksum_line l = Some (d, n)" by (simp add: checksum_line_def)
qed

lemma checksum_entry_ok:
  assumes "entry_ok checksum_entry l" and "l \<noteq> []"
  obtains d n where "checksum_entry l = Inr (Some (n, Inr d))" and "l = d @ [32, 32] @ n"
    and "safe_member n = Inr ()" and "hex_id 64 d"
proof -
  from assms obtain d n where dn: "checksum_line l = Some (d, n)" and "safe_member n = Inr ()"
    by (auto simp: entry_ok_def checksum_entry_def andThen_def fail_def
        split: sum.splits option.splits if_splits)
  moreover have "l = d @ [32, 32] @ n" "hex_id 64 d" using dn by (auto simp only: checksum_line_eq)
  ultimately show ?thesis using that [of n d] assms(2) by (simp add: checksum_entry_def)
qed

lemma checksum_entry_Nil [simp]: "checksum_entry [] = Inr None"
  by (simp add: checksum_entry_def)

lemma checksum_entry_line:
  assumes "hex_id 64 d" "safe_member n = Inr ()" "10 \<notin> set n" "13 \<notin> set n"
  shows "checksum_entry (d @ [32, 32] @ n) = Inr (Some (n, Inr d))"
proof -
  have "checksum_line (d @ [32, 32] @ n) = Some (d, n)"
    using assms by (simp only: checksum_line_eq) (simp add: res_simps)
  then show ?thesis using assms(2) by (simp add: checksum_entry_def)
qed

lemma checksums_collected:
  "(\<And>l. l \<in> set ls \<Longrightarrow> entry_ok checksum_entry l) \<Longrightarrow>
   map (\<lambda>(n, d). d @ [32, 32] @ n) (collected checksum_entry ls) = filter (\<lambda>l. l \<noteq> []) ls"
proof (induction ls)
  case (Cons l ls)
  then have ok: "entry_ok checksum_entry l" by simp
  show ?case
  proof (cases "l = []")
    case False
    with ok obtain d n where "checksum_entry l = Inr (Some (n, Inr d))" "l = d @ [32, 32] @ n"
      by (rule checksum_entry_ok)
    then show ?thesis using Cons by simp
  qed (use Cons in simp)
qed simp

lemma checksums_collected_safe:
  "(\<And>l. l \<in> set ls \<Longrightarrow> entry_ok checksum_entry l) \<Longrightarrow> n \<in> keys (collected checksum_entry ls) \<Longrightarrow>
   safe_member n = Inr ()"
proof -
  assume ok: "\<And>l. l \<in> set ls \<Longrightarrow> entry_ok checksum_entry l" and "n \<in> keys (collected checksum_entry ls)"
  then obtain l d where l: "l \<in> set ls" "checksum_entry l = Inr (Some (n, Inr d))"
    by (auto simp: keys_def collected_mem)
  then have "l \<noteq> []" by auto
  with ok [OF l(1)] l(2) show ?thesis by (auto elim: checksum_entry_ok)
qed

text \<open>The members other than \<open>SHA256SUMS\<close> itself.\<close>

definition other_members :: "(pystr, bytes) dict \<Rightarrow> (pystr, bytes) dict" where
  "other_members payloads = filter (\<lambda>m. fst m \<noteq> U ''SHA256SUMS'') payloads"

lemma mset_eq_of_map_of:
  assumes "distinct (map fst xs)" "distinct (map fst ys)" "map_of xs = map_of ys"
  shows "mset xs = mset ys"
proof -
  have "set xs = set ys"
    using assms by (metis map_of_eqI map_of_inject_set set_map)
  moreover have "distinct xs" "distinct ys" using assms by (auto simp: distinct_map)
  ultimately show ?thesis by (simp add: set_eq_iff_mset_eq_distinct)
qed

lemma other_members_facts:
  "distinct (map fst p) \<Longrightarrow> distinct (map fst (other_members p))"
  "keys (other_members p) = keys p - {U ''SHA256SUMS''}"
  "n \<noteq> U ''SHA256SUMS'' \<Longrightarrow> map_of (other_members p) n = map_of p n"
  by (auto simp: other_members_def keys_def distinct_map_filter intro: image_eqI)
    (induction p, auto)

lemma verify_checksums_sound:
  assumes d: "distinct (map fst payloads)" and v: "verify_checksums payloads = Inr u"
  shows "\<exists>data text. map_of payloads (U ''SHA256SUMS'') = Some data \<and> ascii_decode data = Inr text \<and>
    mset (filter (\<lambda>l. l \<noteq> []) (splitlines text)) = mset (map sums_line (other_members payloads)) \<and>
    (\<forall>n \<in> keys (other_members payloads). safe_member n = Inr ())"
proof -
  from v obtain data body listed where data: "map_of payloads (U ''SHA256SUMS'') = Some data"
    and body: "ascii_decode data = Inr body"
    and loop: "checksum_loop [] (splitlines body) = Inr listed"
    and ks: "keys listed = keys payloads - {U ''SHA256SUMS''}"
    and dig: "\<forall>m \<in> set listed. \<exists>c. map_of payloads (fst m) = Some c \<and> sha256_bytes c = snd m"
    by (auto simp: verify_checksums_def res_simps split_def split: option.splits sum.splits if_splits)
  have ok: "\<And>l. l \<in> set (splitlines body) \<Longrightarrow> entry_ok checksum_entry l"
    and listed: "listed = collected checksum_entry (splitlines body)"
    and dl: "distinct (map fst listed)"
    using loop by (auto simp: checksums.loop_iff)
  let ?o = "map (\<lambda>(n, c). (n, sha256_bytes c)) (other_members payloads)"
  have "map_of listed n = map_of ?o n" for n
  proof (cases "n \<in> keys listed")
    case True
    then obtain h where h: "map_of listed n = Some h" by (auto simp: keys_iff_Some)
    then obtain c where "map_of payloads n = Some c" "sha256_bytes c = h"
      using dig map_of_SomeD by fastforce
    moreover have "n \<noteq> U ''SHA256SUMS''" using True ks by simp
    ultimately show ?thesis using h other_members_facts(3) [of n payloads]
      by (simp add: map_of_map)
  next
    case False
    then have "map_of listed n = None" "map_of (other_members payloads) n = None"
      using ks other_members_facts(2) [of payloads] by (auto simp: keys_eq_dom)
    then show ?thesis by (simp add: map_of_map)
  qed
  then have "mset listed = mset ?o"
    using dl other_members_facts(1) [OF d] by (intro mset_eq_of_map_of) (auto simp: o_def split_def)
  then have "mset (map (\<lambda>(n, d). d @ [32, 32] @ n) listed) = mset (map sums_line (other_members payloads))"
    by (simp add: sums_line_def [abs_def] multiset.map_comp o_def split_def)
  moreover have "map (\<lambda>(n, d). d @ [32, 32] @ n) listed = filter (\<lambda>l. l \<noteq> []) (splitlines body)"
    using checksums_collected ok listed by blast
  moreover have "\<forall>n \<in> keys (other_members payloads). safe_member n = Inr ()"
    using checksums_collected_safe ok listed ks other_members_facts(2) by metis
  ultimately have "mset (filter (\<lambda>l. l \<noteq> []) (splitlines body)) =
      mset (map sums_line (other_members payloads)) \<and>
      (\<forall>n \<in> keys (other_members payloads). safe_member n = Inr ())"
    by (simp only: simp_thms)
  then show ?thesis using data body by blast
qed

lemma sums_line_parts [simp]: "drop 66 (sums_line m) = fst m" "sums_line m \<noteq> []"
proof -
  have "length (sha256_bytes (snd m)) = 64" using sha256_hex_id [of "snd m"] by (simp add: hex_id_def)
  then show "drop 66 (sums_line m) = fst m" "sums_line m \<noteq> []" by (auto simp: sums_line_def)
qed

lemma sums_line_entry:
  assumes "sums_line m \<in> set (splitlines body)" and "safe_member (fst m) = Inr ()"
  shows "checksum_entry (sums_line m) = Inr (Some (fst m, Inr (sha256_bytes (snd m))))"
proof -
  have "\<not> is_linebreak c" if "c \<in> set (fst m)" for c
    using splitlines_no_break [OF assms(1)] that by (simp add: sums_line_def)
  then have "10 \<notin> set (fst m)" "13 \<notin> set (fst m)" by (auto simp: is_linebreak_def)
  then show ?thesis
    unfolding sums_line_def using sha256_hex_id assms(2) by (intro checksum_entry_line) auto
qed

lemma verify_checksums_complete:
  assumes d: "distinct (map fst payloads)"
    and data: "map_of payloads (U ''SHA256SUMS'') = Some data" and body: "ascii_decode data = Inr body"
    and ls: "mset (filter (\<lambda>l. l \<noteq> []) (splitlines body)) = mset (map sums_line (other_members payloads))"
    and safe: "\<forall>n \<in> keys (other_members payloads). safe_member n = Inr ()"
  shows "verify_checksums payloads = Inr ()"
proof -
  let ?F = "filter (\<lambda>l. l \<noteq> []) (splitlines body)"
  let ?e = "collected checksum_entry (splitlines body)"
  have line: "\<exists>m \<in> set (other_members payloads).
      checksum_entry l = Inr (Some (fst m, Inr (sha256_bytes (snd m))))"
    if "l \<in> set (splitlines body)" "l \<noteq> []" for l
  proof -
    have "l \<in> set ?F" using that by simp
    then have "l \<in> sums_line ` set (other_members payloads)"
      using mset_eq_setD [OF ls] by (simp only: set_map)
    then obtain m where m: "m \<in> set (other_members payloads)" "l = sums_line m" by blast
    then show ?thesis using that safe sums_line_entry [of m body] by (auto simp: keys_def)
  qed
  have ok: "entry_ok checksum_entry l" if "l \<in> set (splitlines body)" for l
    using line [OF that] by (cases "l = []") (auto simp: entry_ok_def)
  have mem: "\<exists>m \<in> set (other_members payloads). n = fst m \<and> h = sha256_bytes (snd m)"
    if "(n, h) \<in> set ?e" for n h
  proof -
    from that obtain l where l: "l \<in> set (splitlines body)" "checksum_entry l = Inr (Some (n, Inr h))"
      by (auto simp: collected_mem)
    then show ?thesis using line [OF l(1)] by (cases "l = []") auto
  qed
  have "length h = 64" if "(n, h) \<in> set ?e" for n h
    using mem [OF that] sha256_hex_id by (auto simp: hex_id_def)
  moreover have "?F = map (\<lambda>(n, h). h @ [32, 32] @ n) ?e"
    using checksums_collected [of "splitlines body"] ok by simp
  ultimately have "map (drop 66) ?F = map fst ?e" by (auto simp: o_def split_def)
  moreover have "mset (map (drop 66) ?F) = mset (map fst (other_members payloads))"
    unfolding mset_map ls by (simp add: multiset.map_comp o_def)
  ultimately have names: "mset (map fst ?e) = mset (map fst (other_members payloads))"
    by simp
  then have "distinct (map fst ?e)"
    using other_members_facts(1) [OF d] mset_eq_imp_distinct_iff [OF names] by simp
  then have loop: "checksum_loop [] (splitlines body) = Inr ?e"
    using ok by (auto simp: checksums.loop_iff)
  have ks: "keys ?e = keys payloads - {U ''SHA256SUMS''}"
    using mset_eq_setD [OF names] other_members_facts(2) by (simp add: keys_set_map)
  have "\<exists>c. map_of payloads n = Some c \<and> sha256_bytes c = h" if "(n, h) \<in> set ?e" for n h
    using mem [OF that] d by (auto simp: other_members_def)
  then show ?thesis
    using data body loop ks by (auto simp: verify_checksums_def res_simps)
qed

lemma sums_line_chars:
  "c \<in> set (sums_line m) \<Longrightarrow> (\<And>x. x \<in> set (fst m) \<Longrightarrow> \<not> is_linebreak x \<and> x < 128) \<Longrightarrow>
   \<not> is_linebreak c \<and> c < 128"
  using hex_id_chars [OF sha256_hex_id [of "snd m"], of c] is_lower_hex_not_break [of c]
  by (auto simp: sums_line_def is_linebreak_def)

subsection \<open>Properties\<close>


text \<open>C23. \<open>notice_fields\<close> returns a dictionary exactly when the notice is UTF-8 and the
  dictionary, printed as \<open>key=value\<close>, is all the field lines of the notice in their order,
  with no key twice: a key has one value, and nothing of a value is lost.\<close>

theorem notice_fields_exact:
  "notice_fields data = Inr d \<longleftrightarrow> (\<exists>body. utf8_decode data = Inr body \<and>
     map (\<lambda>(k, v). k @ [61] @ v) d = filter field_line (splitlines body) \<and>
     distinct (map fst d) \<and> list_all notice_key (map fst d))"
proof -
  let ?print = "\<lambda>(k, v). k @ [61] @ v"
  have a: "?print (split1 61 l) = l \<and> notice_key (fst (split1 61 l))" if "field_line l" for l
    using that split1_rejoin [of 61 l] by (cases "split1 61 l") (auto simp: field_line_iff)
  have "d = map (split1 61) fs \<longleftrightarrow> map ?print d = fs \<and> list_all notice_key (map fst d)"
    if fs: "list_all field_line fs" for fs
  proof
    assume "d = map (split1 61) fs"
    then show "map ?print d = fs \<and> list_all notice_key (map fst d)"
      using a fs by (auto simp: list_all_iff intro!: map_idI)
  next
    assume *: "map ?print d = fs \<and> list_all notice_key (map fst d)"
    have "split1 61 (?print kv) = kv" if "kv \<in> set d" for kv
      using that * split1_append [OF notice_key_no_eq, of "fst kv" "snd kv"]
      by (auto simp: list_all_iff split_def)
    then have "map (split1 61) (map ?print d) = d" by (auto intro!: map_idI)
    then show "d = map (split1 61) fs" using * by metis
  qed
  then have "d = map (split1 61) (filter field_line ls) \<longleftrightarrow>
      map ?print d = filter field_line ls \<and> list_all notice_key (map fst d)" for ls
    by (simp add: list_all_iff)
  then show ?thesis unfolding notice_fields_iff by blast
qed

text \<open>C21. \<open>verify_checksums\<close> accepts an archive exactly when \<open>SHA256SUMS\<close> is present and ASCII,
  its non-blank lines are, in some order and each once, the SHA-256 digest and the name of
  every other member, and every one of those names is safe. So a listed digest that is wrong,
  a member left out, a line too many and a repeated line are all refused.\<close>

theorem verify_checksums_exact:
  assumes "distinct (map fst payloads)"
  shows "verify_checksums payloads = Inr () \<longleftrightarrow>
    (\<exists>data body. map_of payloads (U ''SHA256SUMS'') = Some data \<and> ascii_decode data = Inr body \<and>
       mset (filter (\<lambda>l. l \<noteq> []) (splitlines body)) = mset (map sums_line (other_members payloads)) \<and>
       (\<forall>n \<in> keys (other_members payloads). safe_member n = Inr ()))"
  using verify_checksums_sound [OF assms] verify_checksums_complete [OF assms] by blast

definition sample_sums :: "(pystr, bytes) dict" where
  "sample_sums = [(U ''README.md'', B ''text''),
     (U ''SHA256SUMS'', ascii_encode (sums_line (U ''README.md'', B ''text'') @ [10]))]"

theorem verify_checksums_exact_witness: "verify_checksums sample_sums = Inr ()"
proof -
  let ?l = "sums_line (U ''README.md'', B ''text'')"
  have c: "\<not> is_linebreak c \<and> c < 128" if "c \<in> set ?l" for c
    by (rule sums_line_chars [OF that]) (auto simp: U_Cons is_linebreak_def)
  then have "ascii_decode (ascii_encode (?l @ [10])) = Inr (?l @ [10])"
    by (intro ascii_decode_encode) auto
  moreover have "splitlines (?l @ [10]) = [?l]"
    using splitlines_line [of ?l "[]"] c by simp
  ultimately have "\<exists>data body. map_of sample_sums (U ''SHA256SUMS'') = Some data \<and>
       ascii_decode data = Inr body \<and>
       mset (filter (\<lambda>l. l \<noteq> []) (splitlines body)) = mset (map sums_line (other_members sample_sums)) \<and>
       (\<forall>n \<in> keys (other_members sample_sums). safe_member n = Inr ())"
    by (auto simp: sample_sums_def other_members_def U_Cons res_simps startswith_def posix_parts_def)
  moreover have "distinct (map fst sample_sums)" by (simp add: sample_sums_def)
  ultimately show ?thesis using verify_checksums_exact [of sample_sums] by blast
qed

end
