(* ===== verification/AuditManifest.thy ===== *)
theory AuditManifest
  imports AuditRecords
begin

unbundle bit_operations_syntax

section \<open>Manifest, evidence and provenance of a binary archive\<close>

text \<open>
  The checks of \<open>audit-artifact.py\<close> on the payloads of a platform archive: the manifest and
  its inventory, the list of expected members, the audit evidence of each program, file modes,
  and the provenance records of Android and Linux builds. A manifest is the JSON object that
  \<open>parse_json\<close> returns; values compare with Python's \<open>==\<close>.
\<close>

subsection \<open>Programs and members\<close>

definition program_names :: "pystr \<Rightarrow> pystr list" where
  "program_names platform =
     (let suffix = (if is_windows platform then U ''.exe'' else [])
      in map (\<lambda>name. name @ suffix) [U ''sianod'', U ''sianoctl'', U ''siano-ts''])"

definition binary_evidence_name :: "pystr \<Rightarrow> pystr" where
  "binary_evidence_name binary =
     (let program = removesuffix binary (U ''.exe'')
      in if program = U ''siano-ts'' then U ''evidence/binary-audit.json''
         else U ''evidence/'' @ program @ U ''-binary-audit.json'')"

definition expected_members :: "pystr \<Rightarrow> pystr set res" where
  "expected_members platform =
     (if platform \<notin> PACKAGE_PLATFORMS then fail ''platform is not packageable: {}'' [platform]
      else
      let base = COMMON \<union> set (program_names platform)
                 \<union> binary_evidence_name ` set (program_names platform)
      in Inr (if is_linux platform then
           base \<union> {U ''libusb/COPYING'', U ''evidence/build.properties''} \<union> LINUX_MDEV
             \<union> keys LINUX_RUNTIME_LICENSE_SHA256
         else if is_darwin platform then
           base \<union> {U ''libusb/COPYING'', U ''evidence/build.properties''}
         else if is_android platform then
           base \<union> {U ''libusb/COPYING'', U ''libusb/libusb-'' @ LIBUSB_VERSION @ U ''.tar.bz2'',
             U ''evidence/static-link-inventory.tsv'', U ''evidence/build.properties'',
             U ''evidence/ndk/source.properties'', U ''evidence/ndk/NOTICE'',
             U ''evidence/ndk/NOTICE.toolchain'',
             U ''evidence/sianod-static-link-inventory.tsv'',
             U ''evidence/sianoctl-static-link-inventory.tsv''}
         else if is_windows platform then
           base \<union> {U ''libusb/COPYING'', U ''libusb/NOTICE.txt'', U ''libusb-1.0.dll''}
         else base))"

subsection \<open>The manifest\<close>

definition str_obj :: "(string \<times> pystr) list \<Rightarrow> json" where
  "str_obj kvs = JObj (map (\<lambda>(k, v). (U k, JStr v)) kvs)"

text \<open>\<open>for key, value in expected.items(): if d.get(key) != value: fail(...)\<close>\<close>

definition check_metadata ::
  "string \<Rightarrow> (string \<times> pystr) list \<Rightarrow> (pystr, json) dict \<Rightarrow> unit res" where
  "check_metadata msg expected d =
     forE (\<lambda>(k, v). if \<not> py_eq (jget d (U k)) (JStr v) then fail msg [U k] else Inr ()) expected"

definition check_fields ::
  "string \<Rightarrow> (string \<times> pystr) list \<Rightarrow> (pystr, pystr) dict \<Rightarrow> unit res" where
  "check_fields msg expected fs =
     forE (\<lambda>(k, v). if map_of fs (U k) \<noteq> Some v then fail msg [U k] else Inr ()) expected"

definition exact_firmware_fields :: "(pystr, pystr) dict \<Rightarrow> unit res" where
  "exact_firmware_fields fs =
     check_fields ''dependency notice field mismatch: {}''
       [(''firmware.url'', FIRMWARE_URL), (''firmware.sha256'', FIRMWARE_SHA256),
        (''firmware.license.url'', FIRMWARE_LICENSE_URL),
        (''firmware.license.sha256'', FIRMWARE_LICENSE_SHA256)] fs"

definition valid_record :: "json \<Rightarrow> bool" where
  "valid_record rec = (case rec of
       JObj r \<Rightarrow> keys r = {U ''size'', U ''sha256''} \<and>
         is_exact_int (jget r (U ''size'')) \<and> int_of (jget r (U ''size'')) \<ge> 0 \<and>
         is_str (jget r (U ''sha256'')) \<and> hex_id 64 (str_of (jget r (U ''sha256'')))
     | _ \<Rightarrow> False)"

definition verify_record ::
  "(pystr, bytes) dict \<Rightarrow> (pystr, json) dict \<Rightarrow> pystr \<Rightarrow> unit res" where
  "verify_record payloads inventory name =
     andThen (get_item inventory name (KeyError name)) (\<lambda>rec.
       if \<not> valid_record rec then fail ''invalid manifest record: {}'' [name]
       else andThen (get_item payloads name (KeyError name)) (\<lambda>data.
         let r = obj_items rec in
         if int_of (jget r (U ''size'')) \<noteq> int (length data) \<or>
            str_of (jget r (U ''sha256'')) \<noteq> sha256_bytes data
         then fail ''manifest record mismatch: {}'' [name]
         else Inr ()))"

definition firmware_record :: json where
  "firmware_record = str_obj [(''url'', FIRMWARE_URL), (''sha256'', FIRMWARE_SHA256),
     (''license_url'', FIRMWARE_LICENSE_URL), (''license_sha256'', FIRMWARE_LICENSE_SHA256)]"

text \<open>The part of the manifest that depends on the platform, checked last.\<close>

definition verify_platform_libusb :: "(pystr, json) dict \<Rightarrow> pystr \<Rightarrow> unit res" where
  "verify_platform_libusb manifest platform =
     (if is_linux platform then
        (if \<not> py_eq (jget manifest (U ''libusb''))
              (str_obj [(''version'', LIBUSB_VERSION), (''source_ref'', LIBUSB_SOURCE_URL),
                (''source_sha256'', LIBUSB_SOURCE_SHA256), (''linkage'', U ''static''),
                (''udev'', U ''disabled''), (''backend'', U ''netlink'')])
         then fail ''manifest Linux libusb provenance/linkage mismatch'' [] else Inr ())
      else if is_darwin platform then
        andThen (check_metadata ''macOS manifest metadata mismatch: {}''
            [(''architecture'', U ''arm64''), (''libc'', U ''darwin''), (''linkage'', U ''static'')] manifest)
          (\<lambda>_. if \<not> py_eq (jget manifest (U ''libusb''))
              (str_obj [(''version'', LIBUSB_VERSION), (''source_ref'', LIBUSB_SOURCE_URL),
                (''source_sha256'', LIBUSB_SOURCE_SHA256), (''linkage'', U ''static''),
                (''backend'', U ''darwin'')])
            then fail ''manifest macOS libusb provenance/linkage mismatch'' [] else Inr ())
      else if is_android platform \<or> is_windows platform then
        andThen (if is_android platform
                 then andThen (get_item ANDROID_ABI_METADATA platform (KeyError platform)) (\<lambda>m. Inr (abi m))
                 else Inr (U ''x86_64'')) (\<lambda>architecture.
        let linkage = (if is_android platform then U ''static'' else U ''dynamic'');
            libc = (if is_android platform then U ''bionic'' else U ''windows'') in
        andThen (check_metadata ''manifest metadata mismatch: {}''
            [(''architecture'', architecture), (''linkage'', linkage), (''libc'', libc)] manifest) (\<lambda>_.
        let libusb = jget manifest (U ''libusb''); l = obj_items libusb in
        if \<not> is_obj libusb \<or> \<not> py_eq (jget l (U ''version'')) (JStr LIBUSB_VERSION) \<or>
           \<not> py_eq (jget l (U ''source_ref'')) (JStr LIBUSB_SOURCE_URL) \<or>
           \<not> py_eq (jget l (U ''source_sha256'')) (JStr LIBUSB_SOURCE_SHA256) \<or>
           \<not> py_eq (jget l (U ''linkage'')) (JStr linkage)
        then fail ''manifest libusb provenance mismatch'' []
        else if is_windows platform \<and>
           \<not> py_eq (jget l (U ''package_sha256'')) (JStr WINDOWS_LIBUSB_PACKAGE_SHA256)
        then fail ''manifest Windows libusb package provenance mismatch'' []
        else Inr ()))
      else Inr ())"

definition get_default :: "(pystr, bytes) dict \<Rightarrow> pystr \<Rightarrow> bytes" where
  "get_default payloads name = (case map_of payloads name of None \<Rightarrow> [] | Some d \<Rightarrow> d)"

definition verify_manifest :: "(pystr, bytes) dict \<Rightarrow> pystr \<Rightarrow> (pystr, json) dict res" where
  "verify_manifest payloads platform =
     andThen (parse_json (get_default payloads (U ''manifest.json'')) (U ''manifest.json'')) (\<lambda>doc.
     let manifest = obj_items doc; version = jget manifest (U ''version'');
         source_ref = jget manifest (U ''source_ref'') in
     if \<not> is_obj doc \<or> \<not> py_eq (jget manifest (U ''schema'')) (JInt 1) \<or>
        \<not> py_eq (jget manifest (U ''platform'')) (JStr platform)
     then fail ''manifest schema/platform mismatch'' []
     else if \<not> is_str version then fail ''manifest version is missing'' []
     else
     andThen (validate_version (str_of version)) (\<lambda>_.
     if \<not> is_str source_ref then fail ''manifest source_ref is missing'' []
     else
     andThen (validate_source_ref (str_of source_ref)) (\<lambda>_.
     andThen (case map_of LINUX_ARCHITECTURES platform of
         None \<Rightarrow> Inr ()
       | Some architecture \<Rightarrow> check_metadata ''Linux static manifest metadata mismatch: {}''
           [(''architecture'', architecture), (''libc'', U ''none''), (''build_libc'', U ''musl''),
            (''linkage'', U ''static'')] manifest) (\<lambda>_.
     if \<not> py_eq (jget manifest (U ''programs'')) (JArr (map JStr (program_names platform)))
     then fail ''manifest program list is wrong'' []
     else
     let inventory = jget manifest (U ''files'');
         expected = filter (\<lambda>n. n \<noteq> U ''manifest.json'' \<and> n \<noteq> U ''SHA256SUMS'') (map fst payloads) in
     if \<not> is_obj inventory then fail ''manifest files inventory is missing'' []
     else if keys (obj_items inventory) \<noteq> set expected
     then fail ''manifest files inventory does not match archived payload'' []
     else
     andThen (forE (verify_record payloads (obj_items inventory)) (sort expected)) (\<lambda>_.
     if \<not> py_eq (jget manifest (U ''firmware'')) firmware_record
     then fail ''manifest firmware provenance mismatch'' []
     else
     andThen (verify_platform_libusb manifest platform) (\<lambda>_. Inr manifest))))))"

subsection \<open>Evidence and modes\<close>

definition evidence_record :: "json \<Rightarrow> json \<Rightarrow> pystr \<Rightarrow> bytes \<Rightarrow> json" where
  "evidence_record platform source_ref binary_name data =
     JObj [(U ''schema'', JInt 2), (U ''platform'', platform), (U ''source_ref'', source_ref),
       (U ''binary'', str_obj [(''name'', binary_name), (''sha256'', sha256_bytes data)])]"

definition verify_binary_evidence ::
  "(pystr, bytes) dict \<Rightarrow> (pystr, json) dict \<Rightarrow> pystr \<Rightarrow> unit res" where
  "verify_binary_evidence payloads manifest binary_name =
     andThen (get_item manifest (U ''platform'') (KeyError (U ''platform''))) (\<lambda>platform.
     let evidence_name = binary_evidence_name binary_name in
     andThen (parse_json (get_default payloads evidence_name) evidence_name) (\<lambda>evidence.
     andThen (get_item manifest (U ''source_ref'') (KeyError (U ''source_ref''))) (\<lambda>source_ref.
     andThen (get_item payloads binary_name (KeyError binary_name)) (\<lambda>data.
       if \<not> py_eq evidence (evidence_record platform source_ref binary_name data)
       then fail ''binary audit evidence is not bound to the archived binary/platform'' []
       else Inr ()))))"

definition verify_binary_archive_mode :: "(pystr, nat) dict \<Rightarrow> pystr \<Rightarrow> pystr \<Rightarrow> unit res" where
  "verify_binary_archive_mode modes binary_name platform =
     (if is_windows platform then Inr ()
      else (case map_of modes binary_name of
          None \<Rightarrow> fail ''{} archive binary is not executable: {}'' [platform, binary_name]
        | Some mode \<Rightarrow>
            if mode AND 0x49 = 0
            then fail ''{} archive binary is not executable: {}'' [platform, binary_name]
            else Inr ()))"

text \<open>The interpolations \<open>{mode!r}\<close> and \<open>{expected:o}\<close>.\<close>

definition mode_repr :: "nat option \<Rightarrow> pystr" where
  "mode_repr mode = (case mode of None \<Rightarrow> U ''None'' | Some m \<Rightarrow> str_nat m)"

fun octal :: "nat \<Rightarrow> pystr" where
  "octal n = (if n < 8 then [48 + n] else octal (n div 8) @ [48 + n mod 8])"

definition verify_linux_mdev_modes :: "(pystr, nat) dict \<Rightarrow> pystr \<Rightarrow> unit res" where
  "verify_linux_mdev_modes modes platform =
     (if \<not> is_linux platform then Inr ()
      else forE (\<lambda>(name, expected).
          if map_of modes name \<noteq> Some expected
          then fail ''{} mdev file has mode {}, expected {}: {}''
            [platform, mode_repr (map_of modes name), octal expected, name]
          else Inr ())
        [(U ''mdev/siano-ts-mdev.conf'', 0x1A4), (U ''mdev/siano-ts-mdev.sh'', 0x1ED),
         (U ''mdev/siano-ts-mdev.start'', 0x1ED)])"

subsection \<open>Android\<close>

text \<open>
  \<open>verify_android_provenance\<close> for a named program, as \<open>audit_binary_archive\<close> calls it (the
  call without a program is used only by the self test).
\<close>

definition inventory_row :: "(pystr \<times> pystr \<times> pystr) list \<Rightarrow> pystr \<Rightarrow> (pystr \<times> pystr \<times> pystr) list res" where
  "inventory_row seen row = (case split_on 9 row of
       [category, archive, member] \<Rightarrow>
         if (category, archive, member) \<in> set seen
         then fail ''Android static-link inventory is malformed or duplicated'' []
         else if category \<notin> {U ''libusb'', U ''ndk-runtime'', U ''project''} \<or>
                 \<not> endswith archive (U ''.a'') \<or> member = []
         then fail ''Android static-link inventory contains an unclassified archive'' []
         else Inr (seen @ [(category, archive, member)])
     | _ \<Rightarrow> fail ''Android static-link inventory is malformed or duplicated'' [])"

definition inventory_header :: pystr where
  "inventory_header = U ''category'' @ [9] @ U ''archive'' @ [9] @ U ''member''"

definition verify_inventory :: "pystr \<Rightarrow> pystr \<Rightarrow> unit res" where
  "verify_inventory program inventory =
     (let rows = splitlines inventory in
      if rows = [] \<or> hd rows \<noteq> inventory_header
      then fail ''Android static-link inventory header is invalid'' []
      else andThen (foldE inventory_row [] (tl rows)) (\<lambda>seen.
        if program = U ''sianod'' \<and>
           \<not> list_ex (\<lambda>(c, a, m). c = U ''libusb'' \<and> a = U ''libusb-1.0.a'') seen
        then fail ''Android static-link inventory has no libusb archive'' []
        else Inr ()))"

fun android_properties :: "(pystr, pystr) dict \<Rightarrow> pystr list \<Rightarrow> (pystr, pystr) dict res" where
  "android_properties property_map [] = Inr property_map"
| "android_properties property_map (line # lines) =
     (if 61 \<notin> set line then fail ''Android build.properties is malformed'' []
      else (let (key, value) = split1 61 line in
        if key \<in> keys property_map then fail ''duplicate Android property: {}'' [key]
        else android_properties (property_map @ [(key, value)]) lines))"

definition get_str :: "(pystr, pystr) dict \<Rightarrow> string \<Rightarrow> pystr" where
  "get_str d k = (case map_of d (U k) of None \<Rightarrow> [] | Some v \<Rightarrow> v)"

definition inventory_name :: "pystr \<Rightarrow> pystr" where
  "inventory_name program =
     (if program = U ''siano-ts'' then U ''evidence/static-link-inventory.tsv''
      else U ''evidence/'' @ program @ U ''-static-link-inventory.tsv'')"

definition verify_ndk_files ::
  "(pystr, bytes) dict \<Rightarrow> (pystr, pystr) dict \<Rightarrow> (pystr, pystr) dict \<Rightarrow> unit res" where
  "verify_ndk_files payloads fs property_map =
     forE (\<lambda>(name, field, property_name).
         andThen (get_item payloads (U name) (KeyError (U name))) (\<lambda>data.
           let digest = sha256_bytes data in
           if map_of fs (U field) \<noteq> Some digest \<or> map_of property_map (U property_name) \<noteq> Some digest
           then fail ''Android NDK provenance mismatch: {}'' [U name] else Inr ()))
       [(''evidence/ndk/source.properties'', ''ndk.source_properties.sha256'', ''ndk_source_properties_sha256''),
        (''evidence/ndk/NOTICE'', ''ndk.notice.sha256'', ''ndk_notice_sha256''),
        (''evidence/ndk/NOTICE.toolchain'', ''ndk.notice_toolchain.sha256'', ''ndk_notice_toolchain_sha256'')]"

definition verify_android_provenance ::
  "(pystr, bytes) dict \<Rightarrow> (pystr, pystr) dict \<Rightarrow> pystr \<Rightarrow> pystr \<Rightarrow> unit res" where
  "verify_android_provenance payloads fs platform program =
     andThen (get_item payloads (inventory_name program) (KeyError (inventory_name program))) (\<lambda>raw.
     andThen (utf8_decode raw) (\<lambda>inventory.
     andThen (verify_inventory program inventory) (\<lambda>_.
     andThen (get_item payloads (U ''evidence/build.properties'') (KeyError (U ''evidence/build.properties''))) (\<lambda>raw.
     andThen (utf8_decode raw) (\<lambda>properties.
     andThen (android_properties [] (splitlines properties)) (\<lambda>property_map.
     case map_of ANDROID_ABI_METADATA platform of
       None \<Rightarrow> fail ''unsupported Android platform: {}'' [platform]
     | Some metadata \<Rightarrow>
       if map_of property_map (U ''android_api'') \<noteq> Some (U ''24'') \<or>
          map_of property_map (U ''android_abi'') \<noteq> Some (abi metadata) \<or>
          \<not> startswith (get_str property_map ''ndk_revision'') (U ''27.'') \<or>
          map_of property_map (U ''libusb_version'') \<noteq> Some LIBUSB_VERSION \<or>
          map_of property_map (U ''libusb_source_url'') \<noteq> Some LIBUSB_SOURCE_URL \<or>
          map_of property_map (U ''libusb_source_sha256'') \<noteq> Some LIBUSB_SOURCE_SHA256
       then fail ''Android build properties do not record the required ABI/API/NDK/libusb provenance'' []
       else
       andThen (get_item property_map (U ''ndk_revision'') (KeyError (U ''ndk_revision''))) (\<lambda>revision.
       if map_of fs (U ''ndk_revision'') \<noteq> Some revision
       then fail ''Android notice NDK revision mismatch'' []
       else
       andThen (verify_ndk_files payloads fs property_map) (\<lambda>_.
       andThen (get_item payloads (U ''evidence/ndk/source.properties'')
           (KeyError (U ''evidence/ndk/source.properties''))) (\<lambda>raw.
       andThen (utf8_decode raw) (\<lambda>source_properties.
         if \<not> contains source_properties (U ''Pkg.Revision = '' @ revision)
         then fail ''Android NDK source.properties does not match build.properties'' []
         else Inr ())))))))))) "

subsection \<open>Linux\<close>

definition verify_linux_runtime_provenance ::
  "(pystr, bytes) dict \<Rightarrow> (pystr, nat) dict \<Rightarrow> (pystr, pystr) dict \<Rightarrow> (pystr, pystr) dict \<Rightarrow> unit res" where
  "verify_linux_runtime_provenance payloads modes properties fs =
     andThen (forE (\<lambda>(name, expected).
         andThen (get_item payloads name (KeyError name)) (\<lambda>data.
           if sha256_bytes data \<noteq> expected \<or> map_of modes name \<noteq> Some 0x1A4
           then fail ''Linux runtime license is missing/altered: {}'' [name] else Inr ()))
       LINUX_RUNTIME_LICENSE_SHA256) (\<lambda>_.
     andThen (forE (\<lambda>key.
         if get_str properties key = [] \<or> get_str properties key = U ''unknown''
         then fail ''Linux runtime provenance missing: {}'' [U key] else Inr ())
       [''compiler_path'', ''compiler_version'', ''compiler_target'', ''musl_package'',
        ''libc_archive_owner'', ''libgcc_archive_owner'', ''libstdcxx_archive_owner'']) (\<lambda>_.
     if \<not> endswith (get_str properties ''compiler_target'') (U ''musl'') \<or>
        \<not> startswith (get_str properties ''musl_package'') (U ''musl-1.2.5-r'') \<or>
        \<not> startswith (get_str properties ''libc_archive_owner'') (U ''musl-dev-1.2.5-r'') \<or>
        map_of properties (U ''libstdcxx'') \<noteq> Some (U ''static'')
     then fail ''Linux runtime provenance does not match the selected static inputs'' []
     else
     andThen (forE (\<lambda>(key, path_key).
         if \<not> startswith (get_str properties path_key) (U ''/'') \<or>
            \<not> hex_id 64 (get_str properties (key @ ''_sha256''))
         then fail ''Linux runtime path/hash invalid: {}'' [U key] else Inr ())
       [(''compiler'', ''compiler_path''), (''libc_archive'', ''libc_archive''),
        (''libgcc_archive'', ''libgcc_archive''), (''libstdcxx_archive'', ''libstdcxx_archive'')]) (\<lambda>_.
     andThen (forE (\<lambda>(notice, property_name).
         andThen (get_item properties (U property_name) (KeyError (U property_name))) (\<lambda>value.
           if map_of fs (U notice) \<noteq> Some value
           then fail ''Linux runtime notice mismatch: {}'' [U notice] else Inr ()))
       [(''dependency.libc.version'', ''musl_package''),
        (''dependency.compiler.version'', ''compiler_version''),
        (''dependency.compiler.target'', ''compiler_target''),
        (''dependency.runtime.version'', ''libgcc_archive_owner''),
        (''dependency.libstdcxx.version'', ''libstdcxx_archive_owner'')]) (\<lambda>_.
     if map_of fs (U ''runtime-license-members'') \<noteq>
          Some (join [44] (sort (map fst LINUX_RUNTIME_LICENSE_SHA256)))
     then fail ''Linux runtime license notice inventory mismatch'' []
     else Inr ()))))"

end
