(* ===== verification/PortableExecutable.thy ===== *)
theory PortableExecutable
  imports PyText
begin

section \<open>Windows executables\<close>

text \<open>
  The PE32+ audit of \<open>audit-artifact.py\<close>: \<open>_pe_rva_to_file_offset\<close>, \<open>_pe_debug_types\<close> and
  \<open>audit_pe_x64_bytes\<close>, on the bytes of the file. Offsets are unbounded as in Python; a
  slice past the end of the data is shorter, and \<open>struct.unpack_from\<close> past the end raises.
\<close>

subsection \<open>Reading fields\<close>

definition pyslice :: "'a list \<Rightarrow> nat \<Rightarrow> nat \<Rightarrow> 'a list" where
  "pyslice data a b = take (b - a) (drop a data)"

definition from_le :: "bytes \<Rightarrow> nat" where
  "from_le bs = foldr (\<lambda>b n. unat b + 256 * n) bs 0"

definition le_at :: "bytes \<Rightarrow> nat \<Rightarrow> nat \<Rightarrow> nat" where
  "le_at data a width = from_le (pyslice data a (a + width))"

text \<open>One field of \<open>struct.unpack_from\<close> with a little-endian format.\<close>

definition unpack_le :: "nat \<Rightarrow> bytes \<Rightarrow> nat \<Rightarrow> nat res" where
  "unpack_le width data offset =
     (if offset + width \<le> length data then Inr (le_at data offset width)
      else Inl StructError)"

lemma length_pyslice [simp]: "length (pyslice data a b) = min (b - a) (length data - a)"
  by (simp add: pyslice_def)

lemma from_le_bound: "from_le bs < 256 ^ length bs"
proof (induction bs)
  case (Cons b bs)
  have "unat b < 256" using unsigned_less [of b] by simp
  with Cons show ?case by (simp add: from_le_def)
qed (simp add: from_le_def)

lemma unpack_le_eq_Inr [res_simps]:
  "unpack_le w data off = Inr n \<longleftrightarrow> off + w \<le> length data \<and> n = le_at data off w"
  by (auto simp: unpack_le_def)

subsection \<open>The audit\<close>

record pe_section =
  virtual_address :: nat
  virtual_size :: nat
  raw_size :: nat
  raw_offset :: nat

fun pe_rva_to_file_offset :: "bytes \<Rightarrow> nat \<Rightarrow> pe_section list \<Rightarrow> pystr \<Rightarrow> nat res" where
  "pe_rva_to_file_offset data rva [] label =
     fail ''Windows PE RVA is not backed by file data: {}'' [label]"
| "pe_rva_to_file_offset data rva (s # sections) label =
     (let span = max (virtual_size s) (raw_size s) in
      if virtual_address s \<le> rva \<and> rva < virtual_address s + span then
        (let offset = raw_offset s + rva - virtual_address s in
         if offset > length data
         then fail ''Windows PE RVA is not backed by file data: {}'' [label]
         else Inr offset)
      else pe_rva_to_file_offset data rva sections label)"

definition pe_section_at :: "bytes \<Rightarrow> nat \<Rightarrow> pe_section" where
  "pe_section_at data section =
     \<lparr>virtual_address = le_at data (section + 12) 4, virtual_size = le_at data (section + 8) 4,
      raw_size = le_at data (section + 16) 4, raw_offset = le_at data (section + 20) 4\<rparr>"

text \<open>\<open>raw_name.decode("ascii", errors="replace")\<close> of the name up to its first NUL.\<close>

definition pe_section_name :: "bytes \<Rightarrow> nat \<Rightarrow> pystr" where
  "pe_section_name data section =
     map (\<lambda>b. if unat b < 128 then unat b else 65533)
       (takeWhile (\<lambda>b. b \<noteq> 0) (pyslice data section (section + 8)))"

text \<open>One entry of the debug directory: its type, after the checks of its payload.\<close>

definition pe_debug_entry :: "bytes \<Rightarrow> pe_section list \<Rightarrow> pystr \<Rightarrow> nat \<Rightarrow> nat res" where
  "pe_debug_entry data sections label offset =
     andThen (unpack_le 4 data (offset + 12)) (\<lambda>debug_type.
     andThen (unpack_le 4 data (offset + 16)) (\<lambda>size_of_data.
     andThen (unpack_le 4 data (offset + 20)) (\<lambda>address_of_raw_data.
     andThen (unpack_le 4 data (offset + 24)) (\<lambda>pointer_to_raw_data.
       if size_of_data \<noteq> 0 then
         (if pointer_to_raw_data + size_of_data > length data
          then fail ''Windows PE debug payload exceeds file: {}'' [label]
          else if address_of_raw_data \<noteq> 0 then
            andThen (pe_rva_to_file_offset data address_of_raw_data sections label)
              (\<lambda>_. Inr debug_type)
          else Inr debug_type)
       else Inr debug_type))))"

definition pe_debug_types :: "bytes \<Rightarrow> nat \<Rightarrow> nat \<Rightarrow> pystr \<Rightarrow> (nat list \<times> pystr list) res" where
  "pe_debug_types data pe_offset optional_size label =
     (let optional = pe_offset + 24 in
      if optional_size < 112 \<or> optional + optional_size > length data
      then fail ''Windows PE optional header is truncated: {}'' [label]
      else
      let number_of_directories = le_at data (optional + 108) 4;
          section_count = le_at data (pe_offset + 4 + 2) 2;
          section_table = optional + optional_size in
      if section_table + section_count * 40 > length data
      then fail ''Windows PE section table is truncated: {}'' [label]
      else
      let offsets = map (\<lambda>i. section_table + i * 40) [0..<section_count];
          section_names = map (pe_section_name data) offsets;
          sections = map (pe_section_at data) offsets in
      if number_of_directories \<le> 6 then Inr ([], section_names)
      else
      let directory = optional + 112 + 6 * 8 in
      if directory + 8 > optional + optional_size
      then fail ''Windows PE debug data directory is truncated: {}'' [label]
      else
      let debug_rva = le_at data directory 4; debug_size = le_at data (directory + 4) 4 in
      if debug_rva = 0 \<and> debug_size = 0 then Inr ([], section_names)
      else if debug_rva = 0 \<or> debug_size < 28 \<or> debug_size mod 28 \<noteq> 0
      then fail ''Windows PE debug directory is malformed: {}'' [label]
      else
      andThen (pe_rva_to_file_offset data debug_rva sections label) (\<lambda>debug_offset.
        if debug_offset + debug_size > length data
        then fail ''Windows PE debug directory exceeds file: {}'' [label]
        else
        andThen (mapE (pe_debug_entry data sections label)
            (map (\<lambda>k. debug_offset + k * 28) [0..<debug_size div 28]))
          (\<lambda>debug_types. Inr (debug_types, section_names))))"

definition audit_pe_x64_bytes :: "bytes \<Rightarrow> pystr \<Rightarrow> bool \<Rightarrow> unit res" where
  "audit_pe_x64_bytes data label reject_debug_payload =
     (if length data < 0x40 \<or> take 2 data \<noteq> B ''MZ''
      then fail ''Windows binary is not an MZ executable: {}'' [label]
      else
      let pe_offset = le_at data 0x3C 4 in
      if pe_offset + 24 > length data \<or> pyslice data pe_offset (pe_offset + 4) \<noteq> [0x50, 0x45, 0, 0]
      then fail ''Windows binary has no PE signature: {}'' [label]
      else
      let machine = le_at data (pe_offset + 4) 2;
          symbol_table_pointer = le_at data (pe_offset + 12) 4;
          symbol_count = le_at data (pe_offset + 16) 4;
          optional_magic = le_at data (pe_offset + 24) 2 in
      if machine \<noteq> 0x8664 \<or> optional_magic \<noteq> 0x20B
      then fail ''Windows binary is not PE32+ x64: {}'' [label]
      else
      andThen (pe_debug_types data pe_offset (le_at data (pe_offset + 20) 2) label)
        (\<lambda>(debug_types, section_names).
          if \<not> reject_debug_payload then Inr ()
          else if symbol_table_pointer \<noteq> 0 \<or> symbol_count \<noteq> 0
          then fail ''project Windows executable contains a COFF symbol table: {}'' [label]
          else if 2 \<in> set debug_types
          then fail ''project Windows executable contains a CodeView/PDB debug record: {}'' [label]
          else if 17 \<in> set debug_types
          then fail ''project Windows executable contains an embedded debug payload: {}'' [label]
          else if list_ex (\<lambda>name. startswith name (U ''.debug$'')) section_names
          then fail ''project Windows executable contains embedded debug sections: {}'' [label]
          else Inr ()))"

subsection \<open>Every read is inside the file\<close>

definition audit_error :: "pystr \<Rightarrow> exc \<Rightarrow> bool" where
  "audit_error label e \<longleftrightarrow> (\<exists>m. e = AuditError m [label])"

lemma audit_error_intro [simp]: "audit_error label (AuditError m [label])"
  by (simp add: audit_error_def)

lemma pe_rva_error:
  "pe_rva_to_file_offset data rva sections label = Inl e \<Longrightarrow> audit_error label e"
  by (induction data rva sections label rule: pe_rva_to_file_offset.induct)
    (auto simp: res_simps Let_def split: if_splits)

lemma pe_rva_bound: "pe_rva_to_file_offset data rva sections label = Inr off \<Longrightarrow> off \<le> length data"
  by (induction data rva sections label rule: pe_rva_to_file_offset.induct)
    (auto simp: res_simps Let_def split: if_splits)

lemma mapE_error: "mapE f xs = Inl e \<Longrightarrow> \<exists>x \<in> set xs. f x = Inl e"
  by (induction xs) (auto simp: res_simps)

lemma pe_debug_entry_error:
  assumes "offset + 28 \<le> length data" and "pe_debug_entry data sections label offset = Inl e"
  shows "audit_error label e"
  using assms pe_rva_error
  by (auto simp: pe_debug_entry_def unpack_le_def res_simps split: if_splits)

lemma pe_debug_entries_error:
  assumes "mapE (pe_debug_entry data sections label)
      (map (\<lambda>k. off + k * 28) [0..<dsz div 28]) = Inl e"
    and "off + dsz \<le> length data"
  shows "audit_error label e"
proof -
  obtain k where k: "k < dsz div 28" "pe_debug_entry data sections label (off + k * 28) = Inl e"
    using mapE_error [OF assms(1)] by auto
  have "off + k * 28 + 28 \<le> length data"
    using k(1) assms(2) div_times_less_eq_dividend [of dsz 28] by linarith
  then show ?thesis using pe_debug_entry_error k(2) by blast
qed

lemma pe_debug_types_error:
  "pe_debug_types data pe_offset optional_size label = Inl e \<Longrightarrow> audit_error label e"
  using pe_rva_error pe_debug_entries_error
  by (auto simp: pe_debug_types_def Let_def res_simps split: if_splits)

lemma audit_pe_error: "audit_pe_x64_bytes data label strict = Inl e \<Longrightarrow> audit_error label e"
  using pe_debug_types_error
  by (auto simp: audit_pe_x64_bytes_def Let_def res_simps split: if_splits prod.splits)

subsection \<open>Properties\<close>


text \<open>The section table and the debug directory that the headers point to.\<close>

definition pe_section_offsets :: "bytes \<Rightarrow> nat \<Rightarrow> nat \<Rightarrow> nat list" where
  "pe_section_offsets data pe optional_size =
     map (\<lambda>i. pe + 24 + optional_size + i * 40) [0..<le_at data (6 + pe) 2]"

definition pe_debug_directory :: "bytes \<Rightarrow> nat \<Rightarrow> (nat \<times> nat) option" where
  "pe_debug_directory data pe =
     (let rva = le_at data (184 + pe) 4; dsz = le_at data (188 + pe) 4
      in if le_at data (132 + pe) 4 \<le> 6 \<or> rva = 0 \<and> dsz = 0 then None else Some (rva, dsz))"

lemma pe_debug_entry_type:
  "pe_debug_entry data sections label off = Inr t \<Longrightarrow> off + 28 \<le> length data \<and> t = le_at data (off + 12) 4"
  by (auto simp: pe_debug_entry_def res_simps le_at_def split: if_splits)

lemma pe_debug_entries_types:
  "mapE (pe_debug_entry data ss label) xs = Inr types \<Longrightarrow> types = map (\<lambda>x. le_at data (x + 12) 4) xs"
  by (auto simp: mapE_eq_Inr list_all2_conv_all_nth intro!: nth_equalityI dest!: pe_debug_entry_type)

lemma pe_sections_in_file:
  assumes "pe + 24 + osz + le_at data (6 + pe) 2 * 40 \<le> length data"
  shows "\<forall>s \<in> set (pe_section_offsets data pe osz). s + 40 \<le> length data"
proof -
  have "i * 40 + 40 \<le> le_at data (6 + pe) 2 * 40" if "i < le_at data (6 + pe) 2" for i
    using that by simp
  with assms show ?thesis by (fastforce simp: pe_section_offsets_def)
qed

lemma pe_debug_types_result:
  assumes "pe_debug_types data pe osz label = Inr (types, names)"
  shows "names = map (pe_section_name data) (pe_section_offsets data pe osz)"
    and "\<forall>s \<in> set (pe_section_offsets data pe osz). s + 40 \<le> length data"
    and "case pe_debug_directory data pe of
       None \<Rightarrow> types = []
     | Some (rva, dsz) \<Rightarrow> \<exists>off.
         pe_rva_to_file_offset data rva (map (pe_section_at data) (pe_section_offsets data pe osz)) label
           = Inr off \<and> off + dsz \<le> length data \<and> dsz mod 28 = 0 \<and>
         types = map (\<lambda>k. le_at data (off + k * 28 + 12) 4) [0..<dsz div 28]"
proof -
  note d = assms [unfolded pe_debug_types_def Let_def, folded pe_section_offsets_def]
  show "names = map (pe_section_name data) (pe_section_offsets data pe osz)"
    using d by (auto simp: res_simps pe_section_offsets_def o_def split: if_splits)
  show "\<forall>s \<in> set (pe_section_offsets data pe osz). s + 40 \<le> length data"
    using d by (intro pe_sections_in_file) (simp add: res_simps split: if_splits)
  show "case pe_debug_directory data pe of
       None \<Rightarrow> types = []
     | Some (rva, dsz) \<Rightarrow> \<exists>off.
         pe_rva_to_file_offset data rva (map (pe_section_at data) (pe_section_offsets data pe osz)) label
           = Inr off \<and> off + dsz \<le> length data \<and> dsz mod 28 = 0 \<and>
         types = map (\<lambda>k. le_at data (off + k * 28 + 12) 4) [0..<dsz div 28]"
    using d
    by (auto simp: res_simps pe_debug_directory_def pe_section_offsets_def Let_def o_def
        split: if_splits dest!: pe_debug_entries_types)
qed

text \<open>C33. A project executable that the strict audit accepts is a PE32+ file for x64 whose
  section table lies inside the file, has no COFF symbol table and no section named
  \<open>.debug$...\<close>, and every entry of its debug directory, which lies inside the file as well,
  is neither a CodeView record nor an embedded debug payload.\<close>

theorem audit_pe_accepts_stripped:
  assumes "audit_pe_x64_bytes data label True = Inr ()"
  defines "pe \<equiv> le_at data 0x3C 4"
  defines "offsets \<equiv> pe_section_offsets data pe (le_at data (pe + 20) 2)"
  shows "take 2 data = B ''MZ'' \<and> pyslice data pe (pe + 4) = [0x50, 0x45, 0, 0] \<and>
    le_at data (pe + 4) 2 = 0x8664 \<and> le_at data (pe + 24) 2 = 0x20B \<and>
    le_at data (pe + 12) 4 = 0 \<and> le_at data (pe + 16) 4 = 0 \<and>
    (\<forall>s \<in> set offsets. s + 40 \<le> length data \<and> \<not> startswith (pe_section_name data s) (U ''.debug$'')) \<and>
    (\<forall>rva dsz. pe_debug_directory data pe = Some (rva, dsz) \<longrightarrow>
       (\<exists>off. pe_rva_to_file_offset data rva (map (pe_section_at data) offsets) label = Inr off \<and>
          off + dsz \<le> length data \<and> dsz mod 28 = 0 \<and>
          (\<forall>k < dsz div 28. le_at data (off + k * 28 + 12) 4 \<notin> {2, 17})))"
proof -
  let ?osz = "le_at data (pe + 20) 2"
  from assms(1) obtain types names where hd: "take 2 data = B ''MZ''"
      "pyslice data pe (pe + 4) = [0x50, 0x45, 0, 0]" "le_at data (pe + 4) 2 = 0x8664"
      "le_at data (pe + 24) 2 = 0x20B" "le_at data (pe + 12) 4 = 0" "le_at data (pe + 16) 4 = 0"
    and t: "pe_debug_types data pe ?osz label = Inr (types, names)"
    and no: "2 \<notin> set types" "17 \<notin> set types"
      "\<not> list_ex (\<lambda>name. startswith name (U ''.debug$'')) names"
    by (auto simp: audit_pe_x64_bytes_def Let_def res_simps pe_def split: if_splits prod.splits)
  note r = pe_debug_types_result [OF t, folded offsets_def]
  have "\<forall>s \<in> set offsets. s + 40 \<le> length data \<and> \<not> startswith (pe_section_name data s) (U ''.debug$'')"
    using r(1,2) no(3) by (auto simp: list_ex_iff)
  moreover have "\<exists>off. pe_rva_to_file_offset data rva (map (pe_section_at data) offsets) label = Inr off \<and>
          off + dsz \<le> length data \<and> dsz mod 28 = 0 \<and>
          (\<forall>k < dsz div 28. le_at data (off + k * 28 + 12) 4 \<notin> {2, 17})"
    if "pe_debug_directory data pe = Some (rva, dsz)" for rva dsz
    using r(3) that no(1,2) by fastforce
  ultimately show ?thesis using hd by blast
qed

definition sample_pe :: bytes where
  "sample_pe = B ''MZ'' @ replicate 58 0 @ [0x40, 0, 0, 0] @ B ''PE'' @ [0, 0, 0x64, 0x86, 1, 0]
     @ replicate 12 0 @ [112, 0, 0, 0, 0x0B, 0x02] @ replicate 110 0
     @ B ''.text'' @ replicate 35 0"

lemma replicate_numeral_Cons: "replicate (numeral n) x = x # replicate (pred_numeral n) x"
  by (simp add: numeral_eq_Suc)

lemma sample_pe_fields:
  "length sample_pe = 240" "take 2 sample_pe = B ''MZ''" "le_at sample_pe 60 4 = 64"
  "pyslice sample_pe 64 68 = [0x50, 0x45, 0, 0]" "le_at sample_pe 68 2 = 0x8664"
  "le_at sample_pe 76 4 = 0" "le_at sample_pe 80 4 = 0" "le_at sample_pe 84 2 = 112"
  "le_at sample_pe 88 2 = 0x20B" "le_at sample_pe 70 2 = 1" "le_at sample_pe 196 4 = 0"
  "pe_section_name sample_pe 200 = U ''.text''"
  by (simp_all add: sample_pe_def le_at_def pyslice_def from_le_def B_def U_def pe_section_name_def
      replicate_numeral_Cons)

lemma sample_pe_accepted: "audit_pe_x64_bytes sample_pe (U ''siano-ts.exe'') True = Inr ()"
  by (simp add: audit_pe_x64_bytes_def pe_debug_types_def Let_def sample_pe_fields startswith_def U_Cons)

theorem audit_pe_accepts_stripped_witness:
  "le_at sample_pe 68 2 = 0x8664 \<and> \<not> startswith (pe_section_name sample_pe 200) (U ''.debug$'')"
  using audit_pe_accepts_stripped [OF sample_pe_accepted]
  by (simp add: pe_section_offsets_def sample_pe_fields)

end
