(* ===== verification/MachO.thy ===== *)
theory MachO
  imports PortableExecutable
begin

section \<open>macOS executables\<close>

text \<open>
  The Mach-O audit of \<open>audit-artifact.py\<close> on the bytes of a thin arm64 file:
  \<open>macho_load_commands\<close>, \<open>darwin_dylibs\<close>, \<open>darwin_minos\<close>, \<open>audit_darwin_dylibs\<close> and
  \<open>audit_darwin_macho\<close>.
\<close>

subsection \<open>Load commands\<close>

definition MACHO_DYLIB_COMMANDS :: "nat set" where
  "MACHO_DYLIB_COMMANDS = {0x0000000C, 0x80000018, 0x8000001F, 0x00000020, 0x80000023}"

definition MACHO_CPU_TYPE_ARM64 :: nat where
  "MACHO_CPU_TYPE_ARM64 = 0x0100000C"

definition DARWIN_SYSTEM_DYLIB_PREFIXES :: "pystr list" where
  "DARWIN_SYSTEM_DYLIB_PREFIXES = [U ''/usr/lib/'', U ''/System/Library/Frameworks/'']"

definition DARWIN_DEPLOYMENT_TARGET :: pystr where
  "DARWIN_DEPLOYMENT_TARGET = U ''11.0''"

definition DARWIN_REQUIRED_DYLIBS :: "pystr list" where
  "DARWIN_REQUIRED_DYLIBS = [U ''/usr/lib/libSystem.B.dylib'',
     U ''/System/Library/Frameworks/IOKit.framework/Versions/A/IOKit'']"

fun macho_loop ::
  "bytes \<Rightarrow> pystr \<Rightarrow> nat \<Rightarrow> nat \<Rightarrow> nat \<Rightarrow> (nat \<times> nat \<times> nat) list res" where
  "macho_loop data label limit 0 offset = Inr []"
| "macho_loop data label limit (Suc n) offset =
     (if offset + 8 > limit then fail ''macOS load command table is truncated: {}'' [label]
      else andThen (unpack_le 4 data offset) (\<lambda>cmd.
        andThen (unpack_le 4 data (offset + 4)) (\<lambda>cmdsize.
          if cmdsize < 8 \<or> offset + cmdsize > limit
          then fail ''macOS load command has an invalid size: {}'' [label]
          else andThen (macho_loop data label limit n (offset + cmdsize)) (\<lambda>commands.
            Inr ((cmd, offset, cmdsize) # commands)))))"

definition macho_load_commands :: "bytes \<Rightarrow> pystr \<Rightarrow> (nat \<times> nat \<times> nat) list res" where
  "macho_load_commands data label =
     (if length data < 32 then fail ''macOS binary is too short for a Mach-O header: {}'' [label]
      else
      andThen (unpack_le 4 data 0) (\<lambda>magic.
      andThen (unpack_le 4 data 4) (\<lambda>cputype.
      andThen (unpack_le 4 data 16) (\<lambda>ncmds.
      andThen (unpack_le 4 data 20) (\<lambda>sizeofcmds.
        if magic \<noteq> 0xFEEDFACF then fail ''macOS binary is not a thin 64-bit Mach-O: {}'' [label]
        else if cputype \<noteq> MACHO_CPU_TYPE_ARM64 then fail ''macOS binary is not arm64: {}'' [label]
        else if 32 + sizeofcmds > length data
        then fail ''macOS load commands exceed the file: {}'' [label]
        else macho_loop data label (32 + sizeofcmds) ncmds 32)))))"

subsection \<open>Images and minimum version\<close>

definition dylib_name :: "bytes \<Rightarrow> pystr \<Rightarrow> nat \<Rightarrow> nat \<Rightarrow> pystr res" where
  "dylib_name data label offset cmdsize =
     (if cmdsize < 24 then fail ''macOS dylib load command is truncated: {}'' [label]
      else andThen (unpack_le 4 data (offset + 8)) (\<lambda>name_offset.
        if \<not> (24 \<le> name_offset \<and> name_offset < cmdsize)
        then fail ''macOS dylib load command has an invalid name offset: {}'' [label]
        else
          (case utf8_decode (takeWhile (\<lambda>b. b \<noteq> 0)
                (pyslice data (offset + name_offset) (offset + cmdsize))) of
             Inl _ \<Rightarrow> fail ''macOS dylib install name is not UTF-8: {}'' [label]
           | Inr name \<Rightarrow> Inr name)))"

definition darwin_dylibs :: "bytes \<Rightarrow> pystr \<Rightarrow> pystr list res" where
  "darwin_dylibs data label =
     andThen (macho_load_commands data label) (\<lambda>commands.
       mapE (\<lambda>(cmd, offset, cmdsize). dylib_name data label offset cmdsize)
         (filter (\<lambda>(cmd, offset, cmdsize). cmd \<in> MACHO_DYLIB_COMMANDS) commands))"

definition minos_version :: "bytes \<Rightarrow> pystr \<Rightarrow> nat \<Rightarrow> nat \<Rightarrow> pystr res" where
  "minos_version data label offset cmdsize =
     (if cmdsize < 24 then fail ''macOS LC_BUILD_VERSION is truncated: {}'' [label]
      else andThen (unpack_le 4 data (offset + 8)) (\<lambda>platform.
        andThen (unpack_le 4 data (offset + 12)) (\<lambda>minos.
          if platform \<noteq> 1 then fail ''macOS binary is not built for the macOS platform: {}'' [label]
          else Inr (str_nat (minos div 65536) @ [46] @ str_nat (minos div 256 mod 256)))))"

definition darwin_minos :: "bytes \<Rightarrow> pystr \<Rightarrow> pystr res" where
  "darwin_minos data label =
     andThen (macho_load_commands data label) (\<lambda>commands.
       andThen (mapE (\<lambda>(cmd, offset, cmdsize). minos_version data label offset cmdsize)
           (filter (\<lambda>(cmd, offset, cmdsize). cmd = 0x32) commands)) (\<lambda>versions.
         if length versions \<noteq> 1
         then fail ''macOS binary must contain exactly one LC_BUILD_VERSION: {}'' [label]
         else Inr (hd versions)))"

definition audit_darwin_dylibs :: "pystr list \<Rightarrow> pystr \<Rightarrow> unit res" where
  "audit_darwin_dylibs names label =
     andThen (forE (\<lambda>name.
         if contains (lower name) (U ''libusb'')
         then fail ''macOS binary loads a libusb dylib instead of linking it statically: {}: {}'' [name, label]
         else if \<not> list_ex (startswith name) DARWIN_SYSTEM_DYLIB_PREFIXES
         then fail ''macOS binary loads a non-system dylib: {}: {}'' [name, label]
         else Inr ()) names) (\<lambda>_.
       let required = (if posix_name label \<in> {U ''sianoctl'', U ''siano-ts''}
                       then [U ''/usr/lib/libSystem.B.dylib''] else DARWIN_REQUIRED_DYLIBS)
       in if filter (\<lambda>r. r \<notin> set names) required \<noteq> []
          then fail ''macOS binary lacks the system images static libusb needs: {}'' [label]
          else Inr ())"

definition audit_darwin_macho :: "bytes \<Rightarrow> pystr \<Rightarrow> unit res" where
  "audit_darwin_macho data label =
     andThen (darwin_dylibs data label) (\<lambda>names.
     andThen (audit_darwin_dylibs names label) (\<lambda>_.
     andThen (darwin_minos data label) (\<lambda>minos.
       if minos \<noteq> DARWIN_DEPLOYMENT_TARGET
       then fail ''macOS binary minimum version is {}, expected {}: {}''
              [minos, DARWIN_DEPLOYMENT_TARGET, label]
       else Inr ())))"

subsection \<open>The command table is walked inside the file\<close>

text \<open>Commands that follow one another from \<open>offset\<close> without gap or overlap, inside \<open>limit\<close>.\<close>

fun tiles :: "nat \<Rightarrow> nat \<Rightarrow> (nat \<times> nat \<times> nat) list \<Rightarrow> bool" where
  "tiles limit offset [] \<longleftrightarrow> True"
| "tiles limit offset ((cmd, off, sz) # cs) \<longleftrightarrow>
     off = offset \<and> 8 \<le> sz \<and> off + sz \<le> limit \<and> tiles limit (offset + sz) cs"

lemma tiles_mem: "tiles limit offset cs \<Longrightarrow> (cmd, off, sz) \<in> set cs \<Longrightarrow> offset \<le> off \<and> off + sz \<le> limit"
  by (induction limit offset cs rule: tiles.induct) auto

definition command_at :: "bytes \<Rightarrow> nat \<times> nat \<times> nat \<Rightarrow> bool" where
  "command_at data c \<longleftrightarrow>
     (case c of (cmd, off, sz) \<Rightarrow> cmd = le_at data off 4 \<and> sz = le_at data (off + 4) 4)"

lemma macho_loop_ok:
  "macho_loop data label limit n offset = Inr cs \<Longrightarrow>
   length cs = n \<and> tiles limit offset cs \<and>
   list_all (command_at data) cs"
proof (induction n arbitrary: offset cs)
  case (Suc n)
  from Suc.prems obtain ds where "macho_loop data label limit n (offset + le_at data (offset + 4) 4) = Inr ds"
    and "cs = (le_at data offset 4, offset, le_at data (offset + 4) 4) # ds"
    and "8 \<le> le_at data (offset + 4) 4" "offset + le_at data (offset + 4) 4 \<le> limit"
    by (auto simp: res_simps split: if_splits)
  with Suc.IH show ?case by (auto simp: command_at_def)
qed simp

lemma macho_loop_error:
  "limit \<le> length data \<Longrightarrow> macho_loop data label limit n offset = Inl e \<Longrightarrow> audit_error label e"
proof (induction n arbitrary: offset)
  case (Suc n)
  then show ?case
    by (auto simp: res_simps unpack_le_def split: if_splits)
qed simp

lemma macho_load_commands_error: "macho_load_commands data label = Inl e \<Longrightarrow> audit_error label e"
  by (auto simp: macho_load_commands_def res_simps unpack_le_def split: if_splits
      dest: macho_loop_error [rotated])

lemma macho_load_commands_ok:
  assumes "macho_load_commands data label = Inr cs"
  shows "le_at data 0 4 = 0xFEEDFACF \<and> le_at data 4 4 = MACHO_CPU_TYPE_ARM64 \<and>
    length cs = le_at data 16 4 \<and> tiles (32 + le_at data 20 4) 32 cs \<and>
    32 + le_at data 20 4 \<le> length data \<and>
    list_all (command_at data) cs"
  using assms macho_loop_ok
  by (fastforce simp: macho_load_commands_def res_simps split: if_splits)

lemma load_command_in_file:
  assumes "macho_load_commands data label = Inr cs" and "(cmd, off, sz) \<in> set cs"
  shows "off + sz \<le> length data"
  using macho_load_commands_ok [OF assms(1)] tiles_mem [OF _ assms(2)] by fastforce

lemma dylib_name_error:
  "dylib_name data label off sz = Inl e \<Longrightarrow> off + sz \<le> length data \<Longrightarrow> audit_error label e"
  by (auto simp: dylib_name_def res_simps unpack_le_def split: if_splits sum.splits)

lemma minos_version_error:
  "minos_version data label off sz = Inl e \<Longrightarrow> off + sz \<le> length data \<Longrightarrow> audit_error label e"
  by (auto simp: minos_version_def res_simps unpack_le_def split: if_splits)

lemma dylib_name_ok:
  "dylib_name data label off sz = Inr name \<Longrightarrow>
   24 \<le> le_at data (off + 8) 4 \<and> le_at data (off + 8) 4 < sz \<and>
   utf8_decode (takeWhile (\<lambda>b. b \<noteq> 0) (pyslice data (off + le_at data (off + 8) 4) (off + sz))) = Inr name"
  by (auto simp: dylib_name_def res_simps fail_def split: if_splits sum.splits)

lemma minos_version_ok:
  "minos_version data label off sz = Inr v \<Longrightarrow> le_at data (off + 8) 4 = 1 \<and>
   str_nat (le_at data (off + 12) 4 div 65536) @ [46] @ str_nat (le_at data (off + 12) 4 div 256 mod 256) = v"
  by (auto simp: minos_version_def res_simps split: if_splits)

lemma audit_darwin_dylibs_ok:
  "audit_darwin_dylibs names label = Inr u \<Longrightarrow>
   (\<forall>name \<in> set names. \<not> contains (lower name) (U ''libusb'') \<and>
      list_ex (startswith name) DARWIN_SYSTEM_DYLIB_PREFIXES) \<and>
   U ''/usr/lib/libSystem.B.dylib'' \<in> set names"
  by (auto simp: audit_darwin_dylibs_def res_simps Let_def DARWIN_REQUIRED_DYLIBS_def filter_empty_conv
      split: if_splits)

lemma tiles_mono: "tiles l off cs \<Longrightarrow> l \<le> m \<Longrightarrow> tiles m off cs"
  by (induction l off cs rule: tiles.induct) auto

lemma darwin_dylibs_error: "darwin_dylibs data label = Inl e \<Longrightarrow> audit_error label e"
  by (auto simp: darwin_dylibs_def res_simps
      dest!: mapE_error dest: macho_load_commands_error dylib_name_error [OF _ load_command_in_file])

lemma darwin_minos_error: "darwin_minos data label = Inl e \<Longrightarrow> audit_error label e"
  by (auto simp: darwin_minos_def res_simps split: if_splits
      dest!: mapE_error dest: macho_load_commands_error minos_version_error [OF _ load_command_in_file])

lemma forE_error: "forE f xs = Inl e \<Longrightarrow> \<exists>x \<in> set xs. f x = Inl e"
  by (induction xs) (auto simp: res_simps)

lemma audit_darwin_dylibs_error: "audit_darwin_dylibs names label = Inl e \<Longrightarrow> \<exists>m args. e = AuditError m args"
  by (auto simp: audit_darwin_dylibs_def res_simps Let_def fail_def split: if_splits dest!: forE_error)

lemma audit_darwin_macho_error:
  "audit_darwin_macho data label = Inl e \<Longrightarrow> \<exists>m args. e = AuditError m args"
  using darwin_dylibs_error darwin_minos_error audit_darwin_dylibs_error
  by (fastforce simp: audit_darwin_macho_def res_simps audit_error_def split: if_splits)

subsection \<open>Properties\<close>

text \<open>C34. \<open>audit_darwin_macho\<close> judges every byte string: it accepts or raises an audit error,
  and no field is read outside the file, whatever the header says of the number and the sizes
  of the load commands.\<close>

theorem audit_darwin_never_crashes:
  "(case audit_darwin_macho data label of Inr u \<Rightarrow> True | Inl e \<Rightarrow> \<exists>m args. e = AuditError m args)"
  using audit_darwin_macho_error [of data label] by (auto split: sum.splits)


text \<open>A thin Mach-O with a build version command and one image.\<close>

definition sample_macho :: bytes where
  "sample_macho = [0xCF, 0xFA, 0xED, 0xFE, 0x0C, 0, 0, 1, 0, 0, 0, 0, 2, 0, 0, 0, 2, 0, 0, 0, 80, 0, 0, 0,
     0, 0, 0, 0, 0, 0, 0, 0,
     0x32, 0, 0, 0, 24, 0, 0, 0, 1, 0, 0, 0, 0, 0, 11, 0, 0, 0, 0, 0, 0, 0, 0, 0,
     0x0C, 0, 0, 0, 56, 0, 0, 0, 24, 0, 0, 0, 0, 0, 0, 0, 0, 0, 0, 0, 0, 0, 0, 0]
     @ B ''/usr/lib/libSystem.B.dylib'' @ [0, 0, 0, 0, 0, 0]"

lemma sample_macho_fields:
  "length sample_macho = 112" "le_at sample_macho 0 4 = 0xFEEDFACF" "le_at sample_macho 4 4 = 0x0100000C"
  "le_at sample_macho 16 4 = 2" "le_at sample_macho 20 4 = 80"
  "le_at sample_macho 32 4 = 0x32" "le_at sample_macho 36 4 = 24" "le_at sample_macho 40 4 = 1"
  "le_at sample_macho 44 4 = 0xB0000" "le_at sample_macho 56 4 = 12" "le_at sample_macho 60 4 = 56"
  "le_at sample_macho 64 4 = 24"
  "takeWhile (\<lambda>b. b \<noteq> 0) (pyslice sample_macho 80 112) = B ''/usr/lib/libSystem.B.dylib''"
  by (simp_all add: sample_macho_def le_at_def pyslice_def from_le_def B_def)

lemma sample_macho_commands:
  "macho_load_commands sample_macho label = Inr [(0x32, 32, 24), (12, 56, 56)]"
  by (simp add: macho_load_commands_def unpack_le_def sample_macho_fields MACHO_CPU_TYPE_ARM64_def
      numeral_2_eq_2)

lemma sample_macho_name:
  "utf8_decode (B ''/usr/lib/libSystem.B.dylib'') = Inr (U ''/usr/lib/libSystem.B.dylib'')"
  by (simp add: utf8_decode_def B_def U_def utf8_points.simps)

lemma sample_macho_accepted: "audit_darwin_macho sample_macho (U ''siano-ts'') = Inr ()"
  by (simp add: audit_darwin_macho_def darwin_dylibs_def darwin_minos_def sample_macho_commands
      dylib_name_def minos_version_def MACHO_DYLIB_COMMANDS_def unpack_le_def sample_macho_fields
      sample_macho_name audit_darwin_dylibs_def lower_def lower_char_def U_Cons startswith_def
      DARWIN_SYSTEM_DYLIB_PREFIXES_def DARWIN_DEPLOYMENT_TARGET_def posix_name_def str_nat.simps)


end
