(* ===== verification/Regex.thy ===== *)
theory Regex
  imports PyText
begin

section \<open>Regular expressions\<close>

text \<open>
  The part of Python's \<open>re\<close> that the scripts use, as a matcher that returns all ways to
  match in the order in which the backtracking engine would try them: the first one is the
  match that \<open>re\<close> finds. \<open>Star\<close> is greedy and \<open>LazyStar\<close> lazy; an iteration must consume
  input, which also bounds their number by the length of the text. \<open>Bol\<close> and \<open>Eol\<close> are \<open>^\<close>
  and \<open>$\<close> in multi-line mode, \<open>AtStart\<close> and \<open>Dollar\<close> in the default mode; \<open>WordB\<close> is \<open>\b\<close>
  for a given class of word characters.
\<close>

datatype re =
    One "nat \<Rightarrow> bool"
  | Eps
  | Seq re re
  | Alt re re
  | Star re
  | LazyStar re
  | Group nat re
  | Bol
  | Eol
  | AtStart
  | Dollar
  | AtEnd
  | WordB "nat \<Rightarrow> bool"
  | Ahead re

record re_state =
  prev :: "nat option"
  rest :: pystr
  groups :: "(nat, pystr) dict"

fun star_iter :: "(re_state \<Rightarrow> re_state list) \<Rightarrow> nat \<Rightarrow> re_state \<Rightarrow> re_state list" where
  "star_iter f 0 s = [s]"
| "star_iter f (Suc n) s =
     concat (map (star_iter f n) (filter (\<lambda>t. length (rest t) < length (rest s)) (f s))) @ [s]"

fun lazy_iter :: "(re_state \<Rightarrow> re_state list) \<Rightarrow> nat \<Rightarrow> re_state \<Rightarrow> re_state list" where
  "lazy_iter f 0 s = [s]"
| "lazy_iter f (Suc n) s =
     s # concat (map (lazy_iter f n) (filter (\<lambda>t. length (rest t) < length (rest s)) (f s)))"

primrec matches :: "re \<Rightarrow> re_state \<Rightarrow> re_state list" where
  "matches (One p) s =
     (case rest s of [] \<Rightarrow> [] | c # r \<Rightarrow> if p c then [s\<lparr>prev := Some c, rest := r\<rparr>] else [])"
| "matches Eps s = [s]"
| "matches (Seq a b) s = concat (map (matches b) (matches a s))"
| "matches (Alt a b) s = matches a s @ matches b s"
| "matches (Star a) s = star_iter (matches a) (length (rest s)) s"
| "matches (LazyStar a) s = lazy_iter (matches a) (length (rest s)) s"
| "matches (Group i a) s =
     map (\<lambda>t. t\<lparr>groups := dict_set (groups t) i (take (length (rest s) - length (rest t)) (rest s))\<rparr>)
       (matches a s)"
| "matches Bol s = (if prev s = None \<or> prev s = Some 10 then [s] else [])"
| "matches Eol s = (if rest s = [] \<or> hd (rest s) = 10 then [s] else [])"
| "matches AtStart s = (if prev s = None then [s] else [])"
| "matches Dollar s = (if rest s = [] \<or> rest s = [10] then [s] else [])"
| "matches AtEnd s = (if rest s = [] then [s] else [])"
| "matches (WordB w) s =
     (if (case prev s of None \<Rightarrow> False | Some c \<Rightarrow> w c) \<noteq> (rest s \<noteq> [] \<and> w (hd (rest s))) then [s] else [])"
| "matches (Ahead a) s = (if matches a s \<noteq> [] then [s] else [])"

subsection \<open>Entry points\<close>

definition start :: "pystr \<Rightarrow> re_state" where
  "start s = \<lparr>prev = None, rest = s, groups = []\<rparr>"

definition first :: "'a list \<Rightarrow> 'a option" where
  "first xs = (case xs of [] \<Rightarrow> None | x # _ \<Rightarrow> Some x)"

definition re_match :: "re \<Rightarrow> pystr \<Rightarrow> re_state option" where
  "re_match r s = first (matches r (start s))"

definition re_fullmatch :: "re \<Rightarrow> pystr \<Rightarrow> re_state option" where
  "re_fullmatch r s = first (filter (\<lambda>t. rest t = []) (matches r (start s)))"

text \<open>The places where a search can start, from the left: with what precedes each of them.\<close>

fun starts :: "nat option \<Rightarrow> pystr \<Rightarrow> re_state list" where
  "starts p [] = [\<lparr>prev = p, rest = [], groups = []\<rparr>]"
| "starts p (c # s) = \<lparr>prev = p, rest = c # s, groups = []\<rparr> # starts (Some c) s"

definition re_search :: "re \<Rightarrow> pystr \<Rightarrow> re_state option" where
  "re_search r s = first (concat (map (matches r) (starts None s)))"

text \<open>
  \<open>re.findall\<close>: the successive matches that do not overlap, each as its end state; an empty
  match moves on by one character.
\<close>

fun findall_from :: "nat \<Rightarrow> re \<Rightarrow> nat option \<Rightarrow> pystr \<Rightarrow> re_state list" where
  "findall_from 0 r p s = []"
| "findall_from (Suc n) r p s =
     (case first (matches r \<lparr>prev = p, rest = s, groups = []\<rparr>) of
        Some t \<Rightarrow> t #
          (if length (rest t) < length s then findall_from n r (prev t) (rest t)
           else (case s of [] \<Rightarrow> [] | c # s' \<Rightarrow> findall_from n r (Some c) s'))
      | None \<Rightarrow> (case s of [] \<Rightarrow> [] | c # s' \<Rightarrow> findall_from n r (Some c) s'))"

definition re_findall :: "re \<Rightarrow> pystr \<Rightarrow> re_state list" where
  "re_findall r s = findall_from (Suc (length s)) r None s"

definition group :: "nat \<Rightarrow> re_state \<Rightarrow> pystr" where
  "group i t = (case map_of (groups t) i of None \<Rightarrow> [] | Some g \<Rightarrow> g)"

subsection \<open>Pattern elements\<close>

fun lit_re :: "pystr \<Rightarrow> re" where
  "lit_re [] = Eps"
| "lit_re (c # cs) = Seq (One (\<lambda>x. x = c)) (lit_re cs)"

definition lit :: "string \<Rightarrow> re" where
  "lit w = lit_re (U w)"

text \<open>
  Literals under \<open>re.IGNORECASE\<close>, written in lower case: \<open>i\<close>, \<open>s\<close> and \<open>k\<close> also match the
  dotted and dotless I, the long s and the Kelvin sign.
\<close>

definition ci_eq :: "nat \<Rightarrow> nat \<Rightarrow> bool" where
  "ci_eq p c \<longleftrightarrow> c = p \<or> 97 \<le> p \<and> p \<le> 122 \<and> (c + 32 = p \<or> p = 105 \<and> (c = 304 \<or> c = 305) \<or>
     p = 115 \<and> c = 383 \<or> p = 107 \<and> c = 8490)"

fun lit_ci_re :: "pystr \<Rightarrow> re" where
  "lit_ci_re [] = Eps"
| "lit_ci_re (p # ps) = Seq (One (ci_eq p)) (lit_ci_re ps)"

definition lit_ci :: "string \<Rightarrow> re" where
  "lit_ci w = lit_ci_re (U w)"

definition plus :: "re \<Rightarrow> re" where
  "plus r = Seq r (Star r)"

definition ws :: re where
  "ws = One is_space"

text \<open>\<open>\d\<close> matches the decimal digits of all scripts: the ranges of ten from each zero.\<close>

definition decimal_zeros :: "nat list" where
  "decimal_zeros = [48, 1632, 1776, 1984, 2406, 2534, 2662, 2790, 2918, 3046, 3174, 3302, 3430, 3558, 3664,
     3792, 3872, 4160, 4240, 6112, 6160, 6470, 6608, 6784, 6800, 6992, 7088, 7232, 7248,
     42528, 43216, 43264, 43472, 43504, 43600, 44016, 65296, 66720, 68912, 69734, 69872,
     69942, 70096, 70384, 70736, 70864, 71248, 71360, 71472, 71904, 72016, 72784, 73040,
     73120, 92768, 92864, 93008, 120782, 120792, 120802, 120812, 120822, 123200, 123632,
     125264, 130032]"

definition is_decimal :: "nat \<Rightarrow> bool" where
  "is_decimal c \<longleftrightarrow> list_ex (\<lambda>z. z \<le> c \<and> c < z + 10) decimal_zeros"

definition digit :: re where
  "digit = One is_decimal"

definition dot :: re where
  "dot = One (\<lambda>c. c \<noteq> 10)"

subsection \<open>What the pattern elements match\<close>

text \<open>The state after the first \<open>n\<close> characters.\<close>

definition adv :: "nat \<Rightarrow> re_state \<Rightarrow> re_state" where
  "adv n s = (if n = 0 \<or> rest s = [] then s
     else s\<lparr>prev := Some (rest s ! (min n (length (rest s)) - 1)), rest := drop n (rest s)\<rparr>)"

lemma adv_0 [simp]: "adv 0 s = s"
  by (simp add: adv_def)

lemma adv_sel [simp]: "rest (adv n s) = drop n (rest s)" "groups (adv n s) = groups s"
  by (auto simp: adv_def)

lemma adv_Cons: "rest s = c # r \<Longrightarrow> adv n (s\<lparr>prev := Some c, rest := r\<rparr>) = adv (Suc n) s"
  by (cases n; cases r) (auto simp: adv_def)

lemma adv_adv: "adv m (adv n s) = adv (n + m) s"
  by (auto simp: adv_def min_def nth_drop add.commute)

lemma matches_One: "matches (One p) s = (if rest s \<noteq> [] \<and> p (hd (rest s)) then [adv 1 s] else [])"
  by (cases "rest s") (auto simp: adv_def)

declare matches.simps(1) [simp del]

lemma first_None [simp]: "first xs = None \<longleftrightarrow> xs = []"
  by (cases xs) (auto simp: first_def)

lemma matches_lit_re:
  "matches (lit_re w) s = (if startswith (rest s) w then [adv (length w) s] else [])"
proof (induction w arbitrary: s)
  case (Cons c w)
  then show ?case
    by (cases "rest s") (auto simp: matches_One startswith_def adv_def)
qed (simp add: startswith_def)

lemma starts_contains:
  "(\<exists>t \<in> set (starts p s). startswith (rest t) w) \<longleftrightarrow> contains s w"
proof (induction s arbitrary: p)
  case Nil
  then show ?case by (auto simp: startswith_def)
next
  case (Cons c s)
  then show ?case by auto
qed

lemma re_search_None: "re_search r s = None \<longleftrightarrow> (\<forall>t \<in> set (starts None s). matches r t = [])"
  by (simp add: re_search_def)

lemma re_search_lit: "re_search (lit w) s = None \<longleftrightarrow> \<not> contains s (U w)"
  using starts_contains [of None s "U w"]
  by (auto simp: re_search_None lit_def matches_lit_re split: if_splits)

lemma re_search_Alt:
  "re_search (Alt a b) s = None \<longleftrightarrow> re_search a s = None \<and> re_search b s = None"
  by (auto simp: re_search_None)

lemma star_iter_One:
  "length (rest s) \<le> n \<Longrightarrow>
   star_iter (matches (One p)) n s = map (\<lambda>k. adv k s) (rev [0..<Suc (length (takeWhile p (rest s)))])"
proof (induction n arbitrary: s)
  case 0
  then show ?case by simp
next
  case (Suc n)
  show ?case
  proof (cases "rest s \<noteq> [] \<and> p (hd (rest s))")
    case True
    then obtain c r where r: "rest s = c # r" "p c" by (cases "rest s") auto
    have "star_iter (matches (One p)) n (adv 1 s) =
        map (\<lambda>k. adv (Suc k) s) (rev [0..<Suc (length (takeWhile p r))])"
      using Suc r by (simp add: adv_adv)
    also have "\<dots> = map (\<lambda>k. adv k s) (rev [1..<Suc (Suc (length (takeWhile p r)))])"
    proof -
      have "[1..<Suc (Suc (length (takeWhile p r)))] = map Suc [0..<Suc (length (takeWhile p r))]"
        by (simp only: map_Suc_upt One_nat_def)
      then show ?thesis by (simp add: rev_map o_def del: upt_Suc)
    qed
    finally have it: "star_iter (matches (One p)) n (adv 1 s) =
        map (\<lambda>k. adv k s) (rev [1..<Suc (Suc (length (takeWhile p r)))])" .
    have "matches (One p) s = [adv 1 s]" using r by (simp add: matches_One)
    then show ?thesis
      using r it by (simp add: upt_conv_Cons del: upt_Suc)
  next
    case False
    then show ?thesis by (cases "rest s") (auto simp: matches_One)
  qed
qed

lemma matches_star_One:
  "matches (Star (One p)) s = map (\<lambda>k. adv k s) (rev [0..<Suc (length (takeWhile p (rest s)))])"
  by (simp add: star_iter_One)

text \<open>
  A greedy run of characters before something that cannot start with one of them: the run is
  taken whole, there is nothing to backtrack into.
\<close>

lemma matches_run:
  assumes "\<And>t. rest t \<noteq> [] \<Longrightarrow> p (hd (rest t)) \<Longrightarrow> matches r t = []"
  shows "matches (Seq (Star (One p)) r) s = matches r (adv (length (takeWhile p (rest s))) s)"
proof -
  let ?n = "length (takeWhile p (rest s))"
  have "matches r (adv k s) = []" if "k < ?n" for k
  proof (rule assms)
    have k: "k < length (rest s)" using that length_takeWhile_le [of p "rest s"] by simp
    then show "rest (adv k s) \<noteq> []" by simp
    have "p (takeWhile p (rest s) ! k)" 
      using nth_mem [OF that] by (blast dest: set_takeWhileD)
    then show "p (hd (rest (adv k s)))" using k that by (simp add: hd_drop_conv_nth takeWhile_nth)
  qed
  then have "concat (map (matches r) (map (\<lambda>k. adv k s) (rev [0..<?n]))) = []" by auto
  then show ?thesis
    unfolding matches.simps(3) matches_star_One by simp
qed

lemma concat_bind: "concat (map g (concat (map f xs))) = concat (map (\<lambda>x. concat (map g (f x))) xs)"
  by (induction xs) auto

lemma matches_Seq_assoc: "matches (Seq (Seq a b) c) s = matches (Seq a (Seq b c)) s"
proof -
  have "matches (Seq b c) = (\<lambda>t. concat (map (matches c) (matches b t)))" by (simp add: fun_eq_iff)
  then show ?thesis by (simp add: concat_bind)
qed

lemma matches_plus_run:
  assumes "\<And>t. rest t \<noteq> [] \<Longrightarrow> p (hd (rest t)) \<Longrightarrow> matches r t = []"
  shows "matches (Seq (plus (One p)) r) s =
    (if takeWhile p (rest s) = [] then [] else matches r (adv (length (takeWhile p (rest s))) s))"
proof -
  have "matches (Seq (plus (One p)) r) s =
      (if rest s \<noteq> [] \<and> p (hd (rest s)) then matches (Seq (Star (One p)) r) (adv 1 s) else [])"
    unfolding plus_def matches_Seq_assoc by (simp add: matches_One)
  then show ?thesis
    using matches_run [OF assms, where s = "adv 1 s"] by (cases "rest s") (auto simp: adv_adv)
qed

lemma first_plus:
  "first (matches (plus (One p)) s) =
     (if takeWhile p (rest s) = [] then None else Some (adv (length (takeWhile p (rest s))) s))"
  by (cases "rest s") (auto simp: plus_def matches_One star_iter_One adv_adv first_def)

lemma first_map: "first (map f xs) = map_option f (first xs)"
  by (cases xs) (auto simp: first_def)

lemma matches_Seq_lit:
  "matches (Seq (lit w) r) s = (if startswith (rest s) (U w) then matches r (adv (length w) s) else [])"
  by (simp add: lit_def matches_lit_re)

lemma space_not_decimal: "is_space c \<Longrightarrow> \<not> is_decimal c"
  unfolding is_space_def
  by (elim insertE emptyE; hypsubst; simp add: is_decimal_def decimal_zeros_def)

lemma bracket_classes [simp]: "\<not> is_decimal 93" "\<not> is_space 91" "\<not> is_space 93"
  by (simp_all add: is_decimal_def decimal_zeros_def is_space_def)

end
