(* ===== verification/ElfText.thy ===== *)
theory ElfText
  imports Regex Provenance
begin

section \<open>ELF audits on the output of readelf\<close>

text \<open>
  \<open>audit_elf_section_text\<close>, \<open>audit_linux_elf_text\<close>, \<open>audit_linux_static_binary\<close> and
  \<open>audit_android_binary\<close> of \<open>audit-artifact.py\<close>. The programs they run are the parameter
  \<open>elf_host\<close>: the text that \<open>readelf\<close> prints for a flag and a file, or the audit error of a
  failed command, and the shell script \<open>verify-android-elf.sh\<close>.
\<close>

subsection \<open>Sections\<close>

text \<open>\<open>^\s*\[\s*\d+\]\s+(\S+)\<close>\<close>

definition section_re :: re where
  "section_re = Seq (Star ws) (Seq (lit ''['') (Seq (Star ws) (Seq (plus digit) (Seq (lit '']'')
     (Seq (plus ws) (Group 1 (plus (One (\<lambda>c. \<not> is_space c)))))))))"

definition forbidden_section :: "pystr \<Rightarrow> bool" where
  "forbidden_section name \<longleftrightarrow>
     startswith name (U ''.debug'') \<or> startswith name (U ''.zdebug'') \<or> name = U ''.symtab''"

definition audit_elf_section_text :: "pystr \<Rightarrow> pystr \<Rightarrow> unit res" where
  "audit_elf_section_text section_headers label =
     (if \<not> contains section_headers (U ''Section Headers:'') \<and>
         \<not> contains section_headers (U ''There are no sections in this file.'')
      then fail ''ELF section-header output is malformed: {}'' [label]
      else
      let names = concat (map (\<lambda>line. case re_match section_re line of
                    None \<Rightarrow> [] | Some t \<Rightarrow> [group 1 t]) (splitlines section_headers))
      in forE (\<lambda>name. if forbidden_section name
           then fail ''ELF release binary contains forbidden debug/symbol section {}: {}'' [name, label]
           else Inr ()) names)"

subsection \<open>Linux\<close>

text \<open>\<open>key\s+(?:a|b|...)\<close>\<close>

fun alts :: "pystr list \<Rightarrow> re" where
  "alts [] = Seq AtEnd (One (\<lambda>_. False))"
| "alts [w] = lit_re w"
| "alts (w # v # vs) = Alt (lit_re w) (alts (v # vs))"

definition labelled :: "string \<Rightarrow> pystr list \<Rightarrow> re" where
  "labelled key values = Seq (lit key) (Seq (plus ws) (alts values))"

definition linux_machine :: "(pystr, pystr list) dict" where
  "linux_machine = [(U ''linux-x86_64'', [U ''Advanced Micro Devices X86-64'', U ''AMD x86-64'']),
     (U ''linux-aarch64'', [U ''AArch64''])]"

definition audit_linux_elf_text ::
  "pystr \<Rightarrow> pystr \<Rightarrow> pystr \<Rightarrow> pystr \<Rightarrow> pystr \<Rightarrow> pystr \<Rightarrow> unit res" where
  "audit_linux_elf_text header dynamic program_headers platform label section_headers =
     (case map_of linux_machine platform of
        None \<Rightarrow> fail ''unsupported Linux platform: {}'' [platform]
      | Some names \<Rightarrow>
          if \<not> contains header (U ''ELF'') then fail ''Linux binary is not an ELF: {}'' [label]
          else if re_search (labelled ''Class:'' [U ''ELF64'']) header = None \<or>
                  re_search (labelled ''Machine:'' names) header = None
          then fail ''Linux binary is not {} ELF: {}''
                 [if platform = U ''linux-aarch64'' then U ''aarch64'' else U ''x86-64'', label]
          else if re_search (Alt (lit ''Requesting program interpreter:'') (lit ''INTERP'')) program_headers \<noteq> None
          then fail ''Linux static binary contains PT_INTERP: {}'' [label]
          else if re_search (Alt (lit ''(NEEDED)'') (lit ''Shared library:'')) dynamic \<noteq> None
          then fail ''Linux static binary contains DT_NEEDED: {}'' [label]
          else audit_elf_section_text section_headers label)"

record elf_host =
  readelf :: "(string \<Rightarrow> bytes \<Rightarrow> pystr res) option"
  android_readelf :: "(string \<Rightarrow> bytes \<Rightarrow> pystr res) option"
  verify_android_elf :: "bytes \<Rightarrow> pystr \<Rightarrow> pystr \<Rightarrow> unit res"

definition audit_linux_static_binary :: "elf_host \<Rightarrow> bytes \<Rightarrow> pystr \<Rightarrow> pystr \<Rightarrow> unit res" where
  "audit_linux_static_binary host binary label platform =
     (case readelf host of
        None \<Rightarrow> fail ''readelf or llvm-readelf is required'' []
      | Some run \<Rightarrow>
          andThen (run ''-h'' binary) (\<lambda>header.
          andThen (run ''-d'' binary) (\<lambda>dynamic.
          andThen (run ''-lW'' binary) (\<lambda>program_headers.
          andThen (run ''-SW'' binary) (\<lambda>sections.
            audit_linux_elf_text header dynamic program_headers platform label sections)))))"

subsection \<open>Android\<close>

text \<open>
  \<open>Machine:\s+a|b|...\<close>: the alternatives are not grouped in the source, so all but the first
  match anywhere in the header.
\<close>

definition android_machine_re :: "pystr list \<Rightarrow> re" where
  "android_machine_re names = (case names of
       [] \<Rightarrow> Seq (lit ''Machine:'') (plus ws)
     | [n] \<Rightarrow> labelled ''Machine:'' [n]
     | n # ns \<Rightarrow> Alt (labelled ''Machine:'' [n]) (alts ns))"

text \<open>\<open>Requesting program interpreter:\s*([^\]\n]+)\<close>\<close>

definition interpreter_re :: re where
  "interpreter_re = Seq (lit ''Requesting program interpreter:'') (Seq (Star ws)
     (Group 1 (plus (One (\<lambda>c. c \<noteq> 93 \<and> c \<noteq> 10)))))"

text \<open>\<open>(?m)^\s*LOAD\s+.*\s(0x[0-9A-Fa-f]+)\s*$\<close>\<close>

definition load_re :: re where
  "load_re = Seq Bol (Seq (Star ws) (Seq (lit ''LOAD'') (Seq (plus ws) (Seq (Star dot) (Seq ws
     (Seq (Group 1 (Seq (lit ''0x'') (plus (One is_hex)))) (Seq (Star ws) Eol)))))))"

definition hex_number :: "pystr \<Rightarrow> nat" where
  "hex_number s = foldl (\<lambda>n c. 16 * n + (if is_digit c then c - 48 else if 97 \<le> c then c - 87 else c - 55)) 0
     (drop 2 s)"

definition audit_android_binary :: "elf_host \<Rightarrow> bytes \<Rightarrow> pystr \<Rightarrow> pystr \<Rightarrow> unit res" where
  "audit_android_binary host binary label platform =
     (case map_of ANDROID_ABI_METADATA platform of
        None \<Rightarrow> fail ''unsupported Android platform: {}'' [platform]
      | Some metadata \<Rightarrow>
      (case android_readelf host of
        None \<Rightarrow> fail ''readelf or llvm-readelf is required'' []
      | Some run \<Rightarrow>
          andThen (run ''-h'' binary) (\<lambda>header.
          andThen (run ''-lW'' binary) (\<lambda>program_headers.
            if \<not> contains header (U ''ELF'') \<or>
               re_search (labelled ''Class:'' [elf_class metadata]) header = None \<or>
               re_search (android_machine_re (machine_names metadata)) header = None
            then fail ''Android binary has the wrong ELF class or machine: {}'' [label]
            else if map_option (group 1) (re_search interpreter_re program_headers)
                      \<noteq> Some (interpreter metadata)
            then fail ''Android binary has the wrong interpreter: {}'' [label]
            else
            let alignments = map (group 1) (re_findall load_re program_headers) in
            if alignments = [] \<or> list_ex (\<lambda>a. hex_number a \<noteq> 0x4000) alignments
            then fail ''Android binary LOAD segments are not aligned to 16 KiB: {}'' [label]
            else verify_android_elf host binary (abi metadata) (interpreter metadata)))))"

subsection \<open>Reading a section line directly\<close>

text \<open>
  The same as \<open>section_re\<close> without a matcher: white space, a bracketed number, white space, and
  the word up to the next white space.
\<close>

definition section_name :: "pystr \<Rightarrow> pystr option" where
  "section_name line =
     (let a = dropWhile is_space line; b = dropWhile is_space (drop 1 a);
          d = takeWhile is_decimal b; c = dropWhile is_decimal b;
          e = drop 1 c; n = takeWhile (\<lambda>x. \<not> is_space x) (dropWhile is_space e)
      in if take 1 a = [91] \<and> d \<noteq> [] \<and> take 1 c = [93] \<and> takeWhile is_space e \<noteq> [] \<and> n \<noteq> []
         then Some n else None)"

lemma startswith1: "startswith s [c] \<longleftrightarrow> take 1 s = [c]"
  by (simp add: startswith_def)

lemma hd1: "take 1 s = [c] \<Longrightarrow> p (hd s) \<Longrightarrow> p c"
  by (cases s) auto

lemma takeWhile_hd: "takeWhile p s = [] \<longleftrightarrow> s = [] \<or> \<not> p (hd s)"
  by (cases s) auto

lemma section_re_name: "map_option (group 1) (re_match section_re line) = section_name line"
proof -
  let ?name = "Group 1 (plus (One (\<lambda>c. \<not> is_space c)))"
  let ?r5 = "Seq (plus ws) ?name"
  let ?r4 = "Seq (lit '']'') ?r5"
  let ?r3 = "Seq (plus digit) ?r4"
  let ?r2 = "Seq (lit ''['') (Seq (Star ws) ?r3)"
  have n: "matches ?name t = []" if "rest t \<noteq> []" "is_space (hd (rest t))" for t
    using that by (auto simp: plus_def matches_One)
  have r5: "matches ?r5 t = (if takeWhile is_space (rest t) = [] then []
      else matches ?name (adv (length (takeWhile is_space (rest t))) t))" for t
    unfolding ws_def by (rule matches_plus_run) (use n in auto)
  have r4: "matches ?r4 t = (if take 1 (rest t) = [93] then matches ?r5 (adv 1 t) else [])" for t
    by (simp add: matches_Seq_lit U_Cons startswith1 del: matches.simps)
  have r4_nil: "matches ?r4 t = []" if "is_decimal (hd (rest t))" for t
  proof -
    have "take 1 (rest t) \<noteq> [93]" using hd1 [of "rest t" 93 is_decimal] that bracket_classes by blast
    then show ?thesis by (simp only: r4 if_False)
  qed
  have r3: "matches ?r3 t = (if takeWhile is_decimal (rest t) = [] then []
      else matches ?r4 (adv (length (takeWhile is_decimal (rest t))) t))" for t
    unfolding digit_def by (rule matches_plus_run) (rule r4_nil)
  have r3_nil: "matches ?r3 t = []" if "is_space (hd (rest t))" for t
    using space_not_decimal [OF that] by (simp only: r3 takeWhile_hd) simp
  have r2': "matches (Seq (Star ws) ?r3) t = matches ?r3 (adv (length (takeWhile is_space (rest t))) t)" for t
    unfolding ws_def by (rule matches_run) (rule r3_nil [unfolded ws_def])
  have r2: "matches ?r2 t = (if take 1 (rest t) = [91] then matches (Seq (Star ws) ?r3) (adv 1 t) else [])" for t
    by (simp add: matches_Seq_lit U_Cons startswith1 del: matches.simps)
  have r2_nil: "matches ?r2 t = []" if "is_space (hd (rest t))" for t
  proof -
    have "take 1 (rest t) \<noteq> [91]" using hd1 [of "rest t" 91 is_space] that bracket_classes by blast
    then show ?thesis by (simp only: r2 if_False)
  qed
  have r1: "matches section_re t = matches ?r2 (adv (length (takeWhile is_space (rest t))) t)" for t
    unfolding section_re_def ws_def by (rule matches_run) (rule r2_nil [unfolded ws_def])
  have name: "map_option (group 1) (first (matches ?name t)) =
      (let n = takeWhile (\<lambda>x. \<not> is_space x) (rest t) in if n = [] then None else Some n)" for t
  proof -
    let ?n = "takeWhile (\<lambda>x. \<not> is_space x) (rest t)"
    have "length ?n \<le> length (rest t)" by (rule length_takeWhile_le)
    moreover have "take (length ?n) (rest t) = ?n" by (rule takeWhile_eq_take [symmetric])
    ultimately show ?thesis by (simp add: first_map first_plus Let_def group_def)
  qed
  have push: "map_option (group 1) (first (if c then xs else ys)) =
      (if c then map_option (group 1) (first xs) else map_option (group 1) (first ys))" for c xs ys
    by simp
  have nil: "map_option (group 1) (first []) = None" by simp
  show ?thesis
    unfolding re_match_def r1 r2 r2' r3 r4 r5 push name nil
    by (simp add: section_name_def Let_def start_def del: drop_drop flip: dropWhile_eq_drop)
qed

lemma alts_nonempty:
  "vs \<noteq> [] \<Longrightarrow> matches (alts vs) t \<noteq> [] \<longleftrightarrow> (\<exists>v \<in> set vs. startswith (rest t) v)"
  by (induction vs rule: alts.induct) (auto simp: matches_lit_re)

text \<open>A labelled value: the key, at least one white space, one of the values.\<close>

definition has_labelled :: "pystr \<Rightarrow> pystr list \<Rightarrow> pystr \<Rightarrow> bool" where
  "has_labelled key vs s \<longleftrightarrow> (\<exists>l w v r. s = l @ key @ w @ v @ r \<and> w \<noteq> [] \<and> list_all is_space w \<and> v \<in> set vs)"

lemma starts_suffix: "(\<exists>t \<in> set (starts p s). rest t = u) \<longleftrightarrow> (\<exists>l. s = l @ u)"
proof (induction s arbitrary: p)
  case (Cons c s)
  then show ?case by (auto simp: Cons_eq_append_conv)
qed auto

lemma labelled_matches:
  assumes "vs \<noteq> []" and "\<And>v. v \<in> set vs \<Longrightarrow> v \<noteq> [] \<and> \<not> is_space (hd v)"
  shows "matches (labelled key vs) t \<noteq> [] \<longleftrightarrow>
    (\<exists>w v r. rest t = U key @ w @ v @ r \<and> w \<noteq> [] \<and> list_all is_space w \<and> v \<in> set vs)"
proof -
  have alts_nil: "matches (alts vs) t = []" if "is_space (hd (rest t))" for t
  proof (rule ccontr)
    assume "matches (alts vs) t \<noteq> []"
    then obtain v where "v \<in> set vs" "startswith (rest t) v" using alts_nonempty [OF assms(1)] by blast
    then show False using assms(2) [of v] that by (auto simp: startswith_iff hd_append)
  qed
  have run: "matches (Seq (plus ws) (alts vs)) t = (if takeWhile is_space (rest t) = [] then []
      else matches (alts vs) (adv (length (takeWhile is_space (rest t))) t))" for t
    unfolding ws_def by (rule matches_plus_run) (rule alts_nil)
  have take: "takeWhile is_space (w @ v @ r) = w \<and> dropWhile is_space (w @ v @ r) = v @ r"
    if "list_all is_space w" "v \<in> set vs" for w v r
    using that assms(2) [of v] by (cases v) (auto simp: list_all_iff takeWhile_append dropWhile_append)
  have "matches (Seq (plus ws) (alts vs)) t \<noteq> [] \<longleftrightarrow>
      (\<exists>w v r. rest t = w @ v @ r \<and> w \<noteq> [] \<and> list_all is_space w \<and> v \<in> set vs)" for t
  proof
    assume "matches (Seq (plus ws) (alts vs)) t \<noteq> []"
    then have "takeWhile is_space (rest t) \<noteq> []"
      and "\<exists>v \<in> set vs. startswith (dropWhile is_space (rest t)) v"
      using alts_nonempty [OF assms(1), of "adv (length (takeWhile is_space (rest t))) t"]
      unfolding run by (auto simp: dropWhile_eq_drop split: if_splits)
    moreover have "rest t = takeWhile is_space (rest t) @ dropWhile is_space (rest t)" by simp
    ultimately show "\<exists>w v r. rest t = w @ v @ r \<and> w \<noteq> [] \<and> list_all is_space w \<and> v \<in> set vs"
      unfolding startswith_iff by (metis list_all_iff set_takeWhileD)
  next
    assume "\<exists>w v r. rest t = w @ v @ r \<and> w \<noteq> [] \<and> list_all is_space w \<and> v \<in> set vs"
    then obtain w v r where t: "rest t = w @ v @ r" "w \<noteq> []" "list_all is_space w" "v \<in> set vs" by blast
    then show "matches (Seq (plus ws) (alts vs)) t \<noteq> []"
      using take [of w v r] alts_nonempty [OF assms(1), of "adv (length w) t"] unfolding run
      by (auto simp: startswith_iff)
  qed
  note tail = this
  show ?thesis
  proof (cases "startswith (rest t) (U key)")
    case True
    then obtain u where u: "rest t = U key @ u" by (auto simp: startswith_iff)
    then have "rest (adv (length key) t) = u" by simp
    with True u tail [of "adv (length key) t"] show ?thesis
      unfolding labelled_def matches_Seq_lit by (simp del: matches.simps)
  next
    case False
    then show ?thesis
      unfolding labelled_def matches_Seq_lit startswith_iff by simp
  qed
qed

lemma re_search_labelled:
  assumes "vs \<noteq> []" and "\<And>v. v \<in> set vs \<Longrightarrow> v \<noteq> [] \<and> \<not> is_space (hd v)"
  shows "re_search (labelled key vs) s \<noteq> None \<longleftrightarrow> has_labelled (U key) vs s"
proof -
  have "re_search (labelled key vs) s \<noteq> None \<longleftrightarrow>
      (\<exists>t \<in> set (starts None s). \<exists>w v r. rest t = U key @ w @ v @ r \<and> w \<noteq> [] \<and>
         list_all is_space w \<and> v \<in> set vs)"
    using labelled_matches [OF assms, of key] by (auto simp: re_search_None simp del: not_None_eq)
  also have "\<dots> \<longleftrightarrow> has_labelled (U key) vs s"
    using starts_suffix [of None s] unfolding has_labelled_def by metis
  finally show ?thesis .
qed

subsection \<open>Properties\<close>

text \<open>C36. The section audit accepts a listing exactly when it has one of the two headings of
  \<open>readelf\<close> and no line of it, read directly as \<open>[number] name\<close>, names a debug section or the
  symbol table. In particular the regular expression neither misses nor invents a name.\<close>

theorem audit_elf_section_text_exact:
  "audit_elf_section_text section_headers label = Inr () \<longleftrightarrow>
     (contains section_headers (U ''Section Headers:'') \<or>
      contains section_headers (U ''There are no sections in this file.'')) \<and>
     list_all (\<lambda>line. case section_name line of None \<Rightarrow> True | Some name \<Rightarrow> \<not> forbidden_section name)
       (splitlines section_headers)"
proof -
  have "(case re_match section_re line of None \<Rightarrow> [] | Some t \<Rightarrow> [group 1 t]) =
      (case section_name line of None \<Rightarrow> [] | Some n \<Rightarrow> [n])" for line
    unfolding section_re_name [symmetric] by (simp split: option.split)
  then show ?thesis
    by (auto simp: audit_elf_section_text_def res_simps Let_def list_all_iff split: option.splits if_splits)
qed

text \<open>The Linux text audit accepts exactly the static ELF64 listings of the platform: the
  class and the machine are the required ones, the program headers name no interpreter, the
  dynamic section names no shared library, and the section audit passes.\<close>

theorem audit_linux_elf_text_exact:
  "audit_linux_elf_text header dynamic program_headers platform label section_headers = Inr () \<longleftrightarrow>
     (\<exists>names. map_of linux_machine platform = Some names \<and> contains header (U ''ELF'') \<and>
        has_labelled (U ''Class:'') [U ''ELF64''] header \<and> has_labelled (U ''Machine:'') names header) \<and>
     \<not> contains program_headers (U ''Requesting program interpreter:'') \<and>
     \<not> contains program_headers (U ''INTERP'') \<and>
     \<not> contains dynamic (U ''(NEEDED)'') \<and> \<not> contains dynamic (U ''Shared library:'') \<and>
     audit_elf_section_text section_headers label = Inr ()"
proof -
  have "re_search (labelled ''Class:'' [U ''ELF64'']) header \<noteq> None \<longleftrightarrow>
      has_labelled (U ''Class:'') [U ''ELF64''] header"
    by (rule re_search_labelled) (auto simp: U_Cons is_space_def)
  moreover have "re_search (labelled ''Machine:'' names) header \<noteq> None \<longleftrightarrow>
      has_labelled (U ''Machine:'') names header" if "map_of linux_machine platform = Some names" for names
    by (rule re_search_labelled)
      (use that in \<open>auto simp: linux_machine_def U_Cons is_space_def split: if_splits\<close>)
  ultimately show ?thesis
    by (auto simp: audit_linux_elf_text_def re_search_Alt re_search_lit res_simps fail_def
        split: option.splits if_splits simp del: not_None_eq)
qed

definition foreign_header :: pystr where
  "foreign_header = U ''ELF Class: ELF64 Machine: RISC-V Flags: x86-64''"

text \<open>The machine check of the Android audit is weaker than its table says: because its
  alternatives are not grouped, the header of a program for another machine passes as soon as a
  later alternative occurs anywhere in the text.\<close>

theorem android_machine_ungrouped:
  "\<exists>metadata. map_of ANDROID_ABI_METADATA (U ''android-x86_64'') = Some metadata \<and>
     re_search (android_machine_re (machine_names metadata)) foreign_header \<noteq> None \<and>
     has_labelled (U ''Machine:'') [U ''RISC-V''] foreign_header \<and>
     \<not> has_labelled (U ''Machine:'') (machine_names metadata) foreign_header"
proof -
  let ?names = "[U ''Advanced Micro Devices X86-64'', U ''AMD x86-64'', U ''X86-64'', U ''x86-64'']"
  have "contains foreign_header (U ''x86-64'')"
    by (simp add: foreign_header_def U_Cons startswith_def)
  then have "re_search (lit ''x86-64'') foreign_header \<noteq> None" by (simp add: re_search_lit)
  then have "re_search (android_machine_re ?names) foreign_header \<noteq> None"
    by (simp add: android_machine_re_def re_search_Alt lit_def del: not_None_eq)
  moreover have "has_labelled (U ''Machine:'') [U ''RISC-V''] foreign_header"
    unfolding has_labelled_def foreign_header_def
    by (rule exI [of _ "U ''ELF Class: ELF64 ''"], rule exI [of _ "[32]"], rule exI [of _ "U ''RISC-V''"],
        rule exI [of _ "U '' Flags: x86-64''"]) (simp add: U_Cons is_space_def)
  moreover have "re_search (labelled ''Machine:'' ?names) foreign_header = None"
  proof -
    have "matches (labelled ''Machine:'' ?names) t = []" if "t \<in> set (starts None foreign_header)" for t
    proof (cases "startswith (rest t) (U ''Machine:'')")
      case False
      then show ?thesis unfolding labelled_def matches_Seq_lit by simp
    next
      case True
      then have "rest t = U ''Machine: RISC-V Flags: x86-64''"
        using that by (auto simp: foreign_header_def U_Cons startswith_def)
      then show ?thesis
        unfolding labelled_def matches_Seq_lit
        by (simp add: plus_def ws_def matches_One star_iter_One matches_lit_re U_Cons startswith_def
            is_space_def)
    qed
    then show ?thesis by (simp add: re_search_None)
  qed
  moreover have "re_search (labelled ''Machine:'' ?names) foreign_header \<noteq> None \<longleftrightarrow>
      has_labelled (U ''Machine:'') ?names foreign_header"
    by (rule re_search_labelled) (auto simp: U_Cons is_space_def)
  ultimately show ?thesis by (simp add: ANDROID_ABI_METADATA_def)
qed

end
