(* ===== verification/AuditBinary.thy ===== *)
theory AuditBinary
  imports AuditManifest MachO ElfText
begin

section \<open>The audit of a binary archive\<close>

text \<open>
  \<open>audit_binary_archive\<close> of \<open>audit-artifact.py\<close>: the member list, the manifest, the archive's
  own name, modes, the audit of every program, firmware, notice, build records, evidence and
  checksums, in the order of the code. \<open>L\<close> decodes containers and \<open>host\<close> runs \<open>readelf\<close>.
\<close>

definition payload :: "(pystr, bytes) dict \<Rightarrow> string \<Rightarrow> bytes res" where
  "payload payloads name = get_item payloads (U name) (KeyError (U name))"

definition source_archive_name :: "pystr \<Rightarrow> pystr" where
  "source_archive_name version = U ''siano-ts-'' @ version @ U ''-source.tar.gz''"

definition archive_name :: "pystr \<Rightarrow> pystr \<Rightarrow> pystr" where
  "archive_name version platform = U ''siano-ts-'' @ version @ U ''-'' @ platform @ U ''.''
     @ (if is_windows platform then U ''zip'' else U ''tar.gz'')"

definition elf_audits :: "elf_host \<Rightarrow> (pystr, bytes) dict \<Rightarrow> pystr \<Rightarrow> unit res" where
  "elf_audits host payloads platform =
     (if is_linux platform \<or> is_android platform then
        forE (\<lambda>program.
            andThen (get_item payloads program (KeyError program)) (\<lambda>binary.
              if is_linux platform then audit_linux_static_binary host binary program platform
              else audit_android_binary host binary program platform))
          (program_names platform)
      else Inr ())"

definition linux_records ::
  "(pystr, bytes) dict \<Rightarrow> (pystr, nat) dict \<Rightarrow> (pystr, pystr) dict \<Rightarrow> pystr \<Rightarrow> pystr \<Rightarrow> unit res" where
  "linux_records payloads modes fs version platform =
     andThen (check_fields ''dependency notice field mismatch: {}''
       [(''dependency.libusb.version'', LIBUSB_VERSION), (''dependency.libusb.linkage'', U ''static''),
        (''dependency.libusb.license'', U ''LGPL-2.1-or-later''),
        (''dependency.libusb.backend'', U ''netlink''), (''dependency.libusb.udev'', U ''disabled''),
        (''corresponding-source'', source_archive_name version),
        (''corresponding-source.path'', U ''third_party/libusb-'' @ LIBUSB_VERSION @ U ''.tar.bz2''),
        (''libusb.source.url'', LIBUSB_SOURCE_URL), (''libusb.source.sha256'', LIBUSB_SOURCE_SHA256)] fs) (\<lambda>_.
     andThen (get_item LINUX_ARCHITECTURES platform (KeyError platform)) (\<lambda>architecture.
     andThen (payload payloads ''evidence/build.properties'') (\<lambda>raw.
     andThen (parse_build_properties raw (U ''Linux'')) (\<lambda>property_map.
     andThen (check_fields ''Linux build property mismatch: {}''
       [(''target_os'', U ''linux''), (''target_arch'', architecture), (''libc'', U ''none''),
        (''build_libc'', U ''musl''), (''linkage'', U ''static''), (''libusb_version'', LIBUSB_VERSION),
        (''libusb_source_url'', LIBUSB_SOURCE_URL), (''libusb_source_sha256'', LIBUSB_SOURCE_SHA256),
        (''libusb_backend'', U ''netlink'')] property_map) (\<lambda>_.
       verify_linux_runtime_provenance payloads modes property_map fs)))))"

definition android_records ::
  "(pystr, bytes) dict \<Rightarrow> (pystr, pystr) dict \<Rightarrow> pystr \<Rightarrow> unit res" where
  "android_records payloads fs platform =
     (let source = U ''libusb/libusb-'' @ LIBUSB_VERSION @ U ''.tar.bz2'' in
     andThen (check_fields ''dependency notice field mismatch: {}''
       [(''dependency.libusb.version'', LIBUSB_VERSION), (''dependency.libusb.linkage'', U ''static''),
        (''dependency.libusb.license'', U ''LGPL-2.1-or-later''), (''corresponding-source'', source),
        (''corresponding-source.sha256'', LIBUSB_SOURCE_SHA256)] fs) (\<lambda>_.
     andThen (get_item payloads source (KeyError source)) (\<lambda>data.
     if sha256_bytes data \<noteq> LIBUSB_SOURCE_SHA256
     then fail ''Android corresponding libusb source checksum mismatch'' []
     else forE (verify_android_provenance payloads fs platform) (program_names platform))))"

definition windows_records ::
  "(pystr, bytes) dict \<Rightarrow> (pystr, pystr) dict \<Rightarrow> pystr \<Rightarrow> pystr \<Rightarrow> unit res" where
  "windows_records payloads fs version platform =
     andThen (check_fields ''dependency notice field mismatch: {}''
       [(''dependency.libusb.version'', LIBUSB_VERSION), (''dependency.libusb.linkage'', U ''dynamic''),
        (''dependency.libusb.provider'', U ''bundled''),
        (''libusb.package.url'', WINDOWS_LIBUSB_PACKAGE_URL),
        (''libusb.package.sha256'', WINDOWS_LIBUSB_PACKAGE_SHA256),
        (''corresponding-source.sha256'', LIBUSB_SOURCE_SHA256)] fs) (\<lambda>_.
     andThen (payload payloads ''libusb/NOTICE.txt'') (\<lambda>raw.
     andThen (utf8_decode raw) (\<lambda>notice.
     if \<not> contains (lower notice) (U ''libusb-1.0.dll'')
     then fail ''Windows libusb notice does not identify the bundled DLL'' []
     else if \<not> contains notice (source_archive_name version)
     then fail ''Windows libusb notice does not point to the corresponding project source archive'' []
     else
     andThen (forE (\<lambda>name. if endswith (lower name) (U ''.pdb'')
         then fail ''Windows package contains a bundled PDB: {}'' [name] else Inr ()) (map fst payloads)) (\<lambda>_.
     andThen (forE (\<lambda>program. andThen (get_item payloads program (KeyError program)) (\<lambda>binary.
         audit_pe_x64_bytes binary program True)) (program_names platform)) (\<lambda>_.
     andThen (payload payloads ''libusb-1.0.dll'') (\<lambda>dll.
       audit_pe_x64_bytes dll (U ''libusb-1.0.dll'') False))))))"

definition darwin_records ::
  "(pystr, bytes) dict \<Rightarrow> (pystr, pystr) dict \<Rightarrow> pystr \<Rightarrow> pystr \<Rightarrow> unit res" where
  "darwin_records payloads fs version platform =
     andThen (check_fields ''dependency notice field mismatch: {}''
       [(''dependency.libusb.version'', LIBUSB_VERSION), (''dependency.libusb.linkage'', U ''static''),
        (''dependency.libusb.license'', U ''LGPL-2.1-or-later''),
        (''dependency.libusb.backend'', U ''darwin''),
        (''corresponding-source'', source_archive_name version),
        (''corresponding-source.path'', U ''third_party/libusb-'' @ LIBUSB_VERSION @ U ''.tar.bz2''),
        (''libusb.source.url'', LIBUSB_SOURCE_URL), (''libusb.source.sha256'', LIBUSB_SOURCE_SHA256)] fs) (\<lambda>_.
     andThen (payload payloads ''evidence/build.properties'') (\<lambda>raw.
     andThen (parse_build_properties raw (U ''macOS'')) (\<lambda>property_map.
     andThen (check_fields ''macOS build property mismatch: {}''
       [(''target_os'', U ''darwin''), (''target_arch'', U ''arm64''), (''linkage'', U ''static''),
        (''libusb_version'', LIBUSB_VERSION), (''libusb_source_url'', LIBUSB_SOURCE_URL),
        (''libusb_source_sha256'', LIBUSB_SOURCE_SHA256), (''libusb_backend'', U ''darwin''),
        (''macos_deployment_target'', DARWIN_DEPLOYMENT_TARGET)] property_map) (\<lambda>_.
       forE (\<lambda>program. andThen (get_item payloads program (KeyError program)) (\<lambda>binary.
         audit_darwin_macho binary program)) (program_names platform)))))"

definition platform_records ::
  "(pystr, bytes) dict \<Rightarrow> (pystr, nat) dict \<Rightarrow> (pystr, pystr) dict \<Rightarrow> pystr \<Rightarrow> pystr \<Rightarrow> unit res" where
  "platform_records payloads modes fs version platform =
     (if is_linux platform then linux_records payloads modes fs version platform
      else if is_android platform then android_records payloads fs platform
      else if is_windows platform then windows_records payloads fs version platform
      else darwin_records payloads fs version platform)"

text \<open>The report, which in the source also has the resolved path of the archive.\<close>

record audit_report =
  r_platform :: pystr
  r_members :: "pystr list"
  r_manifest :: "(pystr, json) dict"

text \<open>The audit of the payloads of an archive called \<open>name\<close>.\<close>

definition audit_binary_payloads ::
  "elf_host \<Rightarrow> (pystr, bytes) dict \<Rightarrow> (pystr, nat) dict \<Rightarrow> pystr \<Rightarrow> pystr \<Rightarrow> audit_report res" where
  "audit_binary_payloads host payloads modes name platform =
     andThen (expected_members platform) (\<lambda>expected.
     if keys payloads \<noteq> expected then fail ''archive member allowlist mismatch'' []
     else
     andThen (verify_manifest payloads platform) (\<lambda>manifest.
     let version = str_of (jget manifest (U ''version'')) in
     if name \<noteq> archive_name version platform
     then fail ''archive name does not match platform/version: {}'' [name]
     else
     andThen (forE (\<lambda>program. verify_binary_archive_mode modes program platform) (program_names platform)) (\<lambda>_.
     andThen (verify_linux_mdev_modes modes platform) (\<lambda>_.
     andThen (elf_audits host payloads platform) (\<lambda>_.
     andThen (payload payloads ''firmware/isdbt_rio.inp'') (\<lambda>firmware.
     if sha256_bytes firmware \<noteq> FIRMWARE_SHA256
     then fail ''firmware SHA256 does not match the pinned input'' []
     else
     andThen (payload payloads ''LICENCE.siano'') (\<lambda>licence.
     if sha256_bytes licence \<noteq> FIRMWARE_LICENSE_SHA256
     then fail ''Siano firmware license does not match the pinned input'' []
     else
     andThen (payload payloads ''DEPENDENCY-NOTICE.txt'') (\<lambda>notice.
     andThen (notice_fields notice) (\<lambda>fs.
     andThen (exact_firmware_fields fs) (\<lambda>_.
     if map_of fs (U ''source.archive'') \<noteq> Some (source_archive_name version)
     then fail ''dependency notice does not point to the corresponding project source archive'' []
     else
     andThen (platform_records payloads modes fs version platform) (\<lambda>_.
     andThen (forE (verify_binary_evidence payloads manifest) (program_names platform)) (\<lambda>_.
     andThen (verify_checksums payloads) (\<lambda>_.
       Inr \<lparr>r_platform = platform, r_members = sort (map fst payloads), r_manifest = manifest\<rparr>)))))))))))))"

definition audit_binary_archive ::
  "container_lib \<Rightarrow> elf_host \<Rightarrow> disk_file \<Rightarrow> pystr \<Rightarrow> audit_report res" where
  "audit_binary_archive L host path platform =
     andThen (archive_payloads L path) (\<lambda>(payloads, modes).
       audit_binary_payloads host payloads modes (f_name path) platform)"

end
