(* ===== verification/JsonRoundtrip.thy ===== *)
theory JsonRoundtrip
  imports JsonDump "HOL-Library.Multiset"
begin

section \<open>JSON documents read back\<close>

text \<open>
  What \<open>json.dumps\<close> prints, \<open>json.loads\<close> reads back, with the keys of every object sorted:
  first strings and integers, then documents by induction over the printed value, and at last
  the encoded bytes, whose encoding the decoder has to detect.
\<close>

subsection \<open>Strings read back\<close>

lemma hex_digit_val: "d < 16 \<Longrightarrow> is_hex (hex_digit d) \<and> hex_val (hex_digit d) = d"
  by (auto simp: hex_digit_def is_hex_def is_lower_hex_def is_digit_def hex_val_def)

lemma hex4_hex_word:
  assumes "n < 65536"
  shows "hex4 (hex_word 4 n @ r) = Some (n, r)"
proof -
  define a b c d where "a = n div 16 div 16 div 16" and "b = n div 16 div 16 mod 16"
    and "c = n div 16 mod 16" and "d = n mod 16"
  have lt: "a < 16" "b < 16" "c < 16" "d < 16"
    using assms by (simp_all add: a_def b_def c_def d_def div_mult2_eq [symmetric] less_mult_imp_div_less)
  have n: "((a * 16 + b) * 16 + c) * 16 + d = n" by (simp add: a_def b_def c_def d_def)
  have "(4 :: nat) = Suc (Suc (Suc (Suc 0)))" by simp
  then have "hex_word 4 n = [hex_digit (a mod 16), hex_digit b, hex_digit c, hex_digit d]"
    by (simp only: hex_word.simps append.simps a_def b_def c_def d_def)
  moreover have "a mod 16 = a" using lt(1) by simp
  ultimately have "hex_word 4 n = [hex_digit a, hex_digit b, hex_digit c, hex_digit d]" by simp
  then show ?thesis
    using lt [THEN hex_digit_val] n by simp
qed

lemma unicode_escape_bmp:
  "n < 65536 \<Longrightarrow> \<not> (55296 \<le> n \<and> n < 56320) \<Longrightarrow> unicode_escape (hex_word 4 n @ r) = Some (n, r)"
  by (auto simp: unicode_escape_def hex4_hex_word)

lemma unicode_escape_pair:
  assumes "h < 1024" "l < 1024"
  shows "unicode_escape (hex_word 4 (55296 + h) @ u_escape (56320 + l) @ r) = Some (65536 + h * 1024 + l, r)"
  using assms by (simp add: unicode_escape_def u_escape_def hex4_hex_word)

lemma scanstring_plain:
  "32 \<le> c \<Longrightarrow> c \<noteq> 34 \<Longrightarrow> c \<noteq> 92 \<Longrightarrow> scanstring acc (c # r) = scanstring (c # acc) r"
  by (simp add: scanstring_Cons)

lemma scanstring_short:
  "e \<noteq> 117 \<Longrightarrow> escape_char e = Some c \<Longrightarrow> scanstring acc (92 # e # r) = scanstring (c # acc) r"
  by (simp add: scanstring_Cons)

lemma scanstring_u:
  "unicode_escape s = Some (c, r) \<Longrightarrow> scanstring acc (92 # 117 # s) = scanstring (c # acc) r"
  by (simp add: scanstring_Cons)

lemma scanstring_dump_char:
  assumes "is_scalar c"
  shows "scanstring acc (dump_char c @ r) = scanstring (c # acc) r"
proof -
  consider "c = 34" | "c = 92" | "c = 10" | "c = 13" | "c = 9" | "c = 12" | "c = 8"
    | (plain) "32 \<le> c" "c \<le> 126" "c \<noteq> 34" "c \<noteq> 92"
    | (bmp) "c < 65536" "\<not> (32 \<le> c \<and> c \<le> 126)" "c \<notin> {10, 13, 9, 12, 8}"
    | (pair) "65536 \<le> c"
    by force
  then show ?thesis
  proof cases
    case plain
    then show ?thesis by (simp add: dump_char_def scanstring_plain)
  next
    case bmp
    then have "dump_char c = u_escape c" by (auto simp: dump_char_def)
    moreover have "unicode_escape (hex_word 4 c @ r) = Some (c, r)"
      using bmp assms by (intro unicode_escape_bmp) (auto simp: is_scalar_def)
    ultimately show ?thesis by (simp add: u_escape_def scanstring_u)
  next
    case pair
    let ?h = "(c - 65536) div 1024" and ?l = "(c - 65536) mod 1024"
    have "?h < 1024" using assms by (auto simp: is_scalar_def less_mult_imp_div_less)
    moreover have "65536 + ?h * 1024 + ?l = c" using pair by simp
    ultimately have "unicode_escape (hex_word 4 (55296 + ?h) @ u_escape (56320 + ?l) @ r) = Some (c, r)"
      using unicode_escape_pair [of ?h ?l r] by simp
    moreover have "dump_char c = u_escape (55296 + ?h) @ u_escape (56320 + ?l)"
      using pair by (simp add: dump_char_def)
    ultimately show ?thesis by (simp add: u_escape_def [of "55296 + ?h"] scanstring_u)
  qed (simp_all add: dump_char_def scanstring_short escape_char_def)
qed

lemma scanstring_dump:
  "list_all is_scalar s \<Longrightarrow> scanstring acc (concat (map dump_char s) @ 34 # r) = Inr (rev acc @ s, r)"
proof (induction s arbitrary: acc)
  case Nil
  then show ?case by (simp add: scanstring_Cons)
next
  case (Cons c s)
  then show ?case by (simp add: scanstring_dump_char)
qed

subsection \<open>Integers read back\<close>

text \<open>What may follow a printed value: the end, a comma, or white space.\<close>

definition stop :: "pystr \<Rightarrow> bool" where
  "stop r \<longleftrightarrow> r = [] \<or> hd r = 44 \<or> is_ws (hd r)"

lemma str_nat_head: "n > 0 \<Longrightarrow> hd (str_nat n) \<noteq> 48"
proof (induction n rule: str_nat.induct)
  case (1 n)
  then show ?case
    by (subst str_nat.simps) (auto simp: hd_append)
qed

lemma scan_number_str_nat:
  assumes "stop r" and "neg = (take 1 s = [45])" and "(if neg then drop 1 s else s) = str_nat n @ r"
  shows "scan_number s = Some (JInt (if neg then - int n else int n), r)"
proof -
  have r: "take 1 r \<noteq> [46]" "take 1 r \<noteq> [101]" "take 1 r \<noteq> [69]" "takeWhile is_digit r = []"
    using assms(1) by (cases r; auto simp: stop_def is_ws_def is_digit_def)+
  have tw: "takeWhile is_digit (str_nat n @ r) = str_nat n"
    using str_nat_digits r(4) by (simp add: takeWhile_append2)
  have whole: "(if take 1 (str_nat n @ r) = [48] then [48] else takeWhile is_digit (str_nat n @ r)) = str_nat n"
  proof (cases "n = 0")
    case True
    then show ?thesis by (simp add: str_nat.simps)
  next
    case False
    then have "take 1 (str_nat n @ r) \<noteq> [48]"
      using str_nat_head [of n] by (cases "str_nat n") auto
    then show ?thesis using tw by simp
  qed
  show ?thesis
    unfolding scan_number_def Let_def assms(2) [symmetric] assms(3) whole
    using r by simp
qed

lemma length_str_nat: "n < 10 ^ k \<Longrightarrow> k > 0 \<Longrightarrow> length (str_nat n) \<le> k"
proof (induction n arbitrary: k rule: str_nat.induct)
  case (1 n)
  show ?case
  proof (cases "n < 10")
    case True
    then show ?thesis using 1(3) by (subst str_nat.simps) simp
  next
    case False
    then obtain j where k: "k = Suc j" "j > 0" using 1(2,3) by (cases k; cases "k - 1") auto
    then have "n div 10 < 10 ^ j" using 1(2) by (auto simp: less_mult_imp_div_less mult.commute)
    then have "length (str_nat (n div 10)) \<le> j" using 1(1) False k(2) by blast
    then show ?thesis using False k by (subst str_nat.simps) simp
  qed
qed

subsection \<open>Documents read back\<close>

text \<open>The decoder with exactly enough fuel, and its equations without fuel.\<close>

definition read_json :: "json_hooks \<Rightarrow> pystr \<Rightarrow> (json \<times> pystr) res" where
  "read_json h s = scan_once h (2 * length s + 1) s"

definition read_elements :: "json_hooks \<Rightarrow> json list \<Rightarrow> pystr \<Rightarrow> (json \<times> pystr) res" where
  "read_elements h vs s = scan_elements h (2 * length s + 2) vs s"

definition read_members :: "json_hooks \<Rightarrow> (pystr \<times> json) list \<Rightarrow> pystr \<Rightarrow> (json \<times> pystr) res" where
  "read_members h ps s = scan_members h (2 * length s + 2) ps s"

lemma scan_any: "2 * length s + 1 \<le> n \<Longrightarrow> scan_once h n s = read_json h s"
  unfolding read_json_def by (rule scan_fuel) auto

lemma elts_any: "2 * length s + 2 \<le> n \<Longrightarrow> scan_elements h n vs s = read_elements h vs s"
  unfolding read_elements_def by (rule scan_fuel) auto

lemma mems_any: "2 * length s + 2 \<le> n \<Longrightarrow> scan_members h n ps s = read_members h ps s"
  unfolding read_members_def by (rule scan_fuel) auto

lemma scan_str: "list_all is_scalar s \<Longrightarrow> read_json h (dump_str s @ r) = Inr (JStr s, r)"
  by (simp add: read_json_def dump_str_def scanstring_dump)

lemma scan_arr:
  assumes "skip_ws s = c # t" "c \<noteq> 93"
  shows "read_json h (91 # s) = read_elements h [] (c # t)"
proof -
  have "length (c # t) \<le> length s" using length_skip_ws [of s] assms(1) by simp
  then have "scan_elements h (2 * length (91 # s)) [] (c # t) = read_elements h [] (c # t)"
    by (intro elts_any) simp
  then show ?thesis using assms by (simp add: read_json_def)
qed

lemma scan_obj:
  assumes "skip_ws s = c # t" "c \<noteq> 125"
  shows "read_json h (123 # s) = read_members h [] (c # t)"
proof -
  have "length (c # t) \<le> length s" using length_skip_ws [of s] assms(1) by simp
  then have "scan_members h (2 * length (123 # s)) [] (c # t) = read_members h [] (c # t)"
    by (intro mems_any) simp
  then show ?thesis using assms by (simp add: read_json_def)
qed

lemma elts_last:
  assumes "read_json h s = Inr (v, q)" "skip_ws q = 93 # r"
  shows "read_elements h vs s = Inr (JArr (vs @ [v]), r)"
  using assms scan_any [of s "2 * length s + 1" h] by (simp add: read_elements_def del: scan_once.simps)

lemma elts_next:
  assumes "read_json h s = Inr (v, q)" "skip_ws q = 44 # t" "skip_ws t = u"
  shows "read_elements h vs s = read_elements h (vs @ [v]) u"
proof -
  have "length q < length s" using scan_length(1) assms(1) unfolding read_json_def by blast
  then have "length u < length s"
    using length_skip_ws [of q] length_skip_ws [of t] assms by simp
  then have "scan_elements h (2 * length s + 1) (vs @ [v]) u = read_elements h (vs @ [v]) u"
    by (intro elts_any) simp
  then show ?thesis
    using assms scan_any [of s "2 * length s + 1" h] by (simp add: read_elements_def [of h vs] del: scan_once.simps)
qed

lemma mems_unfold:
  assumes "list_all is_scalar k" "read_json h s = Inr (v, q)" "skip_ws (32 # s) = s"
  defines "x \<equiv> dump_str k @ [58, 32] @ s"
  shows "read_members h ps x =
    (let r = skip_ws q; acc = ps @ [(k, v)] in
     if take 1 r = [125] then andThen (pairs_hook h acc) (\<lambda>d. Inr (JObj d, drop 1 r))
     else if take 1 r = [44] then scan_members h (2 * length x + 1) acc (skip_ws (drop 1 r))
     else json_error)"
proof -
  define n where "n = 2 * length x + 1"
  have "scan_once h n s = Inr (v, q)"
    using assms(2) scan_any [of s n h] by (simp add: n_def x_def dump_str_def)
  moreover have "x = 34 # concat (map dump_char k) @ 34 # 58 # 32 # s" by (simp add: x_def dump_str_def)
  moreover have "skip_ws (58 # 32 # s) = 58 # 32 # s" by (simp add: skip_ws_def is_ws_def)
  moreover have "read_members h ps x = scan_members h (Suc n) ps x" by (simp add: read_members_def n_def)
  ultimately show ?thesis
    unfolding n_def [symmetric] using assms(1,3) by (simp add: scanstring_dump)
qed

lemma mems_last:
  assumes "list_all is_scalar k" "read_json h s = Inr (v, q)" "skip_ws (32 # s) = s" "skip_ws q = 125 # r"
  shows "read_members h ps (dump_str k @ [58, 32] @ s) =
    andThen (pairs_hook h (ps @ [(k, v)])) (\<lambda>d. Inr (JObj d, r))"
  using mems_unfold [OF assms(1-3), of ps] assms(4) by simp

lemma mems_next:
  assumes "list_all is_scalar k" "read_json h s = Inr (v, q)" "skip_ws (32 # s) = s" "skip_ws q = 44 # t"
    and "skip_ws t = u"
  shows "read_members h ps (dump_str k @ [58, 32] @ s) = read_members h (ps @ [(k, v)]) u"
proof -
  have "length q < length s" using scan_length(1) assms(2) unfolding read_json_def by blast
  then have "length u < length s"
    using length_skip_ws [of q] length_skip_ws [of t] assms(4,5) by simp
  then have "scan_members h (2 * length (dump_str k @ [58, 32] @ s) + 1) (ps @ [(k, v)]) u =
      read_members h (ps @ [(k, v)]) u"
    by (intro mems_any) simp
  then show ?thesis using mems_unfold [OF assms(1-3), of ps] assms(4,5) by simp
qed

text \<open>
  Values that print and read back: no floats, numbers within Python's limit of 4300 digits,
  texts of Unicode scalar values, and objects without a repeated key.
\<close>

definition int_limit :: int where
  "int_limit = 10 ^ 4300"

definition plain_node :: "json \<Rightarrow> bool" where
  "plain_node v = (case v of
       JStr s \<Rightarrow> list_all is_scalar s
     | JInt i \<Rightarrow> \<bar>i\<bar> < int_limit
     | JFloat f \<Rightarrow> False
     | JObj d \<Rightarrow> distinct (map fst d) \<and> list_all (list_all is_scalar) (map fst d)
     | _ \<Rightarrow> True)"

lemma plain_node_simps [simp]:
  "plain_node (JArr xs)" "plain_node JNull" "plain_node (JBool b)" "\<not> plain_node (JFloat f)"
  "plain_node (JStr s) \<longleftrightarrow> list_all is_scalar s" "plain_node (JInt i) \<longleftrightarrow> \<bar>i\<bar> < int_limit"
  "plain_node (JObj d) \<longleftrightarrow> distinct (map fst d) \<and> list_all (list_all is_scalar) (map fst d)"
  by (simp_all add: plain_node_def)

lemma skip_nl: "c # t = s \<Longrightarrow> \<not> is_ws c \<Longrightarrow> skip_ws (nl l @ s) = s"
  by (auto simp: nl_def skip_ws_def is_ws_def dropWhile_append)

lemma scan_lit:
  "read_json h (U ''null'' @ r) = Inr (JNull, r)" "read_json h (U ''true'' @ r) = Inr (JBool True, r)"
  "read_json h (U ''false'' @ r) = Inr (JBool False, r)"
  by (simp_all add: read_json_def scan_scalar_def literal_def startswith_def U_Cons)

lemma nat_abs_power: "\<bar>i\<bar> < (10 :: int) ^ k \<Longrightarrow> nat \<bar>i\<bar> < 10 ^ k"
  by (simp add: nat_less_iff)

lemma scan_scalar_number:
  assumes "is_digit c \<or> c = 45 \<and> (t = [] \<or> is_digit (hd t))"
  shows "scan_scalar h (c # t) =
    (case scan_number (c # t) of None \<Rightarrow> json_error | Some vr \<Rightarrow> number_value vr (c # t))"
    and "c \<notin> {34, 91, 123}"
  using assms by (cases t; auto simp: scan_scalar_def startswith_def U_Cons is_digit_def)+

lemma scan_int:
  assumes "\<bar>i\<bar> < int_limit" and "stop r"
  shows "read_json h (str_int i @ r) = Inr (JInt i, r)"
proof -
  let ?n = "nat \<bar>i\<bar>" and ?s = "str_int i @ r"
  have len: "length (str_nat ?n) \<le> 4300"
    by (rule length_str_nat [OF nat_abs_power [OF assms(1) [unfolded int_limit_def]]]) simp
  obtain d ds where d: "str_nat ?n = d # ds" "is_digit d"
    using str_nat_digits [of _ ?n] by (cases "str_nat ?n") auto
  have neg: "take 1 ?s = [45] \<longleftrightarrow> i < 0"
    using d by (auto simp: str_int_def is_digit_def)
  have "scan_number ?s = Some (JInt (if i < 0 then - int ?n else int ?n), r)"
    by (rule scan_number_str_nat [OF assms(2)]) (use neg in \<open>auto simp: str_int_def\<close>)
  then have "scan_number ?s = Some (JInt i, r)" by (simp split: if_splits)
  moreover have "number_value (JInt i, r) ?s = Inr (JInt i, r)"
    using len neg by (auto simp: number_value_def str_int_def)
  moreover have "\<exists>c t. ?s = c # t \<and> (is_digit c \<or> c = 45 \<and> (t = [] \<or> is_digit (hd t)))"
    using d by (cases "i < 0") (auto simp: str_int_def)
  then obtain c t where s: "?s = c # t" and c: "is_digit c \<or> c = 45 \<and> (t = [] \<or> is_digit (hd t))"
    by blast
  ultimately show ?thesis
    using scan_scalar_number(1) [OF c, of h] scan_scalar_number(2) [OF c] by (simp add: s read_json_def)
qed

lemma dump_head:
  "json_all plain_node v \<Longrightarrow> \<exists>c t. dump l v = c # t \<and> \<not> is_ws c \<and> c \<noteq> 93 \<and> c \<noteq> 125 \<and> c \<noteq> 44"
proof (cases v)
  case (JInt i)
  obtain d ds where "str_nat (nat \<bar>i\<bar>) = d # ds" "is_digit d"
    using str_nat_digits [of _ "nat \<bar>i\<bar>"] by (cases "str_nat (nat \<bar>i\<bar>)") auto
  then show ?thesis using JInt by (auto simp: str_int_def is_ws_def is_digit_def)
qed (auto simp: U_Cons is_ws_def dump_str_def)

lemma stop_nl [simp]: "stop (nl l @ r)" "stop (44 # r)"
  by (simp_all add: stop_def nl_def is_ws_def)

lemma skip_comma [simp]: "skip_ws (44 # r) = 44 # r"
  by (simp add: skip_ws_def is_ws_def)

lemma elts_dump:
  assumes IH: "\<And>v r. v \<in> set xs \<Longrightarrow> stop r \<Longrightarrow> read_json h (dump m v @ r) = Inr (v, r)"
    and ok: "list_all (json_all plain_node) xs" and "xs \<noteq> []"
  shows "read_elements h vs (join (44 # nl m) (map (dump m) xs) @ nl l @ 93 # r) = Inr (JArr (vs @ xs), r)"
  using assms
proof (induction xs arbitrary: vs rule: induct_list012)
  case (2 x)
  have "read_json h (dump m x @ nl l @ 93 # r) = Inr (x, nl l @ 93 # r)" using 2 by simp
  moreover have "skip_ws (nl l @ 93 # r) = 93 # r" by (rule skip_nl) (auto simp: is_ws_def)
  ultimately show ?case using elts_last by simp
next
  case (3 x y zs)
  let ?u = "join (44 # nl m) (map (dump m) (y # zs)) @ nl l @ 93 # r"
  have "read_json h (dump m x @ 44 # nl m @ ?u) = Inr (x, 44 # nl m @ ?u)"
    using 3(3) by simp
  moreover obtain c t where c: "dump m y = c # t" "\<not> is_ws c" using dump_head [of y m] 3(4) by auto
  have "\<exists>w. c # w = ?u" using c(1) by (cases zs) simp_all
  then have "skip_ws (nl m @ ?u) = ?u" using skip_nl c(2) by blast
  ultimately have "read_elements h vs (dump m x @ 44 # nl m @ ?u) = read_elements h (vs @ [x]) ?u"
    using elts_next [of h "dump m x @ 44 # nl m @ ?u" x "44 # nl m @ ?u" "nl m @ ?u" ?u vs] by simp
  moreover have "read_elements h (vs @ [x]) ?u = Inr (JArr ((vs @ [x]) @ y # zs), r)"
    using 3(3,4) by (intro 3(2)) auto
  ultimately show ?case by simp
qed simp

lemma mems_dump:
  assumes IH: "\<And>kv r. kv \<in> set d \<Longrightarrow> stop r \<Longrightarrow> read_json h (dump m (snd kv) @ r) = Inr (snd kv, r)"
    and ok: "list_all (\<lambda>kv. json_all plain_node (snd kv)) d"
    and ks: "list_all (list_all is_scalar) (map fst d)" and "d \<noteq> []"
  shows "read_members h ps (join (44 # nl m) (map (\<lambda>kv. dump_str (fst kv) @ [58, 32] @ dump m (snd kv)) d) @ nl l @ 125 # r)
    = andThen (pairs_hook h (ps @ d)) (\<lambda>e. Inr (JObj e, r))"
  using assms
proof (induction d arbitrary: ps rule: induct_list012)
  case (2 x)
  obtain c t where c: "dump m (snd x) = c # t" "\<not> is_ws c" using dump_head [of "snd x" m] 2(2) by auto
  have "read_json h (dump m (snd x) @ nl l @ 125 # r) = Inr (snd x, nl l @ 125 # r)" using 2 by simp
  moreover have "skip_ws (nl l @ 125 # r) = 125 # r" by (rule skip_nl) (auto simp: is_ws_def)
  moreover have "skip_ws (32 # dump m (snd x) @ nl l @ 125 # r) = dump m (snd x) @ nl l @ 125 # r"
    using c by (simp add: skip_ws_def is_ws_def)
  ultimately show ?case using 2(3) mems_last [of "fst x"] by simp
next
  case (3 x y zs)
  let ?p = "\<lambda>kv. dump_str (fst kv) @ [58, 32] @ dump m (snd kv)"
  let ?u = "join (44 # nl m) (map ?p (y # zs)) @ nl l @ 125 # r"
  obtain c t where c: "dump m (snd x) = c # t" "\<not> is_ws c" using dump_head [of "snd x" m] 3(4) by auto
  have "read_json h (dump m (snd x) @ 44 # nl m @ ?u) = Inr (snd x, 44 # nl m @ ?u)"
    using 3(3) by simp
  moreover have "skip_ws (32 # dump m (snd x) @ 44 # nl m @ ?u) = dump m (snd x) @ 44 # nl m @ ?u"
    using c by (simp add: skip_ws_def is_ws_def)
  moreover have "\<exists>w. 34 # w = ?u" by (cases zs) (simp_all add: dump_str_def)
  then have "skip_ws (nl m @ ?u) = ?u" using skip_nl [of 34] by (auto simp: is_ws_def)
  ultimately have "read_members h ps (dump_str (fst x) @ [58, 32] @ dump m (snd x) @ 44 # nl m @ ?u) =
      read_members h (ps @ [x]) ?u"
    using 3(5) mems_next [of "fst x" h "dump m (snd x) @ 44 # nl m @ ?u" "snd x" "44 # nl m @ ?u"
        "nl m @ ?u" ?u ps] by simp
  moreover have "read_members h (ps @ [x]) ?u = andThen (pairs_hook h ((ps @ [x]) @ y # zs)) (\<lambda>e. Inr (JObj e, r))"
    using 3(3-5) by (intro 3(2)) auto
  ultimately show ?case by simp
qed simp

text \<open>Hooks that take an object without a repeated key as it is.\<close>

definition hooks_keep :: "json_hooks \<Rightarrow> bool" where
  "hooks_keep h \<longleftrightarrow> (\<forall>d. distinct (map fst d) \<longrightarrow> pairs_hook h d = Inr d)"

lemma scan_dump:
  assumes "hooks_keep h"
  shows "json_all plain_node v \<Longrightarrow> stop r \<Longrightarrow> read_json h (dump l v @ r) = Inr (v, r)"
proof (induction l v arbitrary: r rule: dump.induct)
  case (6 l xs)
  show ?case
  proof (cases "xs = []")
    case True
    then show ?thesis by (simp add: read_json_def skip_ws_def is_ws_def)
  next
    case False
    let ?u = "join (44 # nl (l + 1)) (map (dump (l + 1)) xs) @ nl l @ 93 # r"
    have all: "list_all (json_all plain_node) xs" using 6 by simp
    obtain c w where cw: "?u = c # w" "\<not> is_ws c" "c \<noteq> 93"
    proof -
      obtain x ys where x: "xs = x # ys" using False by (cases xs) auto
      then show ?thesis using dump_head [of x "l + 1"] all that by (cases ys) auto
    qed
    have "read_elements h [] ?u = Inr (JArr xs, r)"
      using elts_dump [of xs h "l + 1" "[]" l r] 6 all False by (auto simp: list_all_iff)
    then show ?thesis
      using False scan_arr [of "nl (l + 1) @ ?u" c w h] skip_nl [of c w ?u "l + 1"] cw by simp
  qed
next
  case (7 l d)
  show ?case
  proof (cases "d = []")
    case True
    then show ?thesis using assms by (simp add: read_json_def skip_ws_def is_ws_def hooks_keep_def)
  next
    case False
    let ?u = "join (44 # nl (l + 1))
      (map (\<lambda>kv. dump_str (fst kv) @ [58, 32] @ dump (l + 1) (snd kv)) d) @ nl l @ 125 # r"
    have all: "list_all (\<lambda>kv. json_all plain_node (snd kv)) d"
      "list_all (list_all is_scalar) (map fst d)" "distinct (map fst d)"
      using 7(2) by simp_all
    obtain w where w: "34 # w = ?u" using False by (cases d; cases "tl d") (auto simp: dump_str_def)
    have "read_members h [] ?u = andThen (pairs_hook h d) (\<lambda>e. Inr (JObj e, r))"
    proof (rule mems_dump [of d h "l + 1" "[]" l r, simplified append_Nil])
      fix kv q assume kv: "kv \<in> set d" and q: "stop q"
      have "json_all plain_node (snd kv)" using all(1) kv by (simp add: list_all_iff)
      then show "read_json h (dump (l + 1) (snd kv) @ q) = Inr (snd kv, q)" using 7(1) kv q False by blast
    qed (use all False in simp_all)
    also have "\<dots> = Inr (JObj d, r)" using assms all by (simp add: hooks_keep_def)
    finally show ?thesis
      using False scan_obj [of "nl (l + 1) @ ?u" 34 w h] skip_nl [of 34 w ?u "l + 1"] w by (simp add: is_ws_def)
  qed
qed (auto simp: scan_lit scan_str scan_int)

lemma set_sort_key_map: "set (sort_key f xs) = set xs"
  by simp

lemma plain_sort_json: "json_all plain_node v \<Longrightarrow> json_all plain_node (sort_json v)"
proof (induction v rule: sort_json.induct)
  case (1 xs)
  then show ?case by (simp add: list_all_iff)
next
  case (2 d)
  let ?e = "map (\<lambda>kv. (fst kv, sort_json (snd kv))) d"
  have d: "distinct (map fst d)" "list_all (list_all is_scalar) (map fst d)"
    and all: "list_all (\<lambda>kv. json_all plain_node (snd kv)) d" using 2(2) by simp_all
  have mset: "mset (map fst (sort_key fst ?e)) = mset (map fst d)"
    by (simp add: multiset.map_comp o_def)
  then have "distinct (map fst (sort_key fst ?e))"
    using d(1) by (rule mset_eq_imp_distinct_iff [THEN iffD2])
  moreover have "list_all (list_all is_scalar) (map fst (sort_key fst ?e))"
    using d(2) mset_eq_setD [OF mset] unfolding list_all_iff by blast
  moreover have "list_all (\<lambda>kv. json_all plain_node (snd kv)) (sort_key fst ?e)"
    using 2(1) all by (auto simp: list_all_iff)
  ultimately show ?case by simp
qed auto

lemma set_join: "c \<in> set (join sep xs) \<Longrightarrow> c \<in> set sep \<or> (\<exists>x \<in> set xs. c \<in> set x)"
  by (induction sep xs rule: join.induct) auto

definition graphic :: "nat \<Rightarrow> bool" where
  "graphic c \<longleftrightarrow> 10 \<le> c \<and> c < 127"

lemma hex_word_graphic: "c \<in> set (hex_word k n) \<Longrightarrow> graphic c"
  using hex_word_lower [of k n]
  by (auto simp: list_all_iff is_lower_hex_def is_digit_def graphic_def)

lemma u_escape_graphic: "c \<in> set (u_escape n) \<Longrightarrow> graphic c"
  using hex_word_graphic [of c 4 n] by (auto simp: u_escape_def graphic_def)

lemma dump_char_graphic: "c \<in> set (dump_char x) \<Longrightarrow> graphic c"
  using u_escape_graphic by (auto simp: dump_char_def graphic_def split: if_split_asm)

lemma dump_str_graphic: "c \<in> set (dump_str s) \<Longrightarrow> graphic c"
  using dump_char_graphic by (auto simp: dump_str_def graphic_def [of 34])

lemma str_int_graphic: "c \<in> set (str_int i) \<Longrightarrow> graphic c"
  using str_nat_digits by (fastforce simp: str_int_def graphic_def is_digit_def split: if_splits)

lemma nl_graphic: "c \<in> set (nl l) \<Longrightarrow> graphic c" "graphic 44" "graphic 58" "graphic 32"
  by (auto simp: nl_def graphic_def split: if_splits)

lemma join_graphic:
  assumes "c \<in> set (join (44 # nl l) xs)" and "\<And>x c. x \<in> set xs \<Longrightarrow> c \<in> set x \<Longrightarrow> graphic c"
  shows "graphic c"
  using set_join [OF assms(1)] assms(2) nl_graphic by auto

lemma dump_graphic: "json_all plain_node v \<Longrightarrow> c \<in> set (dump l v) \<Longrightarrow> graphic c"
proof (induction l v arbitrary: c rule: dump.induct)
  case (6 l xs)
  have all: "json_all plain_node x" if "x \<in> set xs" for x using 6(2) that by (simp add: list_all_iff)
  have "graphic d" if "d \<in> set (join (44 # nl (l + 1)) (map (dump (l + 1)) xs))" for d
    using that by (rule join_graphic) (use 6(1) all in fastforce)
  then show ?case using 6(3) nl_graphic by (auto simp: graphic_def [of 91] graphic_def [of 93] split: if_splits)
next
  case (7 l d)
  have all: "json_all plain_node (snd x)" if "x \<in> set d" for x using 7(2) that by (simp add: list_all_iff)
  have "graphic e" if "e \<in> set (join (44 # nl (l + 1)) (map (\<lambda>kv. dump_str (fst kv) @ [58, 32] @ dump (l + 1) (snd kv)) d))" for e
    using that
  proof (rule join_graphic)
    fix x c assume "x \<in> set (map (\<lambda>kv. dump_str (fst kv) @ [58, 32] @ dump (l + 1) (snd kv)) d)" and c: "c \<in> set x"
    then obtain kv where kv: "kv \<in> set d" "x = dump_str (fst kv) @ [58, 32] @ dump (l + 1) (snd kv)" by auto
    have "graphic c" if "c \<in> set (dump (l + 1) (snd kv))" using 7(1) kv(1) all that by fastforce
    then show "graphic c" using c kv(2) dump_str_graphic nl_graphic by auto
  qed
  then show ?case using 7(3) nl_graphic by (auto simp: graphic_def [of 123] graphic_def [of 125] split: if_splits)
qed (auto simp: U_Cons graphic_def dump_str_graphic [unfolded graphic_def]
    str_int_graphic [unfolded graphic_def] split: if_splits)

lemma json_dumps_graphic: "json_all plain_node v \<Longrightarrow> c \<in> set (json_dumps v) \<Longrightarrow> graphic c"
  unfolding json_dumps_def by (rule dump_graphic [OF plain_sort_json])

lemma scan_dumps:
  assumes "hooks_keep h" and "json_all plain_node v" and "skip_ws r = []"
  defines "s \<equiv> json_dumps v @ r"
  shows "skip_ws s = s" and "scan_once h (2 * length s + 2) s = Inr (sort_json v, r)"
    and "take 1 s \<noteq> [65279]"
proof -
  have ok: "json_all plain_node (sort_json v)" using assms(2) by (rule plain_sort_json)
  obtain c t where c: "json_dumps v = c # t" "\<not> is_ws c"
    using dump_head [OF ok, of 0] by (auto simp: json_dumps_def)
  then show "skip_ws s = s" by (simp add: s_def skip_ws_def)
  show "take 1 s \<noteq> [65279]"
    using c json_dumps_graphic [OF assms(2), of c] by (auto simp: s_def graphic_def)
  have "stop r" using assms(3) by (cases r) (auto simp: stop_def skip_ws_def split: if_splits)
  then have "read_json h s = Inr (sort_json v, r)"
    unfolding s_def json_dumps_def by (rule scan_dump [OF assms(1) ok])
  then show "scan_once h (2 * length s + 2) s = Inr (sort_json v, r)"
    using scan_any [of s "2 * length s + 2" h] by simp
qed

lemma json_loads_dumps:
  assumes "hooks_keep h" and "json_all plain_node v" and "skip_ws r = []"
  shows "json_loads h (json_dumps v @ r) = Inr (sort_json v)"
  using scan_dumps [OF assms] assms(3) by (simp add: json_loads_def del: scan_once.simps)

subsection \<open>As bytes\<close>

lemma utf8_pass_ascii: "(\<And>c. c \<in> set s \<Longrightarrow> c < 128) \<Longrightarrow> utf8_pass s = Some s"
proof (induction s)
  case Nil
  then show ?case by (subst utf8_pass.simps) simp
next
  case (Cons c s)
  have "\<not> is_surrogate_seq (c # s)" using Cons.prems [of c] by (auto simp: is_surrogate_seq_def)
  moreover have "utf8_width c = 1" "utf8_points [c] = Some [c]"
    using Cons.prems [of c] by (simp_all add: utf8_width_def utf8_points.simps)
  ultimately show ?case using Cons by (subst utf8_pass.simps) simp
qed

lemma decode_json_ascii:
  assumes "\<And>c. c \<in> set s \<Longrightarrow> graphic c"
  shows "decode_json_bytes (ascii_encode s) = Inr s"
proof -
  have c: "c mod 256 = c \<and> c < 128 \<and> 10 \<le> c" if "c \<in> set s" for c using assms [OF that] by (auto simp: graphic_def)
  have map: "map unat (ascii_encode s) = s"
    using c by (auto simp: ascii_encode_def o_def unat_of_nat intro!: map_idI)
  have w: "unat w < 128 \<and> 10 \<le> unat w" if "w \<in> set (ascii_encode s)" for w
    using that c by (auto simp: ascii_encode_def unat_of_nat)
  then have nz: "w \<noteq> 0 \<and> w \<noteq> 0xFE \<and> w \<noteq> 0xFF \<and> w \<noteq> 0xEF" if "w \<in> set (ascii_encode s)" for w
    using that by fastforce
  have "detect_encoding (ascii_encode s) = Utf8"
    using nz by (cases "ascii_encode s"; cases "tl (ascii_encode s)")
      (auto simp: detect_encoding_def startswith_def nth_Cons split: if_splits)
  moreover have "utf8_pass s = Some s" using c by (intro utf8_pass_ascii) auto
  ultimately show ?thesis by (simp add: decode_json_bytes_def map)
qed

lemma json_loads_bytes_dumps:
  assumes "hooks_keep h" and "json_all plain_node v" and "skip_ws r = []" and "\<And>c. c \<in> set r \<Longrightarrow> graphic c"
  shows "json_loads_bytes h (ascii_encode (json_dumps v @ r)) = Inr (sort_json v)"
proof -
  have "decode_json_bytes (ascii_encode (json_dumps v @ r)) = Inr (json_dumps v @ r)"
    using json_dumps_graphic [OF assms(2)] assms(4) by (intro decode_json_ascii) auto
  then show ?thesis
    using scan_dumps [OF assms(1-3)] assms(3) by (simp add: json_loads_bytes_def del: scan_once.simps)
qed

lemma json_loads_bytes_write:
  assumes "hooks_keep h" and "json_all plain_node v"
  shows "json_loads_bytes h (write_json v) = Inr (sort_json v)"
  unfolding write_json_def using assms
  by (intro json_loads_bytes_dumps) (simp_all add: skip_ws_def is_ws_def graphic_def)

subsection \<open>Equality of documents\<close>

lemma py_eq_items_iff:
  "py_eq_items d e \<longleftrightarrow> (\<forall>(k, v) \<in> set d. \<exists>w. map_of e k = Some w \<and> py_eq v w)"
  by (induction d) (auto split: option.splits)

lemma py_eq_list_iff: "py_eq_list xs ys \<longleftrightarrow> list_all2 py_eq xs ys"
  by (induction xs arbitrary: ys) (auto split: list.splits simp: list_all2_Cons1)

lemma py_eq_str [simp]: "py_eq v (JStr s) \<longleftrightarrow> v = JStr s"
  by (cases v) (auto simp: numeric_def float_eq_def split: option.splits)

lemma py_eq_sort_json: "json_all plain_node v \<Longrightarrow> py_eq (sort_json v) v"
proof (induction v rule: sort_json.induct)
  case (1 xs)
  then show ?case by (auto simp: py_eq_list_iff list_all2_conv_all_nth list_all_iff)
next
  case (2 d)
  have d: "distinct (map fst d)" and all: "list_all (\<lambda>kv. json_all plain_node (snd kv)) d"
    using 2(2) by simp_all
  have "map_of d k = Some v" if "(k, v) \<in> set d" for k v using d that by simp
  moreover have "py_eq (sort_json v) v" if "(k, v) \<in> set d" for k v
    using 2(1) [OF that] all that by (auto simp: list_all_iff)
  ultimately have "\<exists>w. map_of d k = Some w \<and> py_eq (sort_json v) w" if "(k, v) \<in> set d" for k v
    using that by blast
  then show ?case by (force simp: py_eq_items_iff)
qed (auto simp: numeric_def)

end
