(* ===== verification/ManifestFacts.thy ===== *)
theory ManifestFacts
  imports AuditManifest JsonRoundtrip
begin

section \<open>What an accepted manifest and accepted evidence say\<close>

text \<open>
  The acceptance conditions of \<open>verify_manifest\<close> and \<open>verify_binary_evidence\<close> without the
  order of the checks, and the way from a document that \<open>write_json\<close> wrote to the check that
  reads it.
\<close>

subsection \<open>Written documents\<close>

lemma audit_hooks_keep: "hooks_keep audit_hooks"
  using json_pairs.loop_iff by (auto simp: hooks_keep_def audit_hooks_def collected_pairs entry_ok_def)

lemma parse_json_write:
  "json_all plain_node v \<Longrightarrow> parse_json (write_json v) name = Inr (sort_json v)"
  by (simp add: parse_json_def json_loads_bytes_write [OF audit_hooks_keep])

lemma plain_str_obj [simp]:
  "json_all plain_node (str_obj kvs) \<longleftrightarrow>
     distinct (map fst kvs) \<and> list_all (\<lambda>(k, v). list_all is_scalar v) kvs"
proof -
  have "is_scalar c" if "c \<in> set (U s)" for c s
    using set_U_less [OF that] by (simp add: is_scalar_def)
  then have "list_all (list_all is_scalar) (map fst (map (\<lambda>(k, v). (U k, JStr v)) kvs))"
    by (auto simp: list_all_iff)
  moreover have "map fst (map (\<lambda>(k, v). (U k, JStr v)) kvs) = map U (map fst kvs)" by auto
  ultimately show ?thesis
    by (auto simp: str_obj_def distinct_map inj_on_def list_all_iff)
qed

lemma scalar_U [simp]: "list_all is_scalar (U s)"
  using set_U_less by (fastforce simp: list_all_iff is_scalar_def)

lemma scalar_sha256 [simp]: "list_all is_scalar (sha256_bytes data)"
  using hex_id_chars [OF sha256_hex_id [of data]]
  by (fastforce simp: list_all_iff is_scalar_def is_lower_hex_def is_digit_def)

subsection \<open>The manifest\<close>

text \<open>A record of the inventory that describes the content \<open>data\<close>.\<close>

definition record_matches :: "bytes \<Rightarrow> json \<Rightarrow> bool" where
  "record_matches data rec \<longleftrightarrow> (\<exists>r. rec = JObj r \<and> keys r = {U ''size'', U ''sha256''} \<and>
     jget r (U ''size'') = JInt (int (length data)) \<and>
     jget r (U ''sha256'') = JStr (sha256_bytes data))"

text \<open>An inventory with one matching record for every member but the two that list the others.\<close>

definition inventory_exact :: "(pystr, bytes) dict \<Rightarrow> (pystr, json) dict \<Rightarrow> bool" where
  "inventory_exact payloads inventory \<longleftrightarrow>
     keys inventory = keys payloads - {U ''manifest.json'', U ''SHA256SUMS''} \<and>
     (\<forall>name \<in> keys inventory. \<exists>rec data. map_of inventory name = Some rec \<and>
        map_of payloads name = Some data \<and> record_matches data rec)"

lemma is_exact_int_iff: "is_exact_int v \<longleftrightarrow> (\<exists>i. v = JInt i)"
  by (cases v) auto

lemma is_str_iff: "is_str v \<longleftrightarrow> (\<exists>s. v = JStr s)"
  by (cases v) auto

lemma is_obj_iff: "is_obj v \<longleftrightarrow> (\<exists>d. v = JObj d)"
  by (cases v) auto

lemma record_matches_iff:
  "valid_record rec \<and> int_of (jget (obj_items rec) (U ''size'')) = int (length data) \<and>
     str_of (jget (obj_items rec) (U ''sha256'')) = sha256_bytes data \<longleftrightarrow> record_matches data rec"
  using sha256_hex_id [of data]
  by (cases rec) (auto simp: valid_record_def record_matches_def is_exact_int_iff is_str_iff)

lemma verify_record_iff [res_simps]:
  "verify_record payloads inventory name = Inr u \<longleftrightarrow>
     (\<exists>rec data. map_of inventory name = Some rec \<and> map_of payloads name = Some data \<and>
        record_matches data rec)"
  unfolding record_matches_iff [symmetric]
  by (auto simp: verify_record_def res_simps Let_def split: if_splits)

lemma check_metadata_iff [res_simps]:
  "check_metadata msg expected d = Inr u \<longleftrightarrow> list_all (\<lambda>(k, v). jget d (U k) = JStr v) expected"
  by (auto simp: check_metadata_def res_simps list_all_iff split: prod.splits if_splits)

lemma check_fields_iff [res_simps]:
  "check_fields msg expected fs = Inr u \<longleftrightarrow> list_all (\<lambda>(k, v). map_of fs (U k) = Some v) expected"
  by (auto simp: check_fields_def res_simps list_all_iff split: prod.splits if_splits)

text \<open>The architecture, libc and linkage a Linux manifest has to record.\<close>

definition linux_metadata :: "pystr \<Rightarrow> (string \<times> pystr) list" where
  "linux_metadata platform = (case map_of LINUX_ARCHITECTURES platform of
       None \<Rightarrow> []
     | Some architecture \<Rightarrow> [(''architecture'', architecture), (''libc'', U ''none''),
         (''build_libc'', U ''musl''), (''linkage'', U ''static'')])"

lemma py_eq_strs: "py_eq v (JArr (map JStr ss)) \<longleftrightarrow> v = JArr (map JStr ss)"
proof (cases v)
  case (JArr xs)
  have "list_all2 py_eq xs (map JStr ss) \<longleftrightarrow> xs = map JStr ss"
    by (auto simp: list_all2_conv_all_nth intro: nth_equalityI)
  then show ?thesis using JArr by (simp add: py_eq_list_iff)
qed (auto simp: numeric_def float_eq_def split: option.splits)

lemma inventory_iff:
  "keys i = set (filter (\<lambda>n. n \<noteq> U ''manifest.json'' \<and> n \<noteq> U ''SHA256SUMS'') (map fst payloads)) \<and>
   forE (verify_record payloads i)
     (sort (filter (\<lambda>n. n \<noteq> U ''manifest.json'' \<and> n \<noteq> U ''SHA256SUMS'') (map fst payloads))) = Inr ()
   \<longleftrightarrow> inventory_exact payloads i"
proof -
  have "set (filter (\<lambda>n. n \<noteq> U ''manifest.json'' \<and> n \<noteq> U ''SHA256SUMS'') (map fst payloads)) =
      keys payloads - {U ''manifest.json'', U ''SHA256SUMS''}" by (auto simp: keys_def)
  then show ?thesis
    unfolding inventory_exact_def forE_eq_Inr set_sort verify_record_iff by auto
qed

subsection \<open>Evidence\<close>

lemma small_int: "\<bar>i\<bar> \<le> 1000 \<Longrightarrow> \<bar>i\<bar> < int_limit"
proof -
  have "(10 :: int) ^ 4 \<le> 10 ^ 4300" by (rule power_increasing) auto
  then have "(10 :: int) ^ 4 \<le> int_limit" unfolding int_limit_def .
  then show "\<bar>i\<bar> \<le> 1000 \<Longrightarrow> \<bar>i\<bar> < int_limit" by simp
qed

lemma plain_evidence:
  "list_all is_scalar platform \<Longrightarrow> list_all is_scalar ref \<Longrightarrow> list_all is_scalar name \<Longrightarrow>
   json_all plain_node (evidence_record (JStr platform) (JStr ref) name data)"
  by (simp add: evidence_record_def small_int [of 2, simplified])

lemma sort_evidence:
  "sort_json (evidence_record (JStr platform) (JStr ref) name data) =
     JObj [(U ''binary'', str_obj [(''name'', name), (''sha256'', sha256_bytes data)]),
       (U ''platform'', JStr platform), (U ''schema'', JInt 2), (U ''source_ref'', JStr ref)]"
  by (simp add: evidence_record_def str_obj_def U_Cons)

lemma evidence_eq_iff:
  "py_eq (sort_json (evidence_record (JStr platform) (JStr ref) name data))
     (evidence_record (JStr platform') (JStr ref') name' data') \<longleftrightarrow>
   platform = platform' \<and> ref = ref' \<and> name = name' \<and> sha256_bytes data = sha256_bytes data'"
  unfolding sort_evidence by (auto simp: evidence_record_def str_obj_def numeric_def)

lemma verify_manifest_iff:
  "verify_manifest payloads platform = Inr manifest \<longleftrightarrow>
     parse_json (get_default payloads (U ''manifest.json'')) (U ''manifest.json'') = Inr (JObj manifest) \<and>
     py_eq (jget manifest (U ''schema'')) (JInt 1) \<and>
     jget manifest (U ''platform'') = JStr platform \<and>
     (\<exists>version. jget manifest (U ''version'') = JStr version \<and> version_re version) \<and>
     (\<exists>source_ref. jget manifest (U ''source_ref'') = JStr source_ref \<and> source_ref_re source_ref) \<and>
     list_all (\<lambda>(k, v). jget manifest (U k) = JStr v) (linux_metadata platform) \<and>
     jget manifest (U ''programs'') = JArr (map JStr (program_names platform)) \<and>
     (\<exists>i. jget manifest (U ''files'') = JObj i \<and> inventory_exact payloads i) \<and>
     py_eq (jget manifest (U ''firmware'')) firmware_record \<and>
     verify_platform_libusb manifest platform = Inr ()"
proof -
  have linux: "(case map_of LINUX_ARCHITECTURES platform of
         None \<Rightarrow> Inr ()
       | Some architecture \<Rightarrow> check_metadata ''Linux static manifest metadata mismatch: {}''
           [(''architecture'', architecture), (''libc'', U ''none''), (''build_libc'', U ''musl''),
            (''linkage'', U ''static'')] m) = Inr u \<longleftrightarrow>
       list_all (\<lambda>(k, v). jget m (U k) = JStr v) (linux_metadata platform)" for m u
    by (simp add: linux_metadata_def check_metadata_iff split: option.splits)
  show ?thesis
    unfolding verify_manifest_def Let_def andThen_eq_Inr if_eq_Inr validate_eq_Inr linux
      inventory_iff [symmetric] py_eq_strs py_eq_str is_obj_iff is_str_iff
    by auto
qed

lemma verify_evidence_iff:
  assumes "map_of payloads (binary_evidence_name name) =
      Some (write_json (evidence_record (JStr platform0) (JStr ref0) name0 data0))"
    and "list_all is_scalar platform0" "list_all is_scalar ref0" "list_all is_scalar name0"
    and "map_of payloads name = Some data"
    and "map_of manifest (U ''platform'') = Some (JStr platform)"
    and "map_of manifest (U ''source_ref'') = Some (JStr ref)"
  shows "verify_binary_evidence payloads manifest name = Inr () \<longleftrightarrow>
    platform0 = platform \<and> ref0 = ref \<and> name0 = name \<and> sha256_bytes data0 = sha256_bytes data"
  using assms evidence_eq_iff [of platform0 ref0 name0 data0 platform ref name data]
  by (simp add: verify_binary_evidence_def get_item_def get_default_def
      parse_json_write [OF plain_evidence] res_simps) blast

subsection \<open>Exceptions of the readers\<close>

lemma keys_mem: "(k, v) \<in> set d \<Longrightarrow> k \<in> keys d"
  unfolding keys_def by force

lemma raises_decode [raise_intros]:
  "P UnicodeDecodeError \<Longrightarrow> raises P (utf8_decode b)" "P UnicodeDecodeError \<Longrightarrow> raises P (ascii_decode b)"
  by (auto simp: utf8_decode_def ascii_decode_def split: option.splits)

lemma raises_parse_json [raise_intros]:
  assumes "\<And>m a. P (AuditError m a)" shows "raises P (parse_json data name)"
proof -
  have "hooks_raise_value_errors audit_hooks"
    using json_pairs_error by (auto simp: hooks_raise_value_errors_def audit_hooks_def reject_nonfinite_def)
  then show ?thesis using json_loads_bytes_error assms
    by (fastforce simp: parse_json_def fail_def value_error_def raises_def split: sum.splits exc.splits)
qed

lemma notice_loop_raises: "(\<And>m a. P (AuditError m a)) \<Longrightarrow> raises P (notice_loop acc ls)"
  by (rule notice.loop_raises) (auto simp: notice_entry_def split: if_splits)

lemma checksum_loop_raises: "(\<And>m a. P (AuditError m a)) \<Longrightarrow> raises P (checksum_loop acc ls)"
  by (rule checksums.loop_raises)
    (auto simp: checksum_entry_def safe_member_def raises_def fail_def split: option.splits if_splits)

lemma raises_records [raise_intros]:
  assumes "\<And>m a. P (AuditError m a)"
  shows "raises P (notice_fields data)" "raises P (verify_checksums payloads)"
    "raises P (check_fields msg expected fs)" "raises P (validate_version v)"
proof -
  show "raises P (notice_fields data)"
    by (auto simp: notice_fields_def split: sum.splits intro: notice_loop_raises raise_intros assms)
  show "raises P (check_fields msg expected fs)" "raises P (validate_version v)"
    by (auto simp: check_fields_def validate_version_def split_def intro!: raise_intros assms)
  show "raises P (verify_checksums payloads)"
  proof -
    have "raises P (forE (\<lambda>(name, digest). andThen (get_item payloads name (KeyError name)) (\<lambda>content.
        if sha256_bytes content \<noteq> digest then fail ''checksum mismatch: {}'' [name] else Inr ())) listed)"
      if ks: "keys listed = keys payloads - {U ''SHA256SUMS''}" for listed
    proof -
      have "a \<in> keys payloads" if "(a, b) \<in> set listed" for a b
        using keys_mem [OF that] unfolding ks by blast
      then show ?thesis by (auto intro!: raise_intros assms)
    qed
    then have "raises P (andThen (checksum_loop [] ls) (\<lambda>listed.
        if keys listed \<noteq> keys payloads - {U ''SHA256SUMS''}
        then fail ''SHA256SUMS must list exactly every other archive member'' []
        else forE (\<lambda>(name, digest). andThen (get_item payloads name (KeyError name)) (\<lambda>content.
          if sha256_bytes content \<noteq> digest then fail ''checksum mismatch: {}'' [name] else Inr ())) listed))" for ls
      by (intro raises_andThen checksum_loop_raises raises_if raises_fail assms) blast
    then show ?thesis
      unfolding verify_checksums_def by (simp add: raises_fail assms split: option.splits sum.splits)
  qed
qed

subsection \<open>Properties\<close>

text \<open>C28. What \<open>write_json\<close> writes, \<open>parse_json\<close> reads back: the document with the keys of every
  object sorted, which Python's \<open>==\<close> does not tell from the one written. It holds for every
  document without floats, with integers within Python's 4300 digits, strings of Unicode
  scalar values and no repeated key.\<close>

theorem write_json_roundtrip:
  assumes "json_all plain_node v"
  shows "parse_json (write_json v) name = Inr (sort_json v) \<and> py_eq (sort_json v) v"
  using parse_json_write [OF assms] py_eq_sort_json [OF assms] by simp

theorem write_json_roundtrip_witness:
  "parse_json (write_json (JObj [(U ''b'', JArr [JInt (- 7), JNull]), (U ''a'', JStr [233, 10])])) (U ''doc'') =
     Inr (JObj [(U ''a'', JStr [233, 10]), (U ''b'', JArr [JInt (- 7), JNull])])"
  using write_json_roundtrip [of "JObj [(U ''b'', JArr [JInt (- 7), JNull]), (U ''a'', JStr [233, 10])]"]
  by (simp add: small_int [of "- 7", simplified] is_scalar_def U_Cons)


text \<open>Evidence is bound to what it was written for: a record that \<open>write_json\<close> wrote for one
  platform, source reference, program name and program content is accepted beside a program of
  the archive exactly when the manifest has that platform and source reference, the program
  has that name, and its content has the same SHA-256 digest.\<close>

theorem evidence_binds_program:
  assumes "map_of payloads (binary_evidence_name name) =
      Some (write_json (evidence_record (JStr platform0) (JStr ref0) name0 data0))"
    and "list_all is_scalar platform0" "list_all is_scalar ref0" "list_all is_scalar name0"
    and "map_of payloads name = Some data"
    and "map_of manifest (U ''platform'') = Some (JStr platform)"
    and "map_of manifest (U ''source_ref'') = Some (JStr ref)"
  shows "verify_binary_evidence payloads manifest name = Inr () \<longleftrightarrow>
    platform0 = platform \<and> ref0 = ref \<and> name0 = name \<and> sha256_bytes data0 = sha256_bytes data"
  by (rule verify_evidence_iff [OF assms])

theorem evidence_binds_program_witness:
  "verify_binary_evidence
     [(U ''sianod'', B ''ELF''),
      (U ''evidence/sianod-binary-audit.json'',
        write_json (evidence_record (JStr (U ''linux-x86_64'')) (JStr (U ''f00'')) (U ''sianod'') (B ''ELF'')))]
     [(U ''platform'', JStr (U ''linux-x86_64'')), (U ''source_ref'', JStr (U ''f00''))]
     (U ''sianod'') = Inr ()"
  by (rule evidence_binds_program [THEN iffD2]) 
    (simp_all add: binary_evidence_name_def removesuffix_def endswith_def U_Cons is_scalar_def)

end
