(* ===== verification/DarwinText.thy ===== *)
theory DarwinText
  imports MachO ElfText PortableExecutable AuditManifest
begin

section \<open>Auditing one program before it is packaged\<close>

text \<open>
  \<open>audit_binary\<close> of \<open>audit-artifact.py\<close>, with the macOS checks on the output of \<open>otool\<close>,
  \<open>lipo\<close> and \<open>nm\<close>. The tools are parameters: \<open>darwin_host\<close> gives the text each of them prints
  for the file, or the audit error of a failed command, and Python's table of lower-case
  letters outside ASCII. The result is the evidence record, which \<open>write_json\<close> writes.
\<close>

record darwin_host =
  otool :: "(string \<Rightarrow> bytes \<Rightarrow> pystr res) option"
  lipo :: "(bytes \<Rightarrow> pystr res) option"
  nm :: "(bytes \<Rightarrow> pystr res) option"
  unicode_lower :: "nat \<Rightarrow> bool"

subsection \<open>White space separated words\<close>

text \<open>\<open>str.split()\<close>\<close>

function words :: "pystr \<Rightarrow> pystr list" where
  "words s = (let t = lstrip s in
     if t = [] then []
     else takeWhile (\<lambda>c. \<not> is_space c) t # words (dropWhile (\<lambda>c. \<not> is_space c) t))"
  by auto

lemma lstrip_length: "length (lstrip s) \<le> length s"
  by (simp add: lstrip_def length_dropWhile_le)

lemma lstrip_hd: "lstrip s \<noteq> [] \<Longrightarrow> \<not> is_space (hd (lstrip s))"
  using hd_dropWhile [of is_space s] by (simp add: lstrip_def)

termination words
proof (relation "measure length")
  fix s t :: pystr
  assume t: "t = lstrip s" "t \<noteq> []"
  then have "length (dropWhile (\<lambda>c. \<not> is_space c) t) < length t"
    using lstrip_hd [of s] by (cases "lstrip s") (auto simp: less_Suc_eq_le length_dropWhile_le)
  then show "(dropWhile (\<lambda>c. \<not> is_space c) t, s) \<in> measure length"
    using lstrip_length [of s] t by simp
qed simp

declare words.simps [simp del]

lemma words_parts: "w \<in> set (words s) \<Longrightarrow> w \<noteq> [] \<and> (\<forall>c \<in> set w. \<not> is_space c)"
proof (induction s rule: words.induct)
  case (1 s)
  let ?t = "lstrip s"
  have "?t \<noteq> []" using 1(2) by (subst (asm) words.simps) (auto simp: Let_def split: if_splits)
  then have "w = takeWhile (\<lambda>c. \<not> is_space c) ?t \<or> w \<in> set (words (dropWhile (\<lambda>c. \<not> is_space c) ?t))"
    using 1(2) by (subst (asm) words.simps) (simp add: Let_def)
  then show ?case
  proof
    assume w: "w = takeWhile (\<lambda>c. \<not> is_space c) ?t"
    then have "w \<noteq> []" using lstrip_hd [OF \<open>?t \<noteq> []\<close>] \<open>?t \<noteq> []\<close> by (cases ?t) auto
    then show ?thesis using w set_takeWhileD by fastforce
  qed (use 1(1) \<open>?t \<noteq> []\<close> in blast)
qed

lemma concat_words: "concat (words s) = filter (\<lambda>c. \<not> is_space c) s"
proof (induction s rule: words.induct)
  case (1 s)
  let ?t = "lstrip s"
  have s: "filter (\<lambda>c. \<not> is_space c) s = filter (\<lambda>c. \<not> is_space c) ?t"
    by (induction s) (auto simp: lstrip_def)
  show ?case
  proof (cases "?t = []")
    case True
    then show ?thesis using s by (subst words.simps) simp
  next
    case False
    have t: "?t = takeWhile (\<lambda>c. \<not> is_space c) ?t @ dropWhile (\<lambda>c. \<not> is_space c) ?t" by simp
    have "filter (\<lambda>c. \<not> is_space c) ?t = takeWhile (\<lambda>c. \<not> is_space c) ?t @
        filter (\<lambda>c. \<not> is_space c) (dropWhile (\<lambda>c. \<not> is_space c) ?t)"
      by (subst t, simp only: filter_append) (auto simp: filter_id_conv dest: set_takeWhileD)
    then show ?thesis using 1 [OF refl False] False s by (subst words.simps) (simp add: Let_def)
  qed
qed

subsection \<open>Load commands\<close>

text \<open>\<open>(?m)^\s*key\s+value\s*$\<close>\<close>

definition field_re :: "string \<Rightarrow> re \<Rightarrow> re" where
  "field_re key value = Seq Bol (Seq (Star ws) (Seq (lit key) (Seq (plus ws) (Seq value (Seq (Star ws) Eol)))))"

text \<open>\<open>(?ms)^Load command \d+\n.*?(?=^Load command \d+\n|\Z)\<close>\<close>

definition load_command_re :: re where
  "load_command_re = Seq Bol (Seq (lit ''Load command '') (Seq (plus digit) (One (\<lambda>c. c = 10))))"

definition block_re :: re where
  "block_re = Group 0 (Seq load_command_re
     (Seq (LazyStar (One (\<lambda>_. True))) (Ahead (Alt load_command_re AtEnd))))"

text \<open>\<open>int(...)\<close> of a run of \<open>\d\<close>, refused beyond Python's 4300 digits.\<close>

definition decimal_digit :: "nat \<Rightarrow> nat" where
  "decimal_digit c = (case filter (\<lambda>z. z \<le> c \<and> c < z + 10) decimal_zeros of [] \<Rightarrow> 0 | z # _ \<Rightarrow> c - z)"

definition decimal_number :: "pystr \<Rightarrow> nat" where
  "decimal_number s = foldl (\<lambda>n c. 10 * n + decimal_digit c) 0 s"

definition audit_darwin_load_commands :: "pystr \<Rightarrow> pystr \<Rightarrow> nat res" where
  "audit_darwin_load_commands load_commands label =
     (if re_search (field_re ''segname'' (lit ''__DWARF'')) load_commands \<noteq> None
      then fail ''macOS binary contains DWARF sections: {}'' [label]
      else
      let blocks = map (group 0) (re_findall block_re load_commands);
          dysymtab = filter (\<lambda>block. re_search (field_re ''cmd'' (lit ''LC_DYSYMTAB'')) block \<noteq> None) blocks
      in if length dysymtab \<noteq> 1
         then fail ''macOS binary must contain exactly one LC_DYSYMTAB: {}'' [label]
         else (case re_search (field_re ''nlocalsym'' (Group 1 (plus digit))) (hd dysymtab) of
             None \<Rightarrow> fail ''macOS LC_DYSYMTAB has no nlocalsym field: {}'' [label]
           | Some match \<Rightarrow>
               if length (group 1 match) > 4300 then Inl (ValueError ''int string limit'' [])
               else
               let nlocalsym = decimal_number (group 1 match) in
               if nlocalsym > 1
               then fail ''macOS binary contains too many local symbols (nlocalsym={}): {}''
                      [str_nat nlocalsym, label]
               else Inr nlocalsym))"

subsection \<open>Symbols\<close>

definition hex_token :: "pystr \<Rightarrow> bool" where
  "hex_token token \<longleftrightarrow> token \<noteq> [] \<and> list_all is_hex token"

definition radr_token :: "pystr \<Rightarrow> bool" where
  "radr_token token \<longleftrightarrow> startswith token (U ''radr://'') \<and> length token > 7 \<and> list_all is_digit (drop 7 token)"

text \<open>\<open>re.fullmatch(r"(?:[0-9A-Fa-f]+|[-?+]|OPT)", token)\<close>\<close>

definition symbol_token :: "pystr \<Rightarrow> bool" where
  "symbol_token token \<longleftrightarrow> hex_token token \<or> token \<in> {[45], [63], [43]} \<or> token = U ''OPT''"

definition is_lower_letter :: "darwin_host \<Rightarrow> nat \<Rightarrow> bool" where
  "is_lower_letter host c \<longleftrightarrow> (if c < 128 then 97 \<le> c \<and> c \<le> 122 else unicode_lower host c)"

definition local_symbol :: "darwin_host \<Rightarrow> pystr list \<Rightarrow> bool" where
  "local_symbol host tokens \<longleftrightarrow> length tokens \<ge> 3 \<and> hex_token (tokens ! 0) \<and>
     length (tokens ! 1) = 1 \<and> is_lower_letter host (hd (tokens ! 1))"

definition audit_darwin_optional_symbol_text :: "darwin_host \<Rightarrow> pystr \<Rightarrow> pystr \<Rightarrow> unit res" where
  "audit_darwin_optional_symbol_text host nm_output label =
     (let lines = filter (\<lambda>line. strip line \<noteq> []) (splitlines nm_output);
          radr_lines = filter (\<lambda>line. contains line (U ''radr://'')) lines
      in if length radr_lines \<noteq> 1
         then fail ''macOS nlocalsym=1 must contain exactly one radr:// metadata symbol: {}'' [label]
         else
         let tokens = words (hd radr_lines) in
         if tokens = [] \<or> \<not> radr_token (last tokens) \<or> length tokens > 6 \<or>
            \<not> list_all symbol_token (butlast tokens)
         then fail ''macOS local symbol is not the permitted OPT radr:// metadata: {}'' [label]
         else forE (\<lambda>line. if local_symbol host (words line)
             then fail ''macOS nlocalsym=1 contains a local function/source/debug symbol: {}'' [label]
             else Inr ()) lines)"

definition audit_darwin_binary ::
  "darwin_host \<Rightarrow> (string \<Rightarrow> bytes \<Rightarrow> pystr res) \<Rightarrow> bytes \<Rightarrow> pystr \<Rightarrow> unit res" where
  "audit_darwin_binary host run_otool data label =
     andThen (run_otool ''-l'' data) (\<lambda>load_commands.
     andThen (audit_darwin_load_commands load_commands label) (\<lambda>nlocalsym.
       if nlocalsym = 1 then
         (case nm host of
            None \<Rightarrow> fail ''nm is required to validate macOS nlocalsym=1 metadata'' []
          | Some run \<Rightarrow> andThen (run data) (\<lambda>text. audit_darwin_optional_symbol_text host text label))
       else Inr ()))"

subsection \<open>One program\<close>

text \<open>
  \<open>audit_pe_x64\<close>: \<open>siblings\<close> are the names of the ordinary files in the directory of the program.
\<close>

definition audit_pe_x64 :: "pystr list \<Rightarrow> bytes \<Rightarrow> pystr \<Rightarrow> bool \<Rightarrow> unit res" where
  "audit_pe_x64 siblings data label reject_debug_payload =
     (let bundled_pdbs = filter (\<lambda>c. lower (path_suffix c) = U ''.pdb'') siblings in
      if reject_debug_payload \<and> bundled_pdbs \<noteq> []
      then fail ''project Windows executable has bundled PDB files: {}'' [join (U '', '') bundled_pdbs]
      else audit_pe_x64_bytes data label reject_debug_payload)"

definition audit_darwin_program :: "darwin_host \<Rightarrow> bytes \<Rightarrow> pystr \<Rightarrow> unit res" where
  "audit_darwin_program host data label =
     (case otool host of
        None \<Rightarrow> fail ''otool is required to audit macOS binaries'' []
      | Some run_otool \<Rightarrow>
          andThen (audit_darwin_macho data label) (\<lambda>_.
          andThen (run_otool ''-L'' data) (\<lambda>libraries.
          if contains (lower (join [10] (drop 1 (splitlines libraries)))) (U ''libusb'')
          then fail ''otool reports a libusb dylib dependency: {}'' [label]
          else
          andThen (case lipo host of
              None \<Rightarrow> fail ''macOS binary is not arm64-only: {}'' [label]
            | Some run \<Rightarrow> andThen (run data) (\<lambda>archs. if words archs \<noteq> [U ''arm64'']
                then fail ''macOS binary is not arm64-only: {}'' [label] else Inr ())) (\<lambda>_.
            audit_darwin_binary host run_otool data label))))"

text \<open>
  \<open>label\<close> is \<open>str(path)\<close>; the record returned is also what \<open>--evidence-output\<close> writes.
\<close>

definition audit_binary ::
  "elf_host \<Rightarrow> darwin_host \<Rightarrow> pystr list \<Rightarrow> disk_file \<Rightarrow> pystr \<Rightarrow> pystr \<Rightarrow> pystr \<Rightarrow> json res" where
  "audit_binary host darwin siblings path label platform source_ref =
     (if platform \<notin> keys PLATFORMS then fail ''unsupported platform: {}'' [platform]
      else
      andThen (validate_source_ref source_ref) (\<lambda>_.
      if \<not> f_is_file path \<or> f_is_symlink path then fail ''missing binary: {}'' [label]
      else
      andThen
        (if is_android platform then audit_android_binary host (f_data path) label platform
         else if startswith platform (U ''linux'') then audit_linux_static_binary host (f_data path) label platform
         else if is_darwin platform then audit_darwin_program darwin (f_data path) label
         else audit_pe_x64 siblings (f_data path) label True) (\<lambda>_.
      Inr (evidence_record (JStr platform) (JStr source_ref) (f_name path) (f_data path)))))"

end
