(* ===== verification/BinaryFacts.thy ===== *)
theory BinaryFacts
  imports AuditBinary ManifestFacts DarwinText
begin

section \<open>What the audit of a binary archive guarantees\<close>

text \<open>
  No lookup of the audit of a binary archive can fail once the list of members is the expected
  one, what an accepted archive contains, and the way from \<open>audit_binary\<close>, which audits one
  program and writes its evidence, to the check of that evidence in the archive.
\<close>

subsection \<open>The members that the checks look up\<close>

fun binary_exc :: "exc \<Rightarrow> bool" where
  "binary_exc (AuditError m a) = True"
| "binary_exc UnicodeDecodeError = True"
| "binary_exc _ = False"

lemma take_U: "take n (U s) = U (take n s)"
  by (simp add: U_def take_map)

lemmas platform_simps = PACKAGE_PLATFORMS_def LINUX_ARCHITECTURES_def ANDROID_ABI_METADATA_def
  is_linux_def is_android_def is_windows_def is_darwin_def startswith_def

lemma platform_kind:
  "is_android platform \<Longrightarrow> \<not> is_linux platform \<and> \<not> is_darwin platform \<and> \<not> is_windows platform"
  "is_windows platform \<Longrightarrow> \<not> is_linux platform \<and> \<not> is_darwin platform"
  "is_darwin platform \<Longrightarrow> \<not> is_linux platform"
  "platform \<in> PACKAGE_PLATFORMS \<Longrightarrow>
     is_linux platform \<or> is_android platform \<or> is_windows platform \<or> is_darwin platform"
  by (auto simp: platform_simps take_U)

lemma android_metadata:
  "platform \<in> PACKAGE_PLATFORMS \<Longrightarrow> is_android platform \<Longrightarrow> platform \<in> keys ANDROID_ABI_METADATA"
  by (auto simp: platform_simps take_U)

lemma expected_packageable: "expected_members platform = Inr ms \<Longrightarrow> platform \<in> PACKAGE_PLATFORMS"
  by (auto simp: expected_members_def fail_def split: if_splits)

lemma expected_common:
  assumes "expected_members platform = Inr ms"
  shows "COMMON \<subseteq> ms" "set (program_names platform) \<subseteq> ms"
    "binary_evidence_name ` set (program_names platform) \<subseteq> ms"
  using assms by (auto simp: expected_members_def Let_def fail_def split: if_splits)

lemma expected_linux:
  "expected_members platform = Inr ms \<Longrightarrow> is_linux platform \<Longrightarrow>
   U ''evidence/build.properties'' \<in> ms \<and> keys LINUX_RUNTIME_LICENSE_SHA256 \<subseteq> ms"
  by (auto simp: expected_members_def Let_def fail_def split: if_splits)

lemma expected_android:
  "expected_members platform = Inr ms \<Longrightarrow> is_android platform \<Longrightarrow>
   {U ''evidence/build.properties'', U ''libusb/libusb-'' @ LIBUSB_VERSION @ U ''.tar.bz2'',
    U ''evidence/ndk/source.properties'', U ''evidence/ndk/NOTICE'', U ''evidence/ndk/NOTICE.toolchain'',
    U ''evidence/static-link-inventory.tsv'', U ''evidence/sianod-static-link-inventory.tsv'',
    U ''evidence/sianoctl-static-link-inventory.tsv''} \<subseteq> ms"
  using platform_kind(1) [of platform]
  by (auto simp: expected_members_def Let_def fail_def split: if_splits)

lemma expected_windows:
  "expected_members platform = Inr ms \<Longrightarrow> is_windows platform \<Longrightarrow>
   {U ''libusb/NOTICE.txt'', U ''libusb-1.0.dll''} \<subseteq> ms"
  using platform_kind(1,2) [of platform]
  by (auto simp: expected_members_def Let_def fail_def split: if_splits)

lemma expected_darwin:
  "expected_members platform = Inr ms \<Longrightarrow> is_darwin platform \<Longrightarrow> U ''evidence/build.properties'' \<in> ms"
  using platform_kind(3) [of platform]
  by (auto simp: expected_members_def Let_def fail_def split: if_splits)

lemma expected_inventory:
  "expected_members platform = Inr ms \<Longrightarrow> is_android platform \<Longrightarrow>
   program \<in> set (program_names platform) \<Longrightarrow> inventory_name program \<in> ms"
  using expected_android [of platform ms] platform_kind(1) [of platform]
  by (auto simp: program_names_def inventory_name_def U_Cons)

subsection \<open>Exceptions of the checks\<close>

definition android_entry :: "pystr \<Rightarrow> exc + (pystr \<times> (exc + pystr)) option" where
  "android_entry line = (if 61 \<notin> set line then fail ''Android build.properties is malformed'' []
     else Inr (Some (fst (split1 61 line), Inr (snd (split1 61 line)))))"

interpretation android: unique_collector android_entry
  "\<lambda>k. AuditError ''duplicate Android property: {}'' [k]" android_properties
  by unfold_locales (auto simp: android_entry_def fail_def split_def Let_def)

lemma android_properties_raises: "raises binary_exc (android_properties acc ls)"
  by (rule android.loop_raises) (auto simp: android_entry_def fail_def split: if_splits)

lemma inventory_rows_raise: "raises binary_exc (foldE inventory_row acc rows)"
  by (induction rows arbitrary: acc)
    (auto intro!: raises_andThen simp: inventory_row_def fail_def split: list.splits)

lemma properties_raises: "raises binary_exc (parse_build_properties data label)"
  unfolding parse_build_properties_def
  by (auto simp: fail_def split: sum.splits intro!: properties.loop_raises)
    (auto simp: property_entry_def fail_def split: if_splits)

lemma get_str_key: "get_str d k \<noteq> [] \<Longrightarrow> U k \<in> keys d"
  by (auto simp: get_str_def keys_iff_Some split: option.splits)

lemma program_raises:
  "raises binary_exc (audit_pe_x64_bytes data label b)" "raises binary_exc (audit_darwin_macho data label)"
  by (auto simp: raises_def audit_error_def split: sum.splits dest!: audit_pe_error audit_darwin_macho_error)

text \<open>The programs that the audit runs fail with an audit error (function \<open>run\<close> of the source).\<close>

definition host_fails_audit :: "elf_host \<Rightarrow> bool" where
  "host_fails_audit host \<longleftrightarrow>
     (\<forall>run flag data. readelf host = Some run \<longrightarrow> raises binary_exc (run flag data)) \<and>
     (\<forall>run flag data. android_readelf host = Some run \<longrightarrow> raises binary_exc (run flag data)) \<and>
     (\<forall>data abi linker. raises binary_exc (verify_android_elf host data abi linker))"

lemma section_text_raises: "raises binary_exc (audit_elf_section_text t label)"
  unfolding audit_elf_section_text_def Let_def by (intro raise_intros) simp_all

lemma linux_text_raises: "raises binary_exc (audit_linux_elf_text h d p platform label t)"
  unfolding audit_linux_elf_text_def
  by (simp add: raises_fail section_text_raises split: option.splits)

lemma elf_program_raises:
  assumes "host_fails_audit host"
  shows "raises binary_exc (audit_linux_static_binary host b label platform)"
    and "raises binary_exc (audit_android_binary host b label platform)"
proof -
  show "raises binary_exc (audit_linux_static_binary host b label platform)"
    using assms unfolding audit_linux_static_binary_def host_fails_audit_def
    by (auto intro!: raise_intros linux_text_raises split: option.splits)
  show "raises binary_exc (audit_android_binary host b label platform)"
    using assms unfolding audit_android_binary_def host_fails_audit_def Let_def
    by (auto intro!: raise_intros split: option.splits)
qed

lemma elf_audits_raise:
  assumes "host_fails_audit host" and "set (program_names platform) \<subseteq> keys payloads"
  shows "raises binary_exc (elf_audits host payloads platform)"
  unfolding elf_audits_def using assms(2)
  by (intro raises_if raises_forE raises_andThen raises_get_item elf_program_raises [OF assms(1)] raises_Inr) auto

lemma manifest_raises:
  assumes "platform \<in> PACKAGE_PLATFORMS" shows "raises binary_exc (verify_manifest payloads platform)"
proof -
  have rec: "raises binary_exc (verify_record payloads i name)"
    if "name \<in> keys i" "name \<in> keys payloads" for i name
    unfolding verify_record_def Let_def using that by (intro raise_intros) simp_all
  have "raises binary_exc (forE (verify_record payloads i) (sort names))"
    if "keys i = set names" "set names \<subseteq> keys payloads" for i names
    using that by (intro raises_forE rec) auto
  then have inv: "raises binary_exc (forE (verify_record payloads i)
      (sort (filter (\<lambda>n. n \<noteq> U ''manifest.json'' \<and> n \<noteq> U ''SHA256SUMS'') (map fst payloads))))"
    if "keys i = set (filter (\<lambda>n. n \<noteq> U ''manifest.json'' \<and> n \<noteq> U ''SHA256SUMS'') (map fst payloads))" for i
    using that by (auto simp: keys_def)
  have meta: "raises binary_exc (check_metadata msg e d)" for msg e d
    unfolding check_metadata_def by (auto intro!: raise_intros)
  have lib: "raises binary_exc (verify_platform_libusb m platform)" for m
    unfolding verify_platform_libusb_def Let_def
    by (intro raise_intros meta android_metadata [OF assms]) simp_all
  have case_opt: "raises binary_exc (case x of None \<Rightarrow> Inr () | Some a \<Rightarrow> check_metadata msg (f a) d)" for x msg f d
    using meta by (simp split: option.splits)
  have ref: "raises binary_exc (validate_source_ref r)" for r
    by (auto simp: validate_source_ref_def intro: raise_intros)
  show ?thesis
    unfolding verify_manifest_def Let_def
    by (intro raises_andThen raises_if raises_fail raises_parse_json raises_records(4) ref case_opt lib
        raises_Inr inv) simp_all
qed

lemma runtime_keys_present:
  assumes "forE (\<lambda>key. if get_str properties key = [] \<or> get_str properties key = U ''unknown''
         then fail ''Linux runtime provenance missing: {}'' [U key] else Inr ()) ks = Inr u" and "k \<in> set ks"
  shows "U k \<in> keys properties"
  using assms get_str_key unfolding forE_eq_Inr by (auto simp: fail_eq split: if_splits)

lemma linux_runtime_raises:
  assumes "keys LINUX_RUNTIME_LICENSE_SHA256 \<subseteq> keys payloads"
  shows "raises binary_exc (verify_linux_runtime_provenance payloads modes properties fs)"
proof -
  have lic: "name \<in> keys payloads" if "(name, h) \<in> set LINUX_RUNTIME_LICENSE_SHA256" for name h
    using keys_mem [OF that] assms by blast
  show ?thesis
    unfolding verify_linux_runtime_provenance_def
  proof (rule raises_andThen, goal_cases)
    case 1
    show ?case using lic by (auto intro!: raise_intros)
  next
    case (2 u)
    show ?case
    proof (rule raises_andThen, goal_cases)
      case 1
      show ?case by (intro raise_intros; simp only: binary_exc.simps)
    next
      case (2 v)
      note present = runtime_keys_present [OF 2]
      show ?case
        by (intro raises_if raises_andThen raises_fail raises_forE raises_Inr raises_case_prod raises_get_item present;
            (simp only: binary_exc.simps)?) auto
    qed
  qed
qed

lemma android_raises:
  assumes "expected_members platform = Inr (keys payloads)" and "is_android platform"
    and "program \<in> set (program_names platform)"
  shows "raises binary_exc (verify_android_provenance payloads fs platform program)"
proof -
  note present = expected_android [OF assms(1,2)] expected_inventory [OF assms]
  have inv: "raises binary_exc (verify_inventory program t)" for t
    unfolding verify_inventory_def Let_def by (intro raise_intros inventory_rows_raise) simp_all
  have ndk: "raises binary_exc (verify_ndk_files payloads fs m)" for m
    unfolding verify_ndk_files_def Let_def using present(1) by (auto intro!: raise_intros)
  have rev: "U ''ndk_revision'' \<in> keys m" if "startswith (get_str m ''ndk_revision'') (U ''27.'')" for m
    using that by (intro get_str_key) (auto simp: startswith_def U_Cons)
  show ?thesis
    unfolding verify_android_provenance_def
    using present by (auto intro!: raise_intros inv ndk rev android_properties_raises split: option.splits)
qed

lemma platform_records_raise:
  assumes "expected_members platform = Inr (keys payloads)"
  shows "raises binary_exc (platform_records payloads modes fs version platform)"
proof -
  note p = expected_common [OF assms] platform_kind [of platform] expected_packageable [OF assms]
  have prog: "raises binary_exc (forE (\<lambda>program. andThen (get_item payloads program (KeyError program)) (f program))
      (program_names platform))" if "\<And>program b. raises binary_exc (f program b)" for f
    using p(2) that by (intro raises_forE raises_andThen raises_get_item) auto
  have "raises binary_exc (linux_records payloads modes fs version platform)" if "is_linux platform"
  proof -
    have "platform \<in> keys LINUX_ARCHITECTURES" using that by (simp add: is_linux_def keys_set_map)
    then show ?thesis
      unfolding linux_records_def payload_def using expected_linux [OF assms that]
      by (intro raises_andThen raises_records(3) raises_get_item properties_raises linux_runtime_raises) auto
  qed
  moreover have "raises binary_exc (android_records payloads fs platform)" if "is_android platform"
    unfolding android_records_def Let_def using expected_android [OF assms that] android_raises [OF assms that]
    by (intro raises_andThen raises_records(3) raises_get_item raises_if raises_fail raises_forE) auto
  moreover have "raises binary_exc (windows_records payloads fs version platform)" if "is_windows platform"
    unfolding windows_records_def payload_def using expected_windows [OF assms that]
    by (intro raises_andThen raises_records(3) raises_get_item raises_if raises_fail prog program_raises(1)
        raises_decode(1)) (auto intro!: raise_intros)
  moreover have "raises binary_exc (darwin_records payloads fs version platform)" if "is_darwin platform"
    unfolding darwin_records_def payload_def using expected_darwin [OF assms that]
    by (intro raises_andThen raises_records(3) raises_get_item prog program_raises(2) properties_raises) auto
  ultimately show ?thesis unfolding platform_records_def using p by (auto intro!: raises_if)
qed

lemma evidence_raises:
  assumes "set (program_names platform) \<subseteq> keys payloads"
    and "U ''platform'' \<in> keys m" "U ''source_ref'' \<in> keys m" "program \<in> set (program_names platform)"
  shows "raises binary_exc (verify_binary_evidence payloads m program)"
  unfolding verify_binary_evidence_def Let_def using assms by (auto intro!: raise_intros)

subsection \<open>Accepted archives\<close>

text \<open>The audit that a program of the archive has to pass on each platform.\<close>

definition program_audited :: "elf_host \<Rightarrow> pystr \<Rightarrow> pystr \<Rightarrow> bytes \<Rightarrow> bool" where
  "program_audited host platform program binary =
     (if is_linux platform then audit_linux_static_binary host binary program platform = Inr ()
      else if is_android platform then audit_android_binary host binary program platform = Inr ()
      else if is_windows platform then audit_pe_x64_bytes binary program True = Inr ()
      else audit_darwin_macho binary program = Inr ())"

lemma programs_audited:
  assumes "elf_audits host payloads platform = Inr ()"
    and "platform_records payloads modes fs version platform = Inr ()"
  shows "list_all (\<lambda>program. \<exists>binary. map_of payloads program = Some binary \<and>
    program_audited host platform program binary) (program_names platform)"
proof -
  consider "is_linux platform" | "\<not> is_linux platform" "is_android platform"
    | "\<not> is_linux platform" "\<not> is_android platform" "is_windows platform"
    | "\<not> is_linux platform" "\<not> is_android platform" "\<not> is_windows platform" by blast
  then show ?thesis
  proof cases
    case 3
    then have "windows_records payloads fs version platform = Inr ()"
      using assms(2) by (simp add: platform_records_def)
    then show ?thesis
      using 3 unfolding windows_records_def andThen_eq_Inr if_eq_Inr forE_eq_Inr get_item_eq_Inr
      by (auto simp: program_audited_def list_all_iff)
  next
    case 4
    then have "darwin_records payloads fs version platform = Inr ()"
      using assms(2) by (simp add: platform_records_def)
    then show ?thesis
      using 4 unfolding darwin_records_def andThen_eq_Inr if_eq_Inr forE_eq_Inr get_item_eq_Inr
      by (auto simp: program_audited_def list_all_iff)
  qed (use assms(1) in \<open>auto simp: elf_audits_def program_audited_def list_all_iff res_simps\<close>)
qed

subsection \<open>Properties\<close>

text \<open>C24. An accepted binary archive has exactly the members of its platform and the name of its
  version; its manifest passed \<open>verify_manifest\<close>; its firmware and firmware licence are the
  pinned ones; every program is present, passed the audit of its platform, is executable
  outside Windows, and has evidence bound to it; and the checksums hold for every member.\<close>

theorem binary_archive_accepted:
  "(case audit_binary_payloads host payloads modes name platform of
      Inl _ \<Rightarrow> True
    | Inr report \<Rightarrow>
        expected_members platform = Inr (keys payloads) \<and>
        verify_manifest payloads platform = Inr (r_manifest report) \<and>
        name = archive_name (str_of (jget (r_manifest report) (U ''version''))) platform \<and>
        r_members report = sort (map fst payloads) \<and>
        map_option sha256_bytes (map_of payloads (U ''firmware/isdbt_rio.inp'')) = Some FIRMWARE_SHA256 \<and>
        map_option sha256_bytes (map_of payloads (U ''LICENCE.siano'')) = Some FIRMWARE_LICENSE_SHA256 \<and>
        list_all (\<lambda>program. \<exists>binary. map_of payloads program = Some binary \<and>
          program_audited host platform program binary) (program_names platform) \<and>
        list_all (\<lambda>program. is_windows platform \<or>
          (\<exists>mode. map_of modes program = Some mode \<and> mode AND 0x49 \<noteq> 0)) (program_names platform) \<and>
        list_all (\<lambda>program. verify_binary_evidence payloads (r_manifest report) program = Inr ())
          (program_names platform) \<and>
        verify_checksums payloads = Inr ())"
proof (cases "audit_binary_payloads host payloads modes name platform")
  case (Inr report)
  then obtain ms firmware licence fs where
    ms: "expected_members platform = Inr ms" "keys payloads = ms"
    and man: "verify_manifest payloads platform = Inr (r_manifest report)"
    and nm: "name = archive_name (str_of (jget (r_manifest report) (U ''version''))) platform"
    and modes: "forE (\<lambda>program. verify_binary_archive_mode modes program platform) (program_names platform) = Inr ()"
    and elf: "elf_audits host payloads platform = Inr ()"
    and fw: "map_of payloads (U ''firmware/isdbt_rio.inp'') = Some firmware" "sha256_bytes firmware = FIRMWARE_SHA256"
    and lic: "map_of payloads (U ''LICENCE.siano'') = Some licence" "sha256_bytes licence = FIRMWARE_LICENSE_SHA256"
    and rec: "platform_records payloads modes fs (str_of (jget (r_manifest report) (U ''version''))) platform = Inr ()"
    and ev: "forE (verify_binary_evidence payloads (r_manifest report)) (program_names platform) = Inr ()"
    and sums: "verify_checksums payloads = Inr ()"
    and mem: "r_members report = sort (map fst payloads)"
    unfolding audit_binary_payloads_def Let_def andThen_eq_Inr if_eq_Inr payload_def get_item_eq_Inr
    by (auto simp del: forE.simps)
  have "list_all (\<lambda>program. is_windows platform \<or>
      (\<exists>mode. map_of modes program = Some mode \<and> mode AND 0x49 \<noteq> 0)) (program_names platform)"
    using modes by (auto simp: forE_eq_Inr list_all_iff verify_binary_archive_mode_def fail_eq
        split: if_splits option.splits)
  moreover have "list_all (\<lambda>program. verify_binary_evidence payloads (r_manifest report) program = Inr ())
      (program_names platform)"
    using ev by (simp add: forE_eq_Inr list_all_iff)
  ultimately show ?thesis
    using Inr ms man nm fw lic sums mem programs_audited [OF elf rec] by simp
qed simp

text \<open>Whatever the archive holds, its audit ends with a report, an audit error, or the error of
  a text that is not UTF-8: once the list of members is the expected one, no lookup of a member,
  a manifest key, a build property or a platform fails. The programs that the audit runs are
  assumed to fail only with an audit error.\<close>

theorem binary_audit_exceptions:
  assumes "host_fails_audit host"
  shows "(case audit_binary_payloads host payloads modes name platform of
    Inl e \<Rightarrow> binary_exc e | Inr _ \<Rightarrow> True)"
proof -
  have "raises binary_exc (audit_binary_payloads host payloads modes name platform)"
    unfolding audit_binary_payloads_def Let_def
  proof (rule raises_andThen, goal_cases)
    case 1
    then show ?case unfolding expected_members_def Let_def by (intro raise_intros) simp
  next
    case (2 ms)
    show ?case
    proof (rule raises_if, goal_cases)
      case 1
      show ?case by (simp add: raises_fail)
    next
      case k: 2
      then have keys: "expected_members platform = Inr (keys payloads)" using 2 by simp
      note c = expected_common [OF keys] expected_packageable [OF keys]
      have common: "x \<in> keys payloads" if "x \<in> COMMON" for x using c(1) that by blast
      show ?case
      proof (rule raises_andThen [OF manifest_raises [OF c(4)]], goal_cases)
        case (1 m)
        then have m: "U ''platform'' \<in> keys m" "U ''source_ref'' \<in> keys m"
          unfolding verify_manifest_iff by (auto simp: jget_def keys_iff_Some split: option.splits)
        have mode: "raises binary_exc (forE (\<lambda>p. verify_binary_archive_mode modes p platform) ps)" for ps
          unfolding verify_binary_archive_mode_def by (auto intro!: raise_intros split: option.splits)
        have mdev: "raises binary_exc (verify_linux_mdev_modes modes platform)"
          unfolding verify_linux_mdev_modes_def by (intro raise_intros raises_case_prod; simp only: binary_exc.simps)
        show ?case
          unfolding payload_def exact_firmware_fields_def
          by (intro raises_if raises_andThen raises_fail mode mdev elf_audits_raise [OF assms c(2)]
              raises_get_item common raises_records platform_records_raise [OF keys] raises_forE
              evidence_raises [OF c(2) m] raises_Inr) (simp_all add: COMMON_def)
      qed
    qed
  qed
  then show ?thesis by (simp only: raises_def)
qed

definition sample_host :: elf_host where
  "sample_host = \<lparr>readelf = None, android_readelf = None, verify_android_elf = (\<lambda>_ _ _. fail ''command failed'' [])\<rparr>"

theorem binary_audit_exceptions_witness:
  "(case audit_binary_payloads sample_host [] [] (U ''a.zip'') (U ''windows-x64'') of
      Inl e \<Rightarrow> binary_exc e | Inr _ \<Rightarrow> True)"
  by (rule binary_audit_exceptions) (simp add: host_fails_audit_def sample_host_def fail_def)

text \<open>C27. The evidence that \<open>audit_binary\<close> returns for an accepted program and \<open>write_json\<close>
  writes is accepted in every archive that has that program with the same content under its
  name, and a manifest with that platform and source reference.\<close>

theorem audit_binary_evidence_accepted:
  assumes "audit_binary host darwin siblings path label platform source_ref = Inr evidence"
    and "map_of payloads (binary_evidence_name (f_name path)) = Some (write_json evidence)"
    and "map_of payloads (f_name path) = Some (f_data path)"
    and "map_of manifest (U ''platform'') = Some (JStr platform)"
    and "map_of manifest (U ''source_ref'') = Some (JStr source_ref)"
    and "list_all is_scalar (f_name path)"
  shows "verify_binary_evidence payloads manifest (f_name path) = Inr ()"
proof -
  from assms(1) have e: "evidence = evidence_record (JStr platform) (JStr source_ref) (f_name path) (f_data path)"
    and p: "platform \<in> keys PLATFORMS" and r: "source_ref_re source_ref"
    unfolding audit_binary_def andThen_eq_Inr if_eq_Inr validate_eq_Inr by auto
  have "list_all is_scalar platform" using p by (auto simp: PLATFORMS_def)
  moreover have "list_all is_scalar source_ref"
    using r by (fastforce simp: source_ref_re_def hex_id_def list_all_iff is_scalar_def is_lower_hex_def is_digit_def)
  ultimately show ?thesis
    using verify_evidence_iff [OF assms(2) [unfolded e] _ _ assms(6,3-5)] by simp
qed

definition sample_exe :: disk_file where
  "sample_exe = \<lparr>f_name = U ''siano-ts.exe'', f_is_file = True, f_is_symlink = False, f_data = sample_pe\<rparr>"

definition sample_darwin :: darwin_host where
  "sample_darwin = \<lparr>otool = None, lipo = None, nm = None, unicode_lower = (\<lambda>_. False)\<rparr>"

theorem audit_binary_evidence_accepted_witness:
  "verify_binary_evidence
     [(U ''siano-ts.exe'', sample_pe), (U ''evidence/binary-audit.json'',
        write_json (evidence_record (JStr (U ''windows-x64'')) (JStr (replicate 40 97)) (U ''siano-ts.exe'') sample_pe))]
     [(U ''platform'', JStr (U ''windows-x64'')), (U ''source_ref'', JStr (replicate 40 97))]
     (U ''siano-ts.exe'') = Inr ()"
proof -
  have name: "binary_evidence_name (U ''siano-ts.exe'') = U ''evidence/binary-audit.json''"
    by (simp add: binary_evidence_name_def removesuffix_def endswith_def U_Cons)
  have "audit_binary sample_host sample_darwin [] sample_exe (U ''siano-ts.exe'') (U ''windows-x64'') (replicate 40 97) =
      Inr (evidence_record (JStr (U ''windows-x64'')) (JStr (replicate 40 97)) (U ''siano-ts.exe'') sample_pe)"
    using sample_pe_accepted
    by (simp add: audit_binary_def PLATFORMS_def validate_source_ref_def source_ref_re_def hex_id_def list_all_iff
        is_lower_hex_def platform_simps take_U sample_exe_def audit_pe_x64_def)
  from audit_binary_evidence_accepted [OF this, where manifest =
      "[(U ''platform'', JStr (U ''windows-x64'')), (U ''source_ref'', JStr (replicate 40 97))]"]
  show ?thesis by (simp add: sample_exe_def name)
qed

end
