(* ===== verification/AuditSource.thy ===== *)
theory AuditSource
  imports AuditManifest Regex
begin

section \<open>The audit of the source archive\<close>

text \<open>
  \<open>audit_source_archive\<close> of \<open>audit-artifact.py\<close>: required and forbidden members, pinned
  dependencies, the provenance manifest, the dependency notice and the checksums.
\<close>

subsection \<open>Members\<close>

definition SOURCE_REQUIRED :: "pystr list" where
  "SOURCE_REQUIRED = map U [''BUILD-RELINK.md'', ''DEPENDENCY-NOTICE.txt'', ''README.md'', ''COPYING'',
     ''LICENCE.siano'', ''source-manifest.json'', ''SHA256SUMS'',
     ''third_party/libusb-1.0.30.tar.bz2'', ''repository/Makefile'',
     ''repository/scripts/build-linux-static.sh'', ''repository/scripts/build-macos-static.sh'',
     ''repository/scripts/test-static-relink.sh'', ''repository/packaging/REBUILD.md'']"

fun alts_ci :: "string list \<Rightarrow> re" where
  "alts_ci [] = One (\<lambda>_. False)"
| "alts_ci (w # words) = Alt (lit_ci w) (alts_ci words)"

text \<open>\<open>build(?:-[^/.]+)?\<close>\<close>

definition build_re :: re where
  "build_re = Seq (lit_ci ''build'') (Alt (Seq (lit_ci ''-'') (plus (One (\<lambda>c. c \<noteq> 47 \<and> c \<noteq> 46)))) Eps)"

definition forbidden_dirs :: "string list" where
  "forbidden_dirs = [''.git'', ''out'', ''dist'', ''firmware'', ''windows'', ''win32'', ''vendor'',
     ''driver'', ''drivers'', ''dkms'', ''kernel'', ''apk'', ''addon'', ''add-on'']"

definition forbidden_suffixes :: "string list" where
  "forbidden_suffixes = [''.o'', ''.a'', ''.so'', ''.dylib'', ''.apk'', ''.ko'', ''.sys'', ''.inf'', ''.dll'',
     ''.exe'', ''.bin'']"

definition SOURCE_FORBIDDEN :: re where
  "SOURCE_FORBIDDEN =
     Alt (Seq (Alt AtStart (lit_ci ''/'')) (Seq (Alt build_re (alts_ci forbidden_dirs)) (Alt (lit_ci ''/'') Dollar)))
       (Alt (lit_ci ''.so.'') (Seq (alts_ci forbidden_suffixes) Dollar))"

definition checked_member :: "pystr \<Rightarrow> pystr" where
  "checked_member name =
     (if (startswith name (U ''third_party/dtv-userland-core/'') \<or>
          startswith name (U ''third_party/px4-userland/'')) \<and>
         (lower (path_suffix name) \<in> set (map U [''.c'', ''.cpp'', ''.h'', ''.hpp'', ''.cmake'', ''.def'', ''.md''])
          \<or> endswith name (U ''.h.in''))
      then join [47] (map (\<lambda>part. if lower part \<in> {U ''windows'', U ''win32''}
             then U ''platform-windows'' else part) (posix_parts name))
      else name)"

definition forbidden_source_member :: "pystr \<Rightarrow> bool" where
  "forbidden_source_member name \<longleftrightarrow> re_search SOURCE_FORBIDDEN (checked_member name) \<noteq> None"

definition source_prefixes :: "pystr list" where
  "source_prefixes = map U [''repository/'', ''third_party/'', ''BUILD-RELINK.md'', ''DEPENDENCY-NOTICE.txt'',
     ''README.md'', ''COPYING'', ''LICENCE.siano'', ''source-manifest.json'', ''SHA256SUMS'']"

definition check_member :: "pystr \<Rightarrow> unit res" where
  "check_member name =
     (if forbidden_source_member name then fail ''forbidden source archive member: {}'' [name]
      else if \<not> list_ex (startswith name) source_prefixes
      then fail ''unexpected source archive member: {}'' [name]
      else Inr ())"

definition check_members :: "(pystr, bytes) dict \<Rightarrow> unit res" where
  "check_members payloads =
     (if \<not> set SOURCE_REQUIRED \<subseteq> keys payloads then fail ''source archive is missing members'' []
      else
      andThen (forE (\<lambda>(name, expected).
          let source = U ''repository/distribution/licenses/'' @ posix_name name in
          if sha256_bytes (get_default payloads source) \<noteq> expected
          then fail ''source archive runtime license is missing/altered: {}'' [source] else Inr ())
        LINUX_RUNTIME_LICENSE_SHA256) (\<lambda>_.
      if U ''repository/scripts/source-identity.py'' \<notin> keys payloads
      then fail ''source archive is missing the immutable source identity helper'' []
      else forE check_member (map fst payloads)))"

subsection \<open>The relink recipe\<close>

definition source_libusb :: pystr where
  "source_libusb = U ''third_party/libusb-'' @ LIBUSB_VERSION @ U ''.tar.bz2''"

definition check_rebuild :: "(pystr, bytes) dict \<Rightarrow> unit res" where
  "check_rebuild payloads =
     andThen (get_item payloads source_libusb (KeyError source_libusb)) (\<lambda>libusb.
     if sha256_bytes libusb \<noteq> LIBUSB_SOURCE_SHA256 then fail ''source archive libusb checksum mismatch'' []
     else
     andThen (get_item payloads (U ''BUILD-RELINK.md'') (KeyError (U ''BUILD-RELINK.md''))) (\<lambda>raw.
     andThen (utf8_decode raw) (\<lambda>rebuild.
       forE (\<lambda>required_text. if \<not> contains rebuild (U required_text)
           then fail ''BUILD-RELINK.md is missing the static/relink recipe: {}'' [U required_text] else Inr ())
         [''--disable-shared'', ''--enable-static'', ''--disable-udev'', ''test-static-relink.sh'',
          ''build-macos-static.sh''])))"

subsection \<open>Pinned dependencies\<close>

text \<open>\<open>manifest.get\<close> raises \<open>AttributeError\<close> when the manifest is not a dictionary.\<close>

definition obj_get :: "json \<Rightarrow> pystr \<Rightarrow> json res" where
  "obj_get v k = (case v of JObj d \<Rightarrow> Inr (jget d k) | _ \<Rightarrow> Inl AttributeError)"

text \<open>\<open>re.fullmatch\<close> on a value that is not a string raises \<open>TypeError\<close>.\<close>

definition tree_id :: "(pystr, json) dict \<Rightarrow> bool res" where
  "tree_id dependency = (case map_of dependency (U ''tree'') of
       None \<Rightarrow> Inr False
     | Some (JStr s) \<Rightarrow> Inr (hex_id 40 s)
     | Some _ \<Rightarrow> Inl TypeError)"

definition check_dependency ::
  "(pystr, bytes) dict \<Rightarrow> (pystr, json) dict \<Rightarrow> pystr \<Rightarrow> pystr \<Rightarrow> unit res" where
  "check_dependency payloads dependencies name pin =
     andThen (get_item dependencies name (KeyError name)) (\<lambda>dependency.
     andThen (ascii_decode (get_default payloads (U ''repository/cmake/'' @ pin))) (\<lambda>pin_text.
     let expected_pin = strip pin_text; d = obj_items dependency in
     andThen (if \<not> is_obj dependency \<or> \<not> py_eq (jget d (U ''commit'')) (JStr expected_pin) \<or>
                 \<not> hex_id 40 expected_pin then Inr False else tree_id d) (\<lambda>ok.
     if \<not> ok then fail ''source archive dependency pin mismatch: {}'' [name]
     else forE (\<lambda>required.
         if U ''third_party/'' @ name @ [47] @ required \<notin> keys payloads
         then fail ''source archive dependency missing {}/{}'' [name, required] else Inr ())
       [U ''CMakeLists.txt'', U ''LICENSE''])))"

definition check_dependencies :: "(pystr, bytes) dict \<Rightarrow> json \<Rightarrow> unit res" where
  "check_dependencies payloads manifest =
     andThen (obj_get manifest (U ''dependencies'')) (\<lambda>dependencies.
     if \<not> is_obj dependencies \<or>
        keys (obj_items dependencies) \<noteq> {U ''dtv-userland-core'', U ''px4-userland''}
     then fail ''source archive must contain both pinned Core/P dependencies'' []
     else forE (\<lambda>(name, pin). check_dependency payloads (obj_items dependencies) name pin)
       [(U ''dtv-userland-core'', U ''dtv-userland-core.revision''),
        (U ''px4-userland'', U ''px4-userland.revision'')])"

text \<open>\<open>(?:src|adapters)/[A-Za-z0-9_./-]+\.(?:cpp|c|h)\<close>\<close>

definition cmake_char :: "nat \<Rightarrow> bool" where
  "cmake_char c \<longleftrightarrow> 65 \<le> c \<and> c \<le> 90 \<or> 97 \<le> c \<and> c \<le> 122 \<or> is_digit c \<or> c \<in> {95, 46, 47, 45}"

definition cmake_source_re :: re where
  "cmake_source_re = Group 0 (Seq (Alt (lit ''src'') (lit ''adapters'')) (Seq (lit ''/'')
     (Seq (plus (One cmake_char)) (Seq (lit ''.'') (Alt (lit ''cpp'') (Alt (lit ''c'') (lit ''h'')))))))"

text \<open>The source visits a set; here the first missing file in the order of the text is named.\<close>

definition check_core_closure :: "(pystr, bytes) dict \<Rightarrow> unit res" where
  "check_core_closure payloads =
     (let core = U ''third_party/dtv-userland-core/''; lists = core @ U ''CMakeLists.txt'' in
      andThen (get_item payloads lists (KeyError lists)) (\<lambda>raw.
      andThen (utf8_decode raw) (\<lambda>cmake.
        forE (\<lambda>source. if core @ source \<notin> keys payloads
            then fail ''source archive Core closure missing {}'' [source] else Inr ())
          (map (group 0) (re_findall cmake_source_re cmake)))))"

subsection \<open>The provenance manifest\<close>

definition expected_provenance :: "(string \<times> json) list" where
  "expected_provenance = [(''schema'', JInt 1), (''libusb_version'', JStr LIBUSB_VERSION),
     (''libusb_source_url'', JStr LIBUSB_SOURCE_URL), (''libusb_source_sha256'', JStr LIBUSB_SOURCE_SHA256),
     (''libusb_license'', JStr (U ''LGPL-2.1-or-later'')), (''linux_linkage'', JStr (U ''static'')),
     (''linux_libusb_backend'', JStr (U ''netlink'')), (''darwin_linkage'', JStr (U ''static'')),
     (''darwin_libusb_backend'', JStr (U ''darwin'')), (''firmware_url'', JStr FIRMWARE_URL),
     (''firmware_sha256'', JStr FIRMWARE_SHA256), (''firmware_license_url'', JStr FIRMWARE_LICENSE_URL),
     (''firmware_license_sha256'', JStr FIRMWARE_LICENSE_SHA256)]"

definition source_record_ok :: "bytes \<Rightarrow> json \<Rightarrow> bool" where
  "source_record_ok data rec \<longleftrightarrow> is_obj rec \<and> keys (obj_items rec) = {U ''size'', U ''sha256''} \<and>
     py_eq (jget (obj_items rec) (U ''size'')) (JInt (int (length data))) \<and>
     py_eq (jget (obj_items rec) (U ''sha256'')) (JStr (sha256_bytes data))"

definition check_source_files :: "(pystr, bytes) dict \<Rightarrow> json \<Rightarrow> unit res" where
  "check_source_files payloads files =
     (if \<not> is_obj files \<or> keys (obj_items files) \<noteq> keys payloads - {U ''source-manifest.json'', U ''SHA256SUMS''}
      then fail ''source manifest does not match archived payload'' []
      else forE (\<lambda>(name, rec).
          andThen (get_item payloads name (KeyError name)) (\<lambda>data.
            if \<not> source_record_ok data rec then fail ''source manifest mismatch: {}'' [name] else Inr ()))
        (obj_items files))"

definition check_provenance :: "(pystr, bytes) dict \<Rightarrow> (pystr, json) dict \<Rightarrow> unit res" where
  "check_provenance payloads m =
     (let text = (\<lambda>k. str_of (jget m (U k))) in
      if list_ex (\<lambda>(k, v). \<not> py_eq (jget m (U k)) v) expected_provenance
      then fail ''invalid source archive provenance manifest'' []
      else if list_ex (\<lambda>k. \<not> is_str (jget m (U k))) [''version'', ''source_ref'', ''resolved_commit'', ''tree'']
      then fail ''source archive commit/tree provenance is missing'' []
      else
      andThen (validate_version (text ''version'')) (\<lambda>_.
      if text ''source_ref'' = [] \<or> \<not> source_ref_re (text ''resolved_commit'') \<or> \<not> source_ref_re (text ''tree'')
      then fail ''source archive commit/tree IDs are not canonical lowercase object IDs'' []
      else if map_of payloads (U ''repository/VERSION'') \<noteq> Some (ascii_encode (text ''version'' @ [10]))
      then fail ''repository/VERSION does not match the source manifest version'' []
      else check_source_files payloads (jget m (U ''files''))))"

definition check_source_notice :: "(pystr, bytes) dict \<Rightarrow> (pystr, json) dict \<Rightarrow> unit res" where
  "check_source_notice payloads m =
     (let text = (\<lambda>k. str_of (jget m (U k))) in
      andThen (get_item payloads (U ''DEPENDENCY-NOTICE.txt'') (KeyError (U ''DEPENDENCY-NOTICE.txt''))) (\<lambda>raw.
      andThen (notice_fields raw) (\<lambda>fs.
      andThen (check_fields ''source dependency notice field mismatch: {}''
        [(''source.ref'', text ''source_ref''), (''source.resolved_commit'', text ''resolved_commit''),
         (''source.tree'', text ''tree''), (''corresponding-source'', source_libusb),
         (''corresponding-source.sha256'', LIBUSB_SOURCE_SHA256), (''libusb.source.url'', LIBUSB_SOURCE_URL),
         (''firmware.url'', FIRMWARE_URL), (''firmware.sha256'', FIRMWARE_SHA256),
         (''firmware.license.url'', FIRMWARE_LICENSE_URL),
         (''firmware.license.sha256'', FIRMWARE_LICENSE_SHA256)] fs) (\<lambda>_.
      andThen (get_item payloads (U ''LICENCE.siano'') (KeyError (U ''LICENCE.siano''))) (\<lambda>licence.
      if sha256_bytes licence \<noteq> FIRMWARE_LICENSE_SHA256
      then fail ''source archive Siano license checksum mismatch'' []
      else Inr ())))))"

subsection \<open>The audit\<close>

definition audit_source_payloads :: "(pystr, bytes) dict \<Rightarrow> (pystr, json) dict res" where
  "audit_source_payloads payloads =
     andThen (check_members payloads) (\<lambda>_.
     andThen (check_rebuild payloads) (\<lambda>_.
     andThen (get_item payloads (U ''source-manifest.json'') (KeyError (U ''source-manifest.json''))) (\<lambda>raw.
     andThen (parse_json raw (U ''source-manifest.json'')) (\<lambda>manifest.
     andThen (check_dependencies payloads manifest) (\<lambda>_.
     andThen (check_core_closure payloads) (\<lambda>_.
     andThen (check_provenance payloads (obj_items manifest)) (\<lambda>_.
     andThen (check_source_notice payloads (obj_items manifest)) (\<lambda>_.
     andThen (verify_checksums payloads) (\<lambda>_. Inr (obj_items manifest))))))))))"

text \<open>The report lists the sorted members and the manifest, beside the path of the archive.\<close>

definition audit_source_archive ::
  "container_lib \<Rightarrow> disk_file \<Rightarrow> (pystr list \<times> (pystr, json) dict) res" where
  "audit_source_archive L path =
     andThen (archive_payloads L path) (\<lambda>(payloads, modes).
     andThen (audit_source_payloads payloads) (\<lambda>manifest. Inr (sort (map fst payloads), manifest)))"

end
