(* ===== verification/SourceFacts.thy ===== *)
theory SourceFacts
  imports AuditSource ManifestFacts
begin

section \<open>What the audit of the source archive guarantees\<close>

text \<open>
  The forbidden member pattern as a condition on path components and file endings, and what an
  accepted source archive contains.
\<close>

subsection \<open>The pattern on path components\<close>

definition ci_word :: "pystr \<Rightarrow> pystr \<Rightarrow> bool" where
  "ci_word w s \<longleftrightarrow> list_all2 ci_eq w s"

text \<open>A path component that names a forbidden directory or file.\<close>

definition forbidden_part :: "pystr \<Rightarrow> bool" where
  "forbidden_part p \<longleftrightarrow> list_ex (\<lambda>w. ci_word (U w) p) (''build'' # forbidden_dirs) \<or>
     length p > 6 \<and> ci_word (U ''build-'') (take 6 p) \<and> 46 \<notin> set (drop 6 p)"

definition ends_ci :: "pystr \<Rightarrow> pystr \<Rightarrow> bool" where
  "ends_ci s w \<longleftrightarrow> (\<exists>l e. s = l @ e \<and> ci_word w e)"

definition has_ci :: "pystr \<Rightarrow> pystr \<Rightarrow> bool" where
  "has_ci s w \<longleftrightarrow> (\<exists>l e r. s = l @ e @ r \<and> ci_word w e)"

definition forbidden_path :: "pystr \<Rightarrow> bool" where
  "forbidden_path s \<longleftrightarrow> list_ex forbidden_part (split_on 47 s) \<or> has_ci s (U ''.so.'') \<or>
     list_ex (\<lambda>w. ends_ci s (U w)) forbidden_suffixes"

lemma matches_lit_ci_re:
  "matches (lit_ci_re ps) s = (if ci_word ps (take (length ps) (rest s)) then [adv (length ps) s] else [])"
proof (induction ps arbitrary: s)
  case (Cons p ps)
  show ?case
  proof (cases "rest s")
    case (Cons c r)
    then show ?thesis using Cons.IH by (simp add: ci_word_def matches_One adv_adv)
  qed (simp add: ci_word_def matches_One)
qed (simp add: ci_word_def)

lemma matches_lit_ci:
  "matches (lit_ci w) s = (if ci_word (U w) (take (length w) (rest s)) then [adv (length w) s] else [])"
  by (simp add: lit_ci_def matches_lit_ci_re)

lemma matches_alts_ci:
  "t' \<in> set (matches (alts_ci vs) t) \<longleftrightarrow>
     (\<exists>v \<in> set vs. ci_word (U v) (take (length v) (rest t)) \<and> t' = adv (length v) t)"
  by (induction vs) (auto simp: matches_lit_ci matches_One)

lemma ci_eq_slash: "ci_eq p 47 \<longleftrightarrow> p = 47"
  by (auto simp: ci_eq_def)

lemma ci_word_slash: "ci_word w s \<Longrightarrow> 47 \<notin> set w \<Longrightarrow> 47 \<notin> set s"
  unfolding ci_word_def by (induction rule: list_all2_induct) (auto simp: ci_eq_slash)

lemma ci_word_length: "ci_word w s \<Longrightarrow> length s = length w"
  by (auto simp: ci_word_def dest: list_all2_lengthD)

text \<open>A prefix without slash, up to a slash or the end, is the first component.\<close>

lemma takeWhile_component:
  assumes "47 \<notin> set (take n u)" and "drop n u = [] \<or> hd (drop n u) = 47"
  shows "takeWhile (\<lambda>c. c \<noteq> 47) u = take n u"
proof -
  have "takeWhile (\<lambda>c. c \<noteq> 47) (take n u @ drop n u) = take n u"
    using assms by (subst takeWhile_append2) (auto simp: takeWhile_eq_Nil_iff)
  then show ?thesis by simp
qed

lemma drop_component:
  "drop (length (takeWhile (\<lambda>c. c \<noteq> 47) u)) u = [] \<or> hd (drop (length (takeWhile (\<lambda>c. c \<noteq> 47) u)) u) = 47"
  using hd_dropWhile [of "\<lambda>c. c \<noteq> 47" u] by (auto simp: dropWhile_eq_drop [symmetric])

lemma hd_split_on: "hd (split_on c s) = takeWhile (\<lambda>x. x \<noteq> c) s"
  by (induction s) (auto split: list.splits)

lemma split_on_hd_tl: "split_on c s = takeWhile (\<lambda>x. x \<noteq> c) s # tl (split_on c s)"
  using hd_split_on [of c s] by (cases "split_on c s") auto

lemma tl_split_on:
  "p \<in> set (tl (split_on c s)) \<longleftrightarrow> (\<exists>l u. s = l @ c # u \<and> p = takeWhile (\<lambda>x. x \<noteq> c) u)"
proof (induction s)
  case (Cons x s)
  obtain y ys where y: "split_on c s = y # ys" by (cases "split_on c s") auto
  then have "y = takeWhile (\<lambda>x. x \<noteq> c) s" using hd_split_on [of c s] by simp
  with y have "p \<in> set (tl (split_on c (x # s))) \<longleftrightarrow>
      x = c \<and> p = takeWhile (\<lambda>x. x \<noteq> c) s \<or> p \<in> set (tl (split_on c s))"
    by auto
  then show ?case unfolding Cons.IH by (auto simp: Cons_eq_append_conv)
qed simp

lemma split_on_components:
  "p \<in> set (split_on c s) \<longleftrightarrow>
     p = takeWhile (\<lambda>x. x \<noteq> c) s \<or> (\<exists>l u. s = l @ c # u \<and> p = takeWhile (\<lambda>x. x \<noteq> c) u)"
  using tl_split_on [of p c s] by (subst split_on_hd_tl) simp

text \<open>What follows a component separator: a name, then a separator or the end.\<close>

definition part_re :: re where
  "part_re = Seq (Alt build_re (alts_ci forbidden_dirs)) (Alt (lit_ci ''/'') Dollar)"

definition ends_part :: "nat \<Rightarrow> pystr \<Rightarrow> bool" where
  "ends_part n u \<longleftrightarrow> drop n u = [] \<or> hd (drop n u) = 47"

lemma separator_matches:
  "10 \<notin> set (rest t) \<Longrightarrow> matches (Alt (lit_ci ''/'') Dollar) t \<noteq> [] \<longleftrightarrow> ends_part 0 (rest t)"
  by (cases "rest t") (auto simp: matches_lit_ci ci_word_def U_Cons ci_eq_def ends_part_def)

lemma dir_matches:
  "(\<exists>v \<in> set vs. ci_word (U v) (take (length v) u) \<and> ends_part (length v) u) \<longleftrightarrow>
     (\<exists>v \<in> set vs. ci_word (U v) (takeWhile (\<lambda>c. c \<noteq> 47) u))" if "\<And>v. v \<in> set vs \<Longrightarrow> 47 \<notin> set (U v)"
proof -
  have "ci_word (U v) (take (length v) u) \<and> ends_part (length v) u \<longleftrightarrow>
      ci_word (U v) (takeWhile (\<lambda>c. c \<noteq> 47) u)" if v: "47 \<notin> set (U v)" for v
  proof
    assume a: "ci_word (U v) (take (length v) u) \<and> ends_part (length v) u"
    then have "takeWhile (\<lambda>c. c \<noteq> 47) u = take (length v) u"
      using ci_word_slash v unfolding ends_part_def by (intro takeWhile_component) blast+
    with a show "ci_word (U v) (takeWhile (\<lambda>c. c \<noteq> 47) u)" by simp
  next
    assume a: "ci_word (U v) (takeWhile (\<lambda>c. c \<noteq> 47) u)"
    then have len: "length (takeWhile (\<lambda>c. c \<noteq> 47) u) = length v" using ci_word_length by fastforce
    then have "takeWhile (\<lambda>c. c \<noteq> 47) u = take (length v) u" using takeWhile_eq_take by metis
    with a len drop_component [of u] show "ci_word (U v) (take (length v) u) \<and> ends_part (length v) u"
      by (simp add: ends_part_def)
  qed
  with that show ?thesis by blast
qed

lemma matches_plus_One:
  "t' \<in> set (matches (plus (One p)) t) \<longleftrightarrow>
     (\<exists>k. 1 \<le> k \<and> k \<le> length (takeWhile p (rest t)) \<and> t' = adv k t)"
proof (cases "rest t \<noteq> [] \<and> p (hd (rest t))")
  case True
  then obtain c r where r: "rest t = c # r" "p c" by (cases "rest t") auto
  have "t' \<in> set (matches (plus (One p)) t) \<longleftrightarrow> (\<exists>k \<le> length (takeWhile p r). t' = adv (Suc k) t)"
    using r by (auto simp: plus_def matches_One star_iter_One adv_adv less_Suc_eq_le simp del: upt_Suc)
  also have "\<dots> \<longleftrightarrow> (\<exists>k. 1 \<le> k \<and> k \<le> length (takeWhile p (rest t)) \<and> t' = adv k t)"
    using r by (auto simp: Suc_le_eq gr0_conv_Suc)
  finally show ?thesis .
next
  case False
  then show ?thesis by (cases "rest t") (auto simp: plus_def matches_One)
qed

definition build_char :: "nat \<Rightarrow> bool" where
  "build_char c \<longleftrightarrow> c \<noteq> 47 \<and> c \<noteq> 46"

lemma matches_build:
  "t' \<in> set (matches build_re t) \<longleftrightarrow> ci_word (U ''build'') (take 5 (rest t)) \<and> t' = adv 5 t \<or>
     ci_word (U ''build-'') (take 6 (rest t)) \<and>
     (\<exists>k. 1 \<le> k \<and> k \<le> length (takeWhile build_char (drop 6 (rest t))) \<and> t' = adv (6 + k) t)"
proof -
  have "take 6 (rest t) = take 5 (rest t) @ take 1 (drop 5 (rest t))"
    using take_add [of 5 1 "rest t"] by simp
  moreover have "U ''build-'' = U ''build'' @ U ''-''" by (simp add: U_Cons)
  ultimately have split: "ci_word (U ''build-'') (take 6 (rest t)) \<longleftrightarrow>
      ci_word (U ''build'') (take 5 (rest t)) \<and> ci_word (U ''-'') (take 1 (drop 5 (rest t)))"
  proof (cases "length (rest t) \<ge> 5")
    case True
    then have "length (U ''build'') = length (take 5 (rest t))" by simp
    with \<open>U _ = _\<close> \<open>take 6 _ = _\<close> show ?thesis unfolding ci_word_def by (simp only: list_all2_append)
  next
    case False
    then show ?thesis using ci_word_length [of _ "take 6 (rest t)"] ci_word_length [of _ "take 5 (rest t)"] by force
  qed
  have n: "length ''build'' = 5" "length ''-'' = 1" by simp_all
  have lits: "matches (lit_ci ''build'') s =
      (if ci_word (U ''build'') (take 5 (rest s)) then [adv 5 s] else [])"
    "matches (lit_ci ''-'') s = (if ci_word (U ''-'') (take 1 (rest s)) then [adv 1 s] else [])" for s
    by (simp_all only: matches_lit_ci n)
  have b: "build_re = Seq (lit_ci ''build'') (Alt (Seq (lit_ci ''-'') (plus (One build_char))) Eps)"
    by (simp add: build_re_def build_char_def [abs_def])
  show ?thesis unfolding split b matches.simps lits
    by (auto simp: matches_plus_One adv_adv simp del: matches.simps)
qed

lemma build_component:
  fixes u defines "p \<equiv> takeWhile (\<lambda>c. c \<noteq> 47) u"
  shows "(ci_word (U ''build-'') (take 6 u) \<and>
     (\<exists>k. 1 \<le> k \<and> k \<le> length (takeWhile build_char (drop 6 u)) \<and> ends_part (6 + k) u)) \<longleftrightarrow>
   length p > 6 \<and> ci_word (U ''build-'') (take 6 p) \<and> 46 \<notin> set (drop 6 p)"
proof
  assume a: "ci_word (U ''build-'') (take 6 u) \<and>
     (\<exists>k. 1 \<le> k \<and> k \<le> length (takeWhile build_char (drop 6 u)) \<and> ends_part (6 + k) u)"
  then obtain k where k: "1 \<le> k" "k \<le> length (takeWhile build_char (drop 6 u))" "ends_part (6 + k) u" by blast
  have run: "take k (drop 6 u) = take k (takeWhile build_char (drop 6 u))"
    using k(2) takeWhile_eq_take [of build_char "drop 6 u"] by (metis min.absorb1 take_take)
  have q: "build_char c" if "c \<in> set (take k (drop 6 u))" for c
    using that unfolding run by (blast dest: in_set_takeD set_takeWhileD)
  have cut: "take (6 + k) u = take 6 u @ take k (drop 6 u)" by (rule take_add)
  have "47 \<notin> set (take 6 u)" by (rule ci_word_slash [of "U ''build-''"]) (use a in \<open>auto simp: U_Cons\<close>)
  then have "47 \<notin> set (take (6 + k) u)" unfolding cut using q by (auto simp: build_char_def)
  then have p: "p = take (6 + k) u"
    unfolding p_def using k(3) by (intro takeWhile_component) (auto simp: ends_part_def)
  have "length (drop 6 u) \<ge> k" using k(2) length_takeWhile_le le_trans by blast
  moreover have "drop 6 p = take k (drop 6 u)" "take 6 p = take 6 u" by (simp_all add: p drop_take)
  ultimately show "length p > 6 \<and> ci_word (U ''build-'') (take 6 p) \<and> 46 \<notin> set (drop 6 p)"
    using a k(1) p q by (auto simp: build_char_def)
next
  assume a: "length p > 6 \<and> ci_word (U ''build-'') (take 6 p) \<and> 46 \<notin> set (drop 6 p)"
  define k where "k = length p - 6"
  have "p = take (length p) u" unfolding p_def by (rule takeWhile_eq_take)
  moreover have "length p = 6 + k" using a by (simp add: k_def)
  ultimately have pu: "p = take (6 + k) u" by metis
  have "u = p @ drop (6 + k) u" unfolding pu by simp
  then have "drop 6 u = drop 6 (p @ drop (6 + k) u)" by (rule arg_cong)
  then have "drop 6 u = drop 6 p @ drop (6 + k) u" using a by simp
  moreover have "build_char c" if "c \<in> set (drop 6 p)" for c
    using a that in_set_dropD [OF that] unfolding p_def build_char_def by (auto dest: set_takeWhileD)
  ultimately have "length (drop 6 p) \<le> length (takeWhile build_char (drop 6 u))"
    by (simp add: takeWhile_append2)
  moreover have "take 6 p = take 6 u" by (simp add: pu)
  moreover have "ends_part (6 + k) u"
    using drop_component [of u] a by (simp add: ends_part_def k_def p_def)
  ultimately show "ci_word (U ''build-'') (take 6 u) \<and>
     (\<exists>k. 1 \<le> k \<and> k \<le> length (takeWhile build_char (drop 6 u)) \<and> ends_part (6 + k) u)"
    using a by (intro conjI exI [of _ k]) (auto simp: k_def)
qed

lemma part_matches:
  assumes "10 \<notin> set (rest t)"
  shows "matches part_re t \<noteq> [] \<longleftrightarrow> forbidden_part (takeWhile (\<lambda>c. c \<noteq> 47) (rest t))"
proof -
  let ?u = "rest t"
  have sep: "matches (Alt (lit_ci ''/'') Dollar) (adv n t) \<noteq> [] \<longleftrightarrow> ends_part n ?u" for n
    using separator_matches [of "adv n t"] assms in_set_dropD [of 10 n "rest t"]
    by (auto simp: ends_part_def simp del: matches.simps)
  have five: "length ''build'' = 5" by simp
  have dirs: "47 \<notin> set (U v)" if "v \<in> set (''build'' # forbidden_dirs)" for v
    using that by (auto simp: forbidden_dirs_def U_Cons)
  let ?S = "\<lambda>t'. matches (Alt (lit_ci ''/'') Dollar) t' \<noteq> []"
  have build: "(\<exists>t' \<in> set (matches build_re t). ?S t') \<longleftrightarrow>
      ci_word (U ''build'') (take 5 ?u) \<and> ?S (adv 5 t) \<or> ci_word (U ''build-'') (take 6 ?u) \<and>
      (\<exists>k. 1 \<le> k \<and> k \<le> length (takeWhile build_char (drop 6 ?u)) \<and> ?S (adv (6 + k) t))"
    unfolding Bex_def matches_build by blast
  have alts: "(\<exists>t' \<in> set (matches (alts_ci forbidden_dirs) t). ?S t') \<longleftrightarrow>
      (\<exists>v \<in> set forbidden_dirs. ci_word (U v) (take (length v) ?u) \<and> ?S (adv (length v) t))"
    unfolding Bex_def matches_alts_ci by blast
  have "matches part_re t \<noteq> [] \<longleftrightarrow>
      (\<exists>t' \<in> set (matches build_re t) \<union> set (matches (alts_ci forbidden_dirs) t).
         matches (Alt (lit_ci ''/'') Dollar) t' \<noteq> [])"
    unfolding part_re_def matches.simps(3) matches.simps(4) [of build_re] by auto
  also have "\<dots> \<longleftrightarrow> (\<exists>v \<in> set (''build'' # forbidden_dirs). ci_word (U v) (take (length v) ?u) \<and> ends_part (length v) ?u) \<or>
      ci_word (U ''build-'') (take 6 ?u) \<and>
      (\<exists>k. 1 \<le> k \<and> k \<le> length (takeWhile build_char (drop 6 ?u)) \<and> ends_part (6 + k) ?u)"
    by (simp only: bex_Un build alts sep list.set bex_simps five) blast
  also have "\<dots> \<longleftrightarrow> forbidden_part (takeWhile (\<lambda>c. c \<noteq> 47) ?u)"
    by (simp only: dir_matches [of "''build'' # forbidden_dirs" "rest t", OF dirs] build_component
        forbidden_part_def list_ex_iff)
  finally show ?thesis .
qed

subsection \<open>Searching a whole path\<close>

lemma split_Cons_ex:
  "(\<exists>l u. c # s = l @ u \<and> P l u) \<longleftrightarrow> P [] (c # s) \<or> (\<exists>l u. s = l @ u \<and> P (c # l) u)"
  by (auto simp: Cons_eq_append_conv)

lemma starts_iff:
  "t \<in> set (starts p s) \<longleftrightarrow>
     (\<exists>l u. s = l @ u \<and> t = \<lparr>prev = if l = [] then p else Some (last l), rest = u, groups = []\<rparr>)"
proof (induction s arbitrary: p)
  case (Cons c s)
  have "Some (last (c # l)) = (if l = [] then Some c else Some (last l))" for l by simp
  then show ?case unfolding split_Cons_ex starts.simps(2) list.set insert_iff Cons.IH by simp
qed auto

definition from_here :: "pystr \<Rightarrow> pystr \<Rightarrow> re_state" where
  "from_here l u = \<lparr>prev = if l = [] then None else Some (last l), rest = u, groups = []\<rparr>"

lemma from_here_sel [simp]: "rest (from_here l u) = u" "prev (from_here l u) = None \<longleftrightarrow> l = []"
  by (simp_all add: from_here_def)

lemma search_iff: "re_search r s \<noteq> None \<longleftrightarrow> (\<exists>l u. s = l @ u \<and> matches r (from_here l u) \<noteq> [])"
  unfolding re_search_None from_here_def Ball_def starts_iff by blast

lemma search_part:
  assumes "10 \<notin> set s"
  shows "re_search (Seq (Alt AtStart (lit_ci ''/'')) part_re) s \<noteq> None \<longleftrightarrow>
    list_ex forbidden_part (split_on 47 s)"
proof -
  let ?F = "\<lambda>u. forbidden_part (takeWhile (\<lambda>c. c \<noteq> 47) u)"
  have sep: "matches (Seq (Alt AtStart (lit_ci ''/'')) part_re) t \<noteq> [] \<longleftrightarrow>
      prev t = None \<and> matches part_re t \<noteq> [] \<or> (\<exists>u. rest t = 47 # u \<and> matches part_re (adv 1 t) \<noteq> [])" for t
    by (cases "rest t") (auto simp: matches_lit_ci ci_word_def U_Cons ci_eq_def)
  have here: "matches (Seq (Alt AtStart (lit_ci ''/'')) part_re) (from_here l u) \<noteq> [] \<longleftrightarrow>
      l = [] \<and> ?F u \<or> (\<exists>v. u = 47 # v \<and> ?F v)" if "s = l @ u" for l u
    unfolding sep using part_matches [of "from_here l u"] part_matches [of "adv 1 (from_here l u)"] that assms
    by (cases u) auto
  have "re_search (Seq (Alt AtStart (lit_ci ''/'')) part_re) s \<noteq> None \<longleftrightarrow>
      ?F s \<or> (\<exists>l u. s = l @ 47 # u \<and> ?F u)"
    unfolding search_iff using here by (metis append_Nil)
  also have "\<dots> \<longleftrightarrow> list_ex forbidden_part (split_on 47 s)"
    unfolding list_ex_iff Bex_def split_on_components by blast
  finally show ?thesis .
qed

lemma search_word: "re_search (lit_ci w) s \<noteq> None \<longleftrightarrow> has_ci s (U w)"
proof -
  have "ci_word (U w) (take (length w) u) \<longleftrightarrow> (\<exists>e r. u = e @ r \<and> ci_word (U w) e)" for u
  proof
    assume "ci_word (U w) (take (length w) u)"
    then show "\<exists>e r. u = e @ r \<and> ci_word (U w) e" by (metis append_take_drop_id)
  next
    assume "\<exists>e r. u = e @ r \<and> ci_word (U w) e"
    then obtain e r where "u = e @ r" "ci_word (U w) e" by blast
    then show "ci_word (U w) (take (length w) u)" using ci_word_length [of "U w" e] by simp
  qed
  then show ?thesis unfolding search_iff has_ci_def by (simp add: matches_lit_ci) blast
qed

lemma search_suffix:
  assumes "10 \<notin> set s"
  shows "re_search (Seq (alts_ci vs) Dollar) s \<noteq> None \<longleftrightarrow> list_ex (\<lambda>w. ends_ci s (U w)) vs"
proof -
  have m: "matches (Seq (alts_ci vs) Dollar) t \<noteq> [] \<longleftrightarrow> (\<exists>w \<in> set vs. ci_word (U w) (rest t))"
    if "10 \<notin> set (rest t)" for t
  proof -
    have tail: "drop n (rest t) \<noteq> [10]" for n
      using that in_set_dropD [of 10 n "rest t"] by (metis list.set_intros(1))
    have "matches (Seq (alts_ci vs) Dollar) t \<noteq> [] \<longleftrightarrow>
        (\<exists>t' \<in> set (matches (alts_ci vs) t). matches Dollar t' \<noteq> [])" by auto
    also have "\<dots> \<longleftrightarrow> (\<exists>w \<in> set vs. ci_word (U w) (take (length w) (rest t)) \<and> drop (length w) (rest t) = [])"
      unfolding Bex_def matches_alts_ci using tail by auto
    also have "\<dots> \<longleftrightarrow> (\<exists>w \<in> set vs. ci_word (U w) (rest t))"
      using ci_word_length [of _ "rest t"] by (intro bex_cong refl) force
    finally show ?thesis .
  qed
  have "re_search (Seq (alts_ci vs) Dollar) s \<noteq> None \<longleftrightarrow>
      (\<exists>l u. s = l @ u \<and> (\<exists>w \<in> set vs. ci_word (U w) u))"
  proof -
    have "matches (Seq (alts_ci vs) Dollar) (from_here l u) \<noteq> [] \<longleftrightarrow> (\<exists>w \<in> set vs. ci_word (U w) u)"
      if "s = l @ u" for l u using m [of "from_here l u"] assms that by simp
    then show ?thesis unfolding search_iff by blast
  qed
  then show ?thesis by (auto simp: list_ex_iff ends_ci_def)
qed

lemma search_forbidden: "10 \<notin> set s \<Longrightarrow> re_search SOURCE_FORBIDDEN s \<noteq> None \<longleftrightarrow> forbidden_path s"
  unfolding SOURCE_FORBIDDEN_def part_re_def [symmetric] forbidden_path_def
  using search_part search_word [of "''.so.''" s] search_suffix re_search_Alt by metis

lemma set_split_on: "p \<in> set (split_on c s) \<Longrightarrow> x \<in> set p \<Longrightarrow> x \<in> set s"
  unfolding split_on_components by (auto dest: set_takeWhileD)

lemma checked_member_line:
  assumes "10 \<notin> set name" shows "10 \<notin> set (checked_member name)"
proof -
  have "10 \<notin> set p" if "p \<in> set (posix_parts name)" for p
    using that assms by (auto simp: posix_parts_def Let_def split: if_splits dest: set_split_on)
  then have "10 \<notin> set (join [47] (map (\<lambda>part. if lower part \<in> {U ''windows'', U ''win32''}
      then U ''platform-windows'' else part) (posix_parts name)))"
    by (auto dest!: set_join simp: U_Cons split: if_splits)
  with assms show ?thesis unfolding checked_member_def by (split if_split) blast
qed

subsection \<open>Exceptions\<close>

text \<open>
  What the checks of the audit raise: the audit error, the errors of decoding a text, and two
  that come from a manifest of the wrong shape. No lookup of a member can fail.
\<close>

fun source_exc :: "exc \<Rightarrow> bool" where
  "source_exc (AuditError m a) = True"
| "source_exc UnicodeDecodeError = True"
| "source_exc AttributeError = True"
| "source_exc TypeError = True"
| "source_exc _ = False"

lemma source_required: "set SOURCE_REQUIRED \<subseteq> keys payloads \<Longrightarrow> x \<in> {source_libusb, U ''BUILD-RELINK.md'',
   U ''source-manifest.json'', U ''DEPENDENCY-NOTICE.txt'', U ''LICENCE.siano''} \<Longrightarrow> x \<in> keys payloads"
  by (auto simp: SOURCE_REQUIRED_def source_libusb_def LIBUSB_VERSION_def U_Cons)

lemma check_members_iff [res_simps]:
  "check_members payloads = Inr u \<longleftrightarrow> set SOURCE_REQUIRED \<subseteq> keys payloads \<and>
     (\<forall>(name, digest) \<in> set LINUX_RUNTIME_LICENSE_SHA256.
        sha256_bytes (get_default payloads (U ''repository/distribution/licenses/'' @ posix_name name)) = digest) \<and>
     U ''repository/scripts/source-identity.py'' \<in> keys payloads \<and>
     (\<forall>name \<in> keys payloads. \<not> forbidden_source_member name \<and> list_ex (startswith name) source_prefixes)"
  unfolding check_members_def check_member_def andThen_eq_Inr if_eq_Inr forE_eq_Inr Let_def keys_set_map
  by (auto simp: fail_eq split_def)

lemma tree_id_iff: "tree_id d = Inr True \<longleftrightarrow> (\<exists>tree. map_of d (U ''tree'') = Some (JStr tree) \<and> hex_id 40 tree)"
  by (auto simp: tree_id_def split: option.splits json.splits)

text \<open>A dependency whose pin file, recorded commit and recorded tree are object names that agree.\<close>

definition pinned :: "(pystr, bytes) dict \<Rightarrow> (pystr, json) dict \<Rightarrow> pystr \<Rightarrow> pystr \<Rightarrow> bool" where
  "pinned payloads dependencies name pin \<longleftrightarrow>
     (\<exists>d pin_text tree. map_of dependencies name = Some (JObj d) \<and>
        ascii_decode (get_default payloads (U ''repository/cmake/'' @ pin)) = Inr pin_text \<and>
        jget d (U ''commit'') = JStr (strip pin_text) \<and> hex_id 40 (strip pin_text) \<and>
        map_of d (U ''tree'') = Some (JStr tree) \<and> hex_id 40 tree) \<and>
     U ''third_party/'' @ name @ [47] @ U ''CMakeLists.txt'' \<in> keys payloads \<and>
     U ''third_party/'' @ name @ [47] @ U ''LICENSE'' \<in> keys payloads"

lemma check_dependency_pinned: 
  "check_dependency payloads dependencies name pin = Inr u \<Longrightarrow> pinned payloads dependencies name pin"
proof -
  assume c: "check_dependency payloads dependencies name pin = Inr u"
  then obtain dependency pin_text where d: "map_of dependencies name = Some dependency"
    and p: "ascii_decode (get_default payloads (U ''repository/cmake/'' @ pin)) = Inr pin_text"
    and ok: "(if \<not> is_obj dependency \<or> \<not> py_eq (jget (obj_items dependency) (U ''commit'')) (JStr (strip pin_text)) \<or>
       \<not> hex_id 40 (strip pin_text) then Inr False else tree_id (obj_items dependency)) = Inr True"
    and f: "forE (\<lambda>required. if U ''third_party/'' @ name @ [47] @ required \<notin> keys payloads
         then fail ''source archive dependency missing {}/{}'' [name, required] else Inr ())
       [U ''CMakeLists.txt'', U ''LICENSE''] = Inr u"
    unfolding check_dependency_def andThen_eq_Inr get_item_eq_Inr Let_def if_eq_Inr by auto
  then show ?thesis
    unfolding pinned_def forE_eq_Inr
    by (auto simp: tree_id_iff is_obj_iff fail_eq split: if_splits)
qed

lemma check_dependencies_iff:
  "check_dependencies payloads manifest = Inr u \<Longrightarrow> \<exists>m d. manifest = JObj m \<and>
     jget m (U ''dependencies'') = JObj d \<and>
     pinned payloads d (U ''dtv-userland-core'') (U ''dtv-userland-core.revision'') \<and>
     pinned payloads d (U ''px4-userland'') (U ''px4-userland.revision'')"
  unfolding check_dependencies_def andThen_eq_Inr if_eq_Inr forE_eq_Inr obj_get_def is_obj_iff
  by (cases manifest) (auto dest: check_dependency_pinned)

lemma source_files_raises: "raises source_exc (check_source_files payloads files)"
proof -
  have "raises source_exc (forE (\<lambda>(name, rec). andThen (get_item payloads name (KeyError name)) (\<lambda>data.
      if \<not> source_record_ok data rec then fail ''source manifest mismatch: {}'' [name] else Inr ())) d)"
    if "keys d = keys payloads - {U ''source-manifest.json'', U ''SHA256SUMS''}" for d
  proof -
    have "a \<in> keys payloads" if "(a, b) \<in> set d" for a b
      using keys_mem [OF that] \<open>keys d = _\<close> by blast
    then show ?thesis by (auto intro!: raise_intros)
  qed
  then show ?thesis
    unfolding check_source_files_def by (intro raises_if raises_fail) (simp only: source_exc.simps, blast)
qed

lemma check_provenance_raises: "raises source_exc (check_provenance payloads m)"
  unfolding check_provenance_def Let_def by (intro raise_intros source_files_raises; simp only: source_exc.simps)

lemma tree_id_raises: "raises source_exc (tree_id d)"
  by (simp add: tree_id_def split: option.splits json.splits)

lemma check_dependencies_raises: "raises source_exc (check_dependencies payloads manifest)"
proof -
  have "raises source_exc (check_dependency payloads d name pin)" if "name \<in> keys d" for d name pin
    unfolding check_dependency_def Let_def by (intro raise_intros tree_id_raises that; simp only: source_exc.simps)
  then have "raises source_exc (case x of (name, pin) \<Rightarrow> check_dependency payloads d name pin)"
    if "keys d = {U ''dtv-userland-core'', U ''px4-userland''}"
      "x \<in> set [(U ''dtv-userland-core'', U ''dtv-userland-core.revision''), (U ''px4-userland'', U ''px4-userland.revision'')]"
    for d x using that by auto
  then show ?thesis
    unfolding check_dependencies_def by (intro raise_intros) (auto simp: obj_get_def split: json.splits)
qed

lemma check_members_raises: "raises source_exc (check_members payloads)"
  unfolding check_members_def check_member_def Let_def split_def by (intro raise_intros; simp only: source_exc.simps)

lemma source_rest_raises:
  assumes "set SOURCE_REQUIRED \<subseteq> keys payloads"
  shows "raises source_exc (check_rebuild payloads)" "raises source_exc (check_source_notice payloads m)"
  unfolding check_rebuild_def check_source_notice_def Let_def
  by (intro raise_intros source_required [OF assms]; simp)+

lemma core_closure_raises:
  "U ''third_party/dtv-userland-core/CMakeLists.txt'' \<in> keys payloads \<Longrightarrow>
   raises source_exc (check_core_closure payloads)"
  unfolding check_core_closure_def Let_def by (intro raise_intros) (simp_all add: U_Cons)

subsection \<open>Properties\<close>

text \<open>C30. The pattern of forbidden source members, written as one regular expression, is the
  following condition on a path without line feed: a component is \<open>build\<close>, \<open>build-\<close> followed by
  a name without dot, or one of the listed directories, or \<open>.so.\<close> occurs, or the path ends in
  one of the listed endings, all without regard to case. Before the test, sources of the two
  dependencies have their \<open>windows\<close> components renamed.\<close>

theorem forbidden_source_member_exact:
  assumes "10 \<notin> set name"
  shows "forbidden_source_member name \<longleftrightarrow> forbidden_path (checked_member name)"
  unfolding forbidden_source_member_def by (rule search_forbidden [OF checked_member_line [OF assms]])

theorem forbidden_source_member_exact_witness:
  "forbidden_source_member (U ''repository/Build-x/a.c'')"
proof -
  have "forbidden_path (checked_member (U ''repository/Build-x/a.c''))"
    by (simp add: forbidden_path_def checked_member_def startswith_def forbidden_part_def ci_word_def
        ci_eq_def U_Cons)
  then show ?thesis
    using forbidden_source_member_exact [of "U ''repository/Build-x/a.c''"] by (simp add: U_Cons)
qed

text \<open>C29. An accepted source archive has every required member and none that is forbidden or
  outside the allowed places, the pinned libusb source and licences, a manifest whose
  dependencies are pinned to the commits of the archived pin files, and checksums that hold for
  every member.\<close>

theorem source_archive_accepted:
  "(case audit_source_payloads payloads of
      Inl _ \<Rightarrow> True
    | Inr manifest \<Rightarrow>
        set SOURCE_REQUIRED \<subseteq> keys payloads \<and>
        list_all (\<lambda>name. \<not> forbidden_source_member name \<and> list_ex (startswith name) source_prefixes) (map fst payloads) \<and>
        map_option sha256_bytes (map_of payloads source_libusb) = Some LIBUSB_SOURCE_SHA256 \<and>
        map_option sha256_bytes (map_of payloads (U ''LICENCE.siano'')) = Some FIRMWARE_LICENSE_SHA256 \<and>
        (\<exists>d. jget manifest (U ''dependencies'') = JObj d \<and>
           pinned payloads d (U ''dtv-userland-core'') (U ''dtv-userland-core.revision'') \<and>
           pinned payloads d (U ''px4-userland'') (U ''px4-userland.revision'')) \<and>
        (\<exists>v. jget manifest (U ''version'') = JStr v \<and> version_re v \<and>
           map_of payloads (U ''repository/VERSION'') = Some (ascii_encode (v @ [10]))) \<and>
        verify_checksums payloads = Inr ())"
proof (cases "audit_source_payloads payloads")
  case (Inr manifest)
  then obtain doc raw where m: "check_members payloads = Inr ()" and r: "check_rebuild payloads = Inr ()"
    and d: "check_dependencies payloads doc = Inr ()" and man: "manifest = obj_items doc"
    and p: "check_provenance payloads manifest = Inr ()" and n: "check_source_notice payloads manifest = Inr ()"
    and c: "verify_checksums payloads = Inr ()"
    unfolding audit_source_payloads_def andThen_eq_Inr by auto
  have "map_option sha256_bytes (map_of payloads source_libusb) = Some LIBUSB_SOURCE_SHA256"
    using r unfolding check_rebuild_def andThen_eq_Inr get_item_eq_Inr if_eq_Inr by auto
  moreover have "map_option sha256_bytes (map_of payloads (U ''LICENCE.siano'')) = Some FIRMWARE_LICENSE_SHA256"
    using n unfolding check_source_notice_def Let_def andThen_eq_Inr get_item_eq_Inr if_eq_Inr by auto
  moreover have "\<exists>v. jget manifest (U ''version'') = JStr v \<and> version_re v \<and>
      map_of payloads (U ''repository/VERSION'') = Some (ascii_encode (v @ [10]))"
    using p unfolding check_provenance_def Let_def andThen_eq_Inr if_eq_Inr validate_eq_Inr
    by (auto simp: is_str_iff)
  moreover have "\<exists>e. jget manifest (U ''dependencies'') = JObj e \<and>
      pinned payloads e (U ''dtv-userland-core'') (U ''dtv-userland-core.revision'') \<and>
      pinned payloads e (U ''px4-userland'') (U ''px4-userland.revision'')"
    using check_dependencies_iff [OF d] man by auto
  ultimately show ?thesis
    using m c Inr unfolding check_members_iff by (simp add: list_all_iff keys_def)
qed simp

text \<open>The audit of a source archive raises only the audit error, the error of a text that does
  not decode, and the two errors that come from a manifest of the wrong shape: no lookup of a
  member fails, whatever the archive holds.\<close>

theorem source_audit_exceptions:
  "(case audit_source_payloads payloads of Inl e \<Rightarrow> source_exc e | Inr _ \<Rightarrow> True)"
proof -
  have core: "raises source_exc (check_core_closure payloads)"
    if "check_dependencies payloads doc = Inr u" for doc u
    using check_dependencies_iff [OF that] by (intro core_closure_raises) (auto simp: pinned_def U_Cons)
  have "raises source_exc (audit_source_payloads payloads)"
    unfolding audit_source_payloads_def
  proof (rule raises_andThen [OF check_members_raises], goal_cases)
    case (1 u)
    then have req: "set SOURCE_REQUIRED \<subseteq> keys payloads" by (simp only: check_members_iff)
    show ?case
      by (intro raises_andThen source_rest_raises [OF req] raises_get_item source_required [OF req]
          raises_parse_json check_dependencies_raises check_provenance_raises raises_records raises_Inr)
        (auto intro: core)
  qed
  then show ?thesis by (simp only: raises_def)
qed

text \<open>A source manifest that is strict JSON but not an object is not refused with an audit
  error: \<open>manifest.get\<close> raises \<open>AttributeError\<close> before the test \<open>isinstance(manifest, dict)\<close>.\<close>

theorem source_manifest_not_object:
  assumes "\<not> is_obj manifest"
  shows "check_dependencies payloads manifest = Inl AttributeError"
  using assms by (cases manifest) (auto simp: check_dependencies_def obj_get_def)

theorem source_manifest_not_object_witness:
  "check_dependencies [] (JArr []) = Inl AttributeError"
  by (rule source_manifest_not_object) simp

end
