(* ===== verification/AuditMain.thy ===== *)
theory AuditMain
  imports BinaryFacts SourceFacts
begin

section \<open>The audit as a program\<close>

text \<open>
  \<open>main\<close> of \<open>audit-artifact.py\<close> and the handler around it: which audit the options select, the
  options that \<open>argparse\<close> refuses with a usage error, and which exceptions become the exit status 1
  and which leave the program. The option \<open>--self-test\<close> runs test code and is left out; \<open>argparse\<close>
  admits only the keys of \<open>PLATFORMS\<close> as a platform.
\<close>

subsection \<open>Options and results\<close>

record audit_args =
  o_source_archive :: bool
  o_archive :: "disk_file option"
  o_platform :: "pystr option"
  o_binary :: "disk_file option"
  o_label :: pystr
  o_siblings :: "pystr list"
  o_source_ref :: "pystr option"
  o_evidence_output :: bool

datatype audit_result =
    Source_report "pystr list" "(pystr, json) dict"
  | Archive_report audit_report
  | Evidence json

text \<open>What the process does: a usage error (status 2), a printed result (0) with the evidence file
  that was written, a reported exception (1), or a traceback.\<close>

datatype audit_exit =
    Usage string
  | Printed audit_result "bytes option"
  | Reported exc
  | Traceback exc

text \<open>\<open>except (AuditError, OSError, ValueError, KeyError, json.JSONDecodeError)\<close>; a decoding error is a
  \<open>ValueError\<close>.\<close>

fun handled :: "exc \<Rightarrow> bool" where
  "handled (AuditError m args) = True"
| "handled (OSError m args) = True"
| "handled (ValueError m args) = True"
| "handled (KeyError k) = True"
| "handled UnicodeDecodeError = True"
| "handled _ = False"

definition finish :: "(audit_result \<times> bytes option) res \<Rightarrow> audit_exit" where
  "finish m = (case m of
       Inr (result, file) \<Rightarrow> Printed result file
     | Inl e \<Rightarrow> if handled e then Reported e else Traceback e)"

definition audit_main :: "container_lib \<Rightarrow> elf_host \<Rightarrow> darwin_host \<Rightarrow> audit_args \<Rightarrow> audit_exit" where
  "audit_main L host darwin args =
     (if o_source_archive args then
        (case o_archive args of
           None \<Rightarrow> Usage ''--source-archive requires --archive''
         | Some path \<Rightarrow> finish (andThen (audit_source_archive L path) (\<lambda>(members, manifest).
             Inr (Source_report members manifest, None))))
      else (case o_archive args of
        Some path \<Rightarrow> (case o_platform args of
            None \<Rightarrow> Usage ''--archive requires --platform''
          | Some platform \<Rightarrow> finish (andThen (audit_binary_archive L host path platform) (\<lambda>report.
              Inr (Archive_report report, None))))
      | None \<Rightarrow> (case o_binary args of
          Some path \<Rightarrow> (case o_platform args of
              None \<Rightarrow> Usage ''--binary requires --platform''
            | Some platform \<Rightarrow>
                if o_source_ref args = None \<or> o_source_ref args = Some []
                then Usage ''--binary requires --source-ref''
                else finish (andThen (audit_binary host darwin (o_siblings args) path (o_label args) platform
                    (the (o_source_ref args))) (\<lambda>evidence.
                  Inr (Evidence evidence, if o_evidence_output args then Some (write_json evidence) else None))))
        | None \<Rightarrow> Usage ''provide --archive, --source-archive, or --binary'')))"

subsection \<open>What each audit raises\<close>

text \<open>
  What the audit relies on: the tools it runs fail with an audit error or with output that does not
  decode, and reading a member of a container fails with one of the exceptions of its handler.
\<close>

definition darwin_fails_audit :: "darwin_host \<Rightarrow> bool" where
  "darwin_fails_audit darwin \<longleftrightarrow>
     (\<forall>run flag data. otool darwin = Some run \<longrightarrow> raises binary_exc (run flag data)) \<and>
     (\<forall>run data. lipo darwin = Some run \<longrightarrow> raises binary_exc (run data)) \<and>
     (\<forall>run data. nm darwin = Some run \<longrightarrow> raises binary_exc (run data))"

definition container_fails_audit :: "container_lib \<Rightarrow> bool" where
  "container_fails_audit L \<longleftrightarrow>
     (\<forall>data infos. zip_infolist L data = Some infos \<longrightarrow> (\<forall>i \<in> set infos. raises handled (zi_content i))) \<and>
     (\<forall>data. \<forall>i \<in> set (fst (tar_getmembers L data)). raises handled (ti_content i))"

lemma binary_handled: "raises binary_exc m \<Longrightarrow> raises handled m"
  by (erule raises_mono) (auto elim!: binary_exc.elims)

lemma safe_member_raises: "raises handled (safe_member name)"
  unfolding safe_member_def by (intro raise_intros) simp_all

lemma zip_payloads_raises:
  "(\<And>i. i \<in> set infos \<Longrightarrow> raises handled (zi_content i)) \<Longrightarrow> raises handled (zip_payloads acc infos)"
  by (induction acc infos rule: zip_payloads.induct)
    (auto simp: Let_def intro!: raises_andThen safe_member_raises raises_fail)

lemma tar_payloads_raises:
  "(\<And>i. i \<in> set infos \<Longrightarrow> raises handled (ti_content i)) \<Longrightarrow> raises handled (tar_payloads acc infos)"
  by (induction acc infos rule: tar_payloads.induct)
    (auto intro!: raises_andThen safe_member_raises raises_fail split: option.splits)

lemma archive_payloads_raises:
  assumes "container_fails_audit L"
  shows "raises handled (archive_payloads L path)"
proof -
  have "raises handled (archive_members L path)"
    using assms unfolding archive_members_def container_fails_audit_def
    by (auto intro!: zip_payloads_raises tar_payloads_raises split: option.splits prod.splits) (metis fst_conv)+
  then have "raises handled (wrap_io (f_name path) (archive_members L path))"
    by (auto simp: wrap_io_def fail_def raises_def split: sum.splits exc.splits)
  then show ?thesis unfolding archive_payloads_def by (auto intro!: raise_intros)
qed

lemma load_commands_raises: "raises handled (audit_darwin_load_commands text' label)"
  unfolding audit_darwin_load_commands_def Let_def
  by (auto intro!: raises_if raises_fail split: option.splits)

lemma symbol_text_raises: "raises handled (audit_darwin_optional_symbol_text host text' label)"
  unfolding audit_darwin_optional_symbol_text_def Let_def by (intro raise_intros) simp_all

lemma darwin_program_raises:
  assumes "darwin_fails_audit darwin"
  shows "raises handled (audit_darwin_program darwin data label)"
proof -
  have tool: "otool darwin = Some run \<Longrightarrow> raises handled (run flag d)" "lipo darwin = Some run' \<Longrightarrow> raises handled (run' d)"
      "nm darwin = Some run' \<Longrightarrow> raises handled (run' d)" for run run' flag d
    using assms by (auto simp: darwin_fails_audit_def intro!: binary_handled)
  have bin: "raises handled (audit_darwin_binary darwin run data label)" if "otool darwin = Some run" for run
    using that unfolding audit_darwin_binary_def
    by (auto intro!: raises_andThen raises_if raises_fail load_commands_raises symbol_text_raises intro: tool
        split: option.splits)
  show ?thesis
    unfolding audit_darwin_program_def
    by (auto intro!: raises_andThen raises_if raises_fail bin binary_handled [OF program_raises(2)] intro: tool
        split: option.splits)
qed

lemma audit_binary_raises:
  assumes "host_fails_audit host" "darwin_fails_audit darwin"
  shows "raises handled (audit_binary host darwin siblings path label platform source_ref)"
  unfolding audit_binary_def audit_pe_x64_def Let_def validate_source_ref_def
  by (intro raise_intros binary_handled [OF elf_program_raises(1)] binary_handled [OF elf_program_raises(2)]
      binary_handled [OF program_raises(1)] darwin_program_raises assms) simp_all

lemma source_archive_raises:
  assumes "container_fails_audit L" and "audit_source_archive L path = Inl e"
  shows "handled e \<or> e = AttributeError \<or> e = TypeError"
proof (cases "archive_payloads L path")
  case (Inl e')
  then show ?thesis using assms(2) archive_payloads_raises [OF assms(1), of path]
    by (auto simp: audit_source_archive_def raises_def)
next
  case (Inr p)
  then have "audit_source_payloads (fst p) = Inl e"
    using assms(2) by (auto simp: audit_source_archive_def res_simps split: prod.splits)
  then have "source_exc e" using source_audit_exceptions [of "fst p"] by simp
  then show ?thesis by (auto elim!: source_exc.elims)
qed

lemma binary_archive_raises:
  assumes "container_fails_audit L" "host_fails_audit host"
  shows "raises handled (audit_binary_archive L host path platform)"
  unfolding audit_binary_archive_def using binary_audit_exceptions [OF assms(2)]
  by (intro raises_andThen archive_payloads_raises [OF assms(1)] raises_case_prod binary_handled)
    (simp add: raises_def)


definition sample_library :: container_lib where
  "sample_library = \<lparr>zip_infolist = (\<lambda>_. None), tar_getmembers = (\<lambda>_. ([], True))\<rparr>"

definition sample_args :: audit_args where
  "sample_args = \<lparr>o_source_archive = False, o_archive = Some \<lparr>f_name = U ''a.zip'', f_is_file = True, f_is_symlink = False,
     f_data = []\<rparr>, o_platform = Some (U ''windows-x64''), o_binary = None, o_label = [], o_siblings = [],
     o_source_ref = None, o_evidence_output = False\<rparr>"


text \<open>A \<open>tree\<close> of a pinned dependency that is not a string ends in a traceback.\<close>

theorem source_tree_not_text:
  assumes "map_of dependencies name = Some (JObj d)" "map_of d (U ''tree'') = Some v" "\<not> is_str v"
    and "jget d (U ''commit'') = JStr pin" "hex_id 40 pin"
    and "get_default payloads (U ''repository/cmake/'' @ pin_name) = ascii_encode pin"
  shows "check_dependency payloads dependencies name pin_name = Inl TypeError"
proof -
  have c: "is_lower_hex c" if "c \<in> set pin" for c using assms(5) that by (rule hex_id_chars)
  have "pin \<noteq> []" using assms(5) by (auto simp: hex_id_def)
  then have "strip pin = pin" using c is_lower_hex_not_break by (intro strip_idem_nonspace) auto
  moreover have "ascii_decode (ascii_encode pin) = Inr pin"
    using c is_lower_hex_not_break by (intro ascii_decode_encode) blast
  moreover have "tree_id d = Inl TypeError" using assms(2,3) by (cases v) (auto simp: tree_id_def)
  ultimately show ?thesis
    using assms by (simp add: check_dependency_def get_item_def Let_def)
qed

end
