(* ===== verification/ReleaseVerify.thy ===== *)
theory ReleaseVerify
  imports JsonDump DarwinText
begin

unbundle bit_operations_syntax

section \<open>Verification of a release against its candidate\<close>

text \<open>
  \<open>release_verify.py\<close>: three bundles (candidate, independent reproduction, tag rebuild) are read
  with strict limits, every archive is checked against its checksums, the candidate and the
  reproduction have to agree byte for byte, and the tag rebuild may differ from the candidate
  only in identity fields and approved documents; the git history has to lead from the one
  commit to the other through document commits.

  Parameters: \<open>str.casefold\<close>, the container library of \<open>Archive\<close>, and \<open>git\<close>, of which
  \<open>git_run\<close> gives the exit status and the standard output, or nothing when it cannot run.
\<close>

record verify_env =
  casefold :: "pystr \<Rightarrow> pystr"
  containers :: container_lib
  git_run :: "pystr list \<Rightarrow> (nat \<times> bytes) option"

definition RELEASE_PLATFORMS :: "pystr list" where
  "RELEASE_PLATFORMS = map U [''linux-x86_64'', ''linux-aarch64'', ''darwin-arm64'', ''android-aarch64'',
     ''android-armv7a'', ''android-x86_64'', ''windows-x64'']"

text \<open>\<open>VERSION\<close>: three decimal numbers without leading zeros.\<close>

definition number_part :: "pystr \<Rightarrow> bool" where
  "number_part p \<longleftrightarrow> p \<noteq> [] \<and> list_all is_digit p \<and> (p = [48] \<or> hd p \<noteq> 48)"

definition VERSION :: "pystr \<Rightarrow> bool" where
  "VERSION s \<longleftrightarrow> length (split_on 46 s) = 3 \<and> list_all number_part (split_on 46 s)"

definition MAX_ARCHIVE_BYTES :: nat where "MAX_ARCHIVE_BYTES = 1024 * 1024 * 1024"
definition MAX_MEMBER_BYTES :: nat where "MAX_MEMBER_BYTES = 128 * 1024 * 1024"
definition MAX_TOTAL_BYTES :: nat where "MAX_TOTAL_BYTES = 1024 * 1024 * 1024"
definition MAX_MEMBERS :: nat where "MAX_MEMBERS = 50000"
definition MAX_METADATA_BYTES :: nat where "MAX_METADATA_BYTES = 8 * 1024 * 1024"
definition CHUNK_BYTES :: nat where "CHUNK_BYTES = 1024 * 1024"

definition EVIDENCE :: "pystr list" where
  "EVIDENCE = map U [''evidence/binary-audit.json'', ''evidence/sianod-binary-audit.json'',
     ''evidence/sianoctl-binary-audit.json'']"

definition PX4_DOCUMENTS :: "pystr list" where
  "PX4_DOCUMENTS = map U [''README.md'', ''SPEC.md'', ''docs/platforms/validation-results.md'',
     ''docs/release-validation.md'', ''docs/releasing.md'']"

subsection \<open>Reading files\<close>

text \<open>The hash of a file is taken over its whole content, in chunks that \<open>hashlib\<close> joins.\<close>

definition file_sha256 :: "disk_file \<Rightarrow> pystr res" where
  "file_sha256 path =
     andThen (require (f_is_file path \<and> \<not> f_is_symlink path) ''not a regular file: {}'' [f_name path]) (\<lambda>_.
     andThen (require (length (f_data path) \<le> MAX_ARCHIVE_BYTES) ''input size limit: {}'' [f_name path]) (\<lambda>_.
     Inr (sha256_bytes (f_data path))))"

fun verify_pairs :: "pystr \<Rightarrow> (pystr \<times> json) list \<Rightarrow> (pystr \<times> json) list \<Rightarrow> (pystr \<times> json) list res" where
  "verify_pairs name result [] = Inr result"
| "verify_pairs name result ((key, value) # items) =
     andThen (require (key \<notin> keys result) ''duplicate JSON key in {}: {}'' [name, key]) (\<lambda>_.
       verify_pairs name (result @ [(key, value)]) items)"

definition verify_hooks :: "pystr \<Rightarrow> json_hooks" where
  "verify_hooks name = \<lparr>pairs_hook = verify_pairs name [],
     constant_hook = (\<lambda>value. Inl (VerificationError ''invalid JSON constant in {}: {}'' [name, value]))\<rparr>"

definition verify_json :: "bytes \<Rightarrow> pystr \<Rightarrow> (pystr, json) dict res" where
  "verify_json data name =
     (case andThen (utf8_decode data) (json_loads (verify_hooks name)) of
        Inl _ \<Rightarrow> Inl (VerificationError ''invalid JSON {}'' [name])
      | Inr value \<Rightarrow>
          andThen (require (is_obj value) ''{} must be an object'' [name]) (\<lambda>_. Inr (obj_items value)))"

definition canonical_json :: "(pystr, json) dict \<Rightarrow> bytes" where
  "canonical_json value = ascii_encode (json_dumps (JObj value))"

definition canonical_json_file :: "bytes \<Rightarrow> (pystr, json) dict \<Rightarrow> bool" where
  "canonical_json_file data value \<longleftrightarrow> data = canonical_json value \<or> data = canonical_json value @ [10]"

definition matching_json_style :: "bytes \<Rightarrow> bytes \<Rightarrow> pystr \<Rightarrow> unit res" where
  "matching_json_style before after name =
     require (endswith before [10] = endswith after [10]) ''JSON line ending changed: {}'' [name]"

definition safe_name :: "pystr \<Rightarrow> unit res" where
  "safe_name name =
     andThen (require (name \<noteq> [] \<and> length name \<le> 1024) ''invalid archive path length'' []) (\<lambda>_.
     require (\<not> list_ex (\<lambda>c. c < 32 \<or> c = 127) name \<and> 92 \<notin> set name \<and> 58 \<notin> set name \<and>
         list_all (\<lambda>part. part \<notin> {[], [46], [46, 46]}) (split_on 47 name) \<and> \<not> startswith name [47])
       ''unsafe archive path: {}'' [name])"

subsection \<open>Members\<close>

record member =
  m_kind :: string
  m_mode :: nat
  m_size :: nat
  m_digest :: pystr
  m_data :: "bytes option"
  m_link :: "pystr option"

text \<open>
  The loop of \<open>read_member\<close>: it reads at most one byte more than the declared size, so that a
  longer stream is noticed; \<open>seen\<close> bytes have been read and hashed.
\<close>

function read_loop :: "nat \<Rightarrow> pystr \<Rightarrow> nat \<Rightarrow> bytes \<Rightarrow> bytes \<Rightarrow> (nat \<times> bytes) res" where
  "read_loop declared name seen hashed stream =
     (let chunk = take (min CHUNK_BYTES (declared - seen + 1)) stream in
      if chunk = [] then Inr (seen, hashed)
      else
      andThen (require (seen + length chunk \<le> declared) ''member length mismatch: {}'' [name]) (\<lambda>_.
        read_loop declared name (seen + length chunk) (hashed @ chunk)
          (drop (min CHUNK_BYTES (declared - seen + 1)) stream)))"
  by auto

termination read_loop
  by (relation "measure (\<lambda>(_, _, _, _, stream). length stream)") (auto simp: CHUNK_BYTES_def)

declare read_loop.simps [simp del]

definition read_member :: "bytes res \<Rightarrow> nat \<Rightarrow> pystr \<Rightarrow> bool \<Rightarrow> member res" where
  "read_member stream declared name keep =
     andThen (require (declared \<le> MAX_MEMBER_BYTES) ''archive member size limit: {}'' [name]) (\<lambda>_.
     andThen (require (\<not> keep \<or> declared \<le> MAX_METADATA_BYTES) ''metadata size limit: {}'' [name]) (\<lambda>_.
     andThen stream (\<lambda>content.
     andThen (read_loop declared name 0 [] content) (\<lambda>(seen, hashed).
     andThen (require (seen = declared) ''truncated archive member: {}'' [name]) (\<lambda>_.
     Inr \<lparr>m_kind = ''file'', m_mode = 0, m_size = declared, m_digest = sha256_bytes hashed,
       m_data = (if keep then Some hashed else None), m_link = None\<rparr>)))))"

definition keep_names :: "pystr list" where
  "keep_names = map U [''README.md'', ''DEPENDENCY-NOTICE.txt'', ''manifest.json'', ''SHA256SUMS'',
     ''repository/VERSION'', ''source-manifest.json'', ''evidence/binary-audit.json'',
     ''evidence/sianod-binary-audit.json'', ''evidence/sianoctl-binary-audit.json'']"

record reading =
  members :: "(pystr, member) dict"
  folded :: "pystr set"
  total :: nat

definition add_member ::
  "(pystr \<Rightarrow> pystr) \<Rightarrow> reading \<Rightarrow> pystr \<Rightarrow> nat \<Rightarrow> nat \<Rightarrow> bytes res \<Rightarrow> reading res" where
  "add_member cf s name mode declared stream =
     andThen (safe_name name) (\<lambda>_.
     andThen (require (name \<notin> keys (members s)) ''duplicate archive member: {}'' [name]) (\<lambda>_.
     andThen (require (cf name \<notin> folded s) ''case-colliding archive member: {}'' [name]) (\<lambda>_.
     andThen (require (length (members s) < MAX_MEMBERS) ''archive member count limit'' []) (\<lambda>_.
     andThen (require (mode \<le> 0x1FF) ''unsupported archive mode: {}'' [name]) (\<lambda>_.
     andThen (require (total s + declared \<le> MAX_TOTAL_BYTES) ''archive expanded size limit'' []) (\<lambda>_.
     andThen (read_member stream declared name
         (name \<in> set keep_names \<or> startswith name (U ''repository/docs/release-validation/''))) (\<lambda>item.
     Inr \<lparr>members = members s @ [(name, item\<lparr>m_mode := mode\<rparr>)], folded = insert (cf name) (folded s),
       total = total s + declared\<rparr>)))))))"

text \<open>
  A member of a container: the failure to open or read its content is part of the content, so
  both come after the checks of its name; either way the archive is refused.
\<close>

definition zip_step :: "(pystr \<Rightarrow> pystr) \<Rightarrow> reading \<Rightarrow> zip_info \<Rightarrow> reading res" where
  "zip_step cf s info =
     (let mode = unat (drop_bit 16 (zi_external_attr info)) in
      andThen (require (zi_create_system info = 3 \<and> S_ISREG mode \<and> \<not> zip_is_dir info \<and>
          zi_flag_bits info AND 1 = 0 \<and> zi_compress_type info \<in> {0, 8})
        ''unsupported ZIP member: {}'' [zi_filename info]) (\<lambda>_.
        add_member cf s (zi_filename info) (S_IMODE mode) (zi_file_size info) (zi_content info)))"

definition tar_step :: "(pystr \<Rightarrow> pystr) \<Rightarrow> reading \<Rightarrow> tar_info \<Rightarrow> reading res" where
  "tar_step cf s info =
     andThen (require (ti_isfile info \<and> \<not> ti_sparse info) ''unsupported TAR member: {}'' [ti_name info]) (\<lambda>_.
     case ti_content info of
       Inr None \<Rightarrow> Inl (VerificationError ''cannot read archive member: {}'' [ti_name info])
     | Inr (Some data) \<Rightarrow> add_member cf s (ti_name info) (ti_mode info) (ti_size info) (Inr data)
     | Inl e \<Rightarrow> add_member cf s (ti_name info) (ti_mode info) (ti_size info) (Inl e))"

definition empty_reading :: reading where
  "empty_reading = \<lparr>members = [], folded = {}, total = 0\<rparr>"

text \<open>The errors of the container library become verification errors; the others pass.\<close>

definition wrap_read :: "pystr \<Rightarrow> 'a res \<Rightarrow> 'a res" where
  "wrap_read name m = (case m of
       Inl (OSError _ _) \<Rightarrow> Inl (VerificationError ''cannot read archive {}'' [name])
     | _ \<Rightarrow> m)"

definition read_archive :: "verify_env \<Rightarrow> disk_file \<Rightarrow> (pystr, member) dict res" where
  "read_archive env path =
     andThen (require (f_is_file path \<and> \<not> f_is_symlink path) ''not a regular archive: {}'' [f_name path]) (\<lambda>_.
     andThen (require (length (f_data path) \<le> MAX_ARCHIVE_BYTES) ''archive size limit: {}'' [f_name path]) (\<lambda>_.
     wrap_read (f_name path)
       (if endswith (f_name path) (U ''.zip'') then
          (case zip_infolist (containers env) (f_data path) of
             None \<Rightarrow> Inl (OSError ''BadZipFile'' [])
           | Some infos \<Rightarrow>
               andThen (require (length infos \<le> MAX_MEMBERS) ''archive member count limit'' []) (\<lambda>_.
               andThen (foldE (zip_step (casefold env)) empty_reading infos) (\<lambda>s. Inr (members s))))
        else
          andThen (require (endswith (f_name path) (U ''.tar.gz'')) ''unsupported archive format: {}'' [f_name path]) (\<lambda>_.
          case tar_getmembers (containers env) (f_data path) of (infos, broken) \<Rightarrow>
            andThen (foldE (tar_step (casefold env)) empty_reading infos) (\<lambda>s.
              if broken then Inl (OSError ''TarError'' []) else Inr (members s))))))"

subsection \<open>Checksums\<close>

definition archive_asset :: "pystr \<Rightarrow> pystr \<Rightarrow> pystr" where
  "archive_asset version platform = U ''siano-ts-'' @ version @ U ''-'' @ platform @ U ''.'' @
     (if platform = U ''windows-x64'' then U ''zip'' else U ''tar.gz'')"

definition source_asset :: "pystr \<Rightarrow> pystr" where
  "source_asset version = U ''siano-ts-'' @ version @ U ''-source.tar.gz''"

definition expected_assets :: "pystr \<Rightarrow> pystr list res" where
  "expected_assets version =
     andThen (require (VERSION version) ''version must be strict X.Y.Z'' []) (\<lambda>_.
     Inr (map (archive_asset version) RELEASE_PLATFORMS @ [source_asset version]))"

text \<open>\<open>re.fullmatch(r"([0-9a-f]{64})  ([A-Za-z0-9_./-]+)", line)\<close>\<close>

definition asset_char :: "nat \<Rightarrow> bool" where
  "asset_char c \<longleftrightarrow> 65 \<le> c \<and> c \<le> 90 \<or> 97 \<le> c \<and> c \<le> 122 \<or> is_digit c \<or> c \<in> {95, 46, 47, 45}"

definition sums_entry :: "pystr \<Rightarrow> (pystr \<times> pystr) option" where
  "sums_entry line =
     (let digest = take 64 line; name = drop 66 line in
      if hex_id 64 digest \<and> take 2 (drop 64 line) = [32, 32] \<and> name \<noteq> [] \<and> list_all asset_char name
      then Some (digest, name) else None)"

fun sums_loop :: "pystr \<Rightarrow> (pystr, pystr) dict \<Rightarrow> pystr list \<Rightarrow> (pystr, pystr) dict res" where
  "sums_loop name result [] = Inr result"
| "sums_loop name result (line # lines) =
     (case sums_entry line of
        None \<Rightarrow> Inl (VerificationError ''invalid {} line'' [name])
      | Some (digest, filename) \<Rightarrow>
          if filename \<in> keys result then Inl (VerificationError ''duplicate {} entry: {}'' [name, filename])
          else sums_loop name (result @ [(filename, digest)]) lines)"

definition parse_sums :: "bytes \<Rightarrow> pystr set \<Rightarrow> pystr \<Rightarrow> (pystr, pystr) dict res" where
  "parse_sums data expected name =
     (case ascii_decode data of
        Inl _ \<Rightarrow> Inl (VerificationError ''{} is not ASCII'' [name])
      | Inr text \<Rightarrow>
          andThen (sums_loop name [] (splitlines text)) (\<lambda>result.
          andThen (require (keys result = expected) ''{} inventory mismatch'' [name]) (\<lambda>_. Inr result)))"

definition verify_inner_sums :: "(pystr, member) dict \<Rightarrow> pystr \<Rightarrow> unit res" where
  "verify_inner_sums ms archive_name =
     (case map_of ms (U ''SHA256SUMS'') of
        None \<Rightarrow> Inl (VerificationError ''missing inner SHA256SUMS: {}'' [archive_name])
      | Some sums_member \<Rightarrow> (case m_data sums_member of
          None \<Rightarrow> Inl (VerificationError ''missing inner SHA256SUMS: {}'' [archive_name])
        | Some data \<Rightarrow>
            andThen (parse_sums data (keys ms - {U ''SHA256SUMS''}) (U ''inner SHA256SUMS in '' @ archive_name)) (\<lambda>listed.
            forE (\<lambda>(name, digest).
                andThen (get_item ms name (KeyError name)) (\<lambda>m.
                  require (m_digest m = digest) ''inner checksum mismatch in {}: {}'' [archive_name, name])) listed)))"

text \<open>A bundle directory: whether it is one, and its entries.\<close>

record bundle_dir =
  b_name :: pystr
  b_is_dir :: bool
  b_files :: "disk_file list"

definition bundle_file :: "bundle_dir \<Rightarrow> pystr \<Rightarrow> disk_file res" where
  "bundle_file b name = (case filter (\<lambda>f. f_name f = name) (b_files b) of
       [] \<Rightarrow> Inl (OSError ''FileNotFoundError'' [name]) | f # _ \<Rightarrow> Inr f)"

definition verify_asset ::
  "verify_env \<Rightarrow> bundle_dir \<Rightarrow> (pystr, pystr) dict \<Rightarrow> pystr \<Rightarrow> (pystr \<times> (pystr, member) dict) res" where
  "verify_asset env directory checksums name =
     andThen (bundle_file directory name) (\<lambda>path.
     andThen (require (f_is_file path \<and> \<not> f_is_symlink path) ''missing regular archive: {}'' [name]) (\<lambda>_.
     andThen (file_sha256 path) (\<lambda>digest.
     andThen (get_item checksums name (KeyError name)) (\<lambda>listed.
     andThen (require (digest = listed) ''outer checksum mismatch: {}'' [name]) (\<lambda>_.
     andThen (read_archive env path) (\<lambda>ms.
     andThen (verify_inner_sums ms name) (\<lambda>_. Inr (name, ms))))))))"

definition verify_bundle ::
  "verify_env \<Rightarrow> bundle_dir \<Rightarrow> pystr \<Rightarrow> ((pystr, pystr) dict \<times> (pystr, (pystr, member) dict) dict) res" where
  "verify_bundle env directory version =
     andThen (require (b_is_dir directory) ''not a bundle directory: {}'' [b_name directory]) (\<lambda>_.
     andThen (expected_assets version) (\<lambda>expected.
     andThen (require (set (map f_name (b_files directory)) = insert (U ''SHA256SUMS'') (set expected))
       ''bundle inventory mismatch: {}'' [b_name directory]) (\<lambda>_.
     andThen (bundle_file directory (U ''SHA256SUMS'')) (\<lambda>sums_path.
     andThen (require (f_is_file sums_path \<and> \<not> f_is_symlink sums_path \<and>
         length (f_data sums_path) \<le> MAX_METADATA_BYTES) ''invalid outer SHA256SUMS: {}'' [b_name directory]) (\<lambda>_.
     andThen (parse_sums (f_data sums_path) (set expected) (U ''outer SHA256SUMS'')) (\<lambda>checksums.
     andThen (mapE (verify_asset env directory checksums) (sort expected)) (\<lambda>archives.
     Inr (checksums, archives))))))))"

subsection \<open>The git history\<close>

text \<open>\<open>bytes.strip\<close>\<close>

definition bytes_strip :: "bytes \<Rightarrow> bytes" where
  "bytes_strip b = (let ws = (\<lambda>c. c \<in> {9, 10, 11, 12, 13, 32}) in rev (dropWhile ws (rev (dropWhile ws b))))"

definition git_value :: "verify_env \<Rightarrow> pystr list \<Rightarrow> pystr res" where
  "git_value env args = (case git_run env args of
       None \<Rightarrow> Inl (VerificationError ''git identity check failed'' [])
     | Some (status, stdout) \<Rightarrow>
         if status \<noteq> 0 then Inl (VerificationError ''git identity check failed'' [])
         else andThen (ascii_decode stdout) (\<lambda>text. Inr (strip text)))"

definition rev_parse :: "verify_env \<Rightarrow> pystr \<Rightarrow> pystr res" where
  "rev_parse env name = git_value env [U ''rev-parse'', U ''--verify'', name]"

definition notes_path :: "pystr \<Rightarrow> pystr" where
  "notes_path version = U ''release-notes/v'' @ version @ U ''.md''"

definition record_path :: "pystr \<Rightarrow> pystr" where
  "record_path version = U ''docs/release-validation/'' @ version @ U ''.md''"

definition document_paths :: "pystr \<Rightarrow> pystr list" where
  "document_paths version = PX4_DOCUMENTS @ [notes_path version, U ''release-notes/v'' @ version @ U ''.json'', record_path version]"

definition document_exists :: "verify_env \<Rightarrow> pystr \<Rightarrow> pystr \<Rightarrow> bool res" where
  "document_exists env candidate_sha path =
     (case git_run env [U ''cat-file'', U ''-t'', candidate_sha @ U '':'' @ path] of
        None \<Rightarrow> Inl (VerificationError ''candidate document check failed'' [])
      | Some (status, stdout) \<Rightarrow> Inr (status = 0 \<and> bytes_strip stdout = B ''blob''))"

definition candidate_document_paths :: "verify_env \<Rightarrow> pystr \<Rightarrow> pystr \<Rightarrow> pystr set res" where
  "candidate_document_paths env version candidate_sha =
     andThen (mapE (document_exists env candidate_sha) (document_paths version)) (\<lambda>found.
     let existing = set (map fst (filter snd (zip (document_paths version) found))) in
     andThen (require (record_path version \<in> existing \<and> notes_path version \<in> existing)
       ''candidate must already contain the version record and release notes'' []) (\<lambda>_.
     Inr existing))"

record history =
  previous_commit :: pystr
  changed_record_at :: "nat option"
  changed_notes_at :: "nat option"

definition first_at :: "nat \<Rightarrow> bool \<Rightarrow> nat option \<Rightarrow> nat option" where
  "first_at index now at_index = (if now \<and> at_index = None then Some index else at_index)"

definition changed_paths :: "verify_env \<Rightarrow> pystr \<Rightarrow> pystr \<Rightarrow> pystr list res" where
  "changed_paths env previous commit =
     andThen (git_value env [U ''diff'', U ''--name-only'', U ''-z'', previous, commit]) (\<lambda>out.
     Inr (filter (\<lambda>p. p \<noteq> []) (split_on 0 out)))"

definition commit_step ::
  "verify_env \<Rightarrow> pystr \<Rightarrow> pystr set \<Rightarrow> history \<Rightarrow> nat \<times> pystr \<Rightarrow> history res" where
  "commit_step env version allowed s step = (case step of (index, commit) \<Rightarrow>
     andThen (git_value env [U ''show'', U ''-s'', U ''--format=%P'', commit]) (\<lambda>parents.
     andThen (require (words parents = [previous_commit s])
       ''candidate-to-tag document commits must be a linear chain'' []) (\<lambda>_.
     andThen (changed_paths env (previous_commit s) commit) (\<lambda>changed.
     andThen (require (changed \<noteq> [] \<and> set changed \<subseteq> allowed)
       ''candidate-to-tag commits may change only approved existing documents'' []) (\<lambda>_.
     Inr \<lparr>previous_commit = commit,
       changed_record_at = first_at index (record_path version \<in> set changed) (changed_record_at s),
       changed_notes_at = first_at index (notes_path version \<in> set changed) (changed_notes_at s)\<rparr>)))))"

definition verify_git_identity ::
  "verify_env \<Rightarrow> pystr \<Rightarrow> pystr \<Rightarrow> pystr \<Rightarrow> (pystr \<times> pystr) res" where
  "verify_git_identity env version candidate_sha tag_sha =
     andThen (require (hex_id 40 candidate_sha \<and> hex_id 40 tag_sha)
       ''source SHAs must be canonical 40-character object IDs'' []) (\<lambda>_.
     andThen (rev_parse env (candidate_sha @ U ''^{commit}'')) (\<lambda>c.
     andThen (require (c = candidate_sha) ''candidate commit is not present in source checkout'' []) (\<lambda>_.
     andThen (rev_parse env (tag_sha @ U ''^{commit}'')) (\<lambda>t.
     andThen (require (t = tag_sha) ''tag commit is not present in source checkout'' []) (\<lambda>_.
     andThen (rev_parse env (U ''HEAD^{commit}'')) (\<lambda>h.
     andThen (require (h = tag_sha) ''source checkout is not at the release tag commit'' []) (\<lambda>_.
     andThen (require (case git_run env [U ''merge-base'', U ''--is-ancestor'', candidate_sha, tag_sha] of
         None \<Rightarrow> False | Some (status, _) \<Rightarrow> status = 0)
       ''candidate commit is not an ancestor of tag commit'' []) (\<lambda>_.
     andThen (rev_parse env (candidate_sha @ U ''^{tree}'')) (\<lambda>candidate_tree.
     andThen (rev_parse env (tag_sha @ U ''^{tree}'')) (\<lambda>tag_tree.
     andThen (candidate_document_paths env version candidate_sha) (\<lambda>allowed.
     andThen (git_value env [U ''rev-list'', U ''--first-parent'', U ''--reverse'',
         candidate_sha @ U ''..'' @ tag_sha]) (\<lambda>out.
     let commits = splitlines out in
     andThen (require (commits \<noteq> []) ''tag commit must follow the candidate commit'' []) (\<lambda>_.
     andThen (foldE (commit_step env version allowed)
         \<lparr>previous_commit = candidate_sha, changed_record_at = None, changed_notes_at = None\<rparr>
         (enumerate 0 commits)) (\<lambda>s.
     andThen (require (previous_commit s = tag_sha \<and>
         (case (changed_record_at s, changed_notes_at s) of (Some r, Some n) \<Rightarrow> r < n | _ \<Rightarrow> False))
       ''tag history must update the version result before release notes'' []) (\<lambda>_.
     Inr (candidate_tree, tag_tree))))))))))))))))"

end
