(* ===== verification/ReleaseCompare.thy ===== *)
theory ReleaseCompare
  imports ReleaseVerify
begin

section \<open>Comparison of a candidate with its tag rebuild\<close>

text \<open>
  The second half of \<open>release_verify.py\<close>: dependency notices, manifests and evidence of an
  archive, the comparison of two archives member by member, and \<open>verify_release\<close>, which puts
  the checks together.
\<close>

subsection \<open>Notices and JSON identity fields\<close>

fun notice_line_loop ::
  "pystr \<Rightarrow> pystr list \<Rightarrow> pystr list \<Rightarrow> (pystr option \<times> pystr) list res" where
  "notice_line_loop name seen [] = Inr []"
| "notice_line_loop name seen (line # lines) =
     (if 61 \<in> set line \<and> notice_key (fst (split1 61 line)) then
        (let (key, value) = split1 61 line in
         andThen (require (key \<notin> set seen) ''duplicate notice field in {}: {}'' [name, key]) (\<lambda>_.
         andThen (notice_line_loop name (key # seen) lines) (\<lambda>result. Inr ((Some key, value) # result))))
      else andThen (notice_line_loop name seen lines) (\<lambda>result. Inr ((None, line) # result)))"

definition notice_lines :: "bytes \<Rightarrow> pystr \<Rightarrow> (pystr option \<times> pystr) list res" where
  "notice_lines data name = (case utf8_decode data of
       Inl _ \<Rightarrow> Inl (VerificationError ''notice is not UTF-8: {}'' [name])
     | Inr text \<Rightarrow> notice_line_loop name [] (splitlines text))"

definition compare_line ::
  "(pystr, pystr) dict \<Rightarrow> pystr \<Rightarrow> pystr set \<Rightarrow> (pystr option \<times> pystr) \<times> (pystr option \<times> pystr) \<Rightarrow> pystr set res" where
  "compare_line fs name changed pair = (case pair of (left, right) \<Rightarrow>
     if left = right then Inr changed
     else
     (case (fst left, fst right) of
        (Some l, Some r) \<Rightarrow>
          andThen (require (l = r) ''notice content changed outside identity fields: {}'' [name]) (\<lambda>_.
          andThen (require (map_of fs l = Some (snd right)) ''unexpected notice identity change: {}:{}'' [name, l]) (\<lambda>_.
          Inr (insert l changed)))
      | _ \<Rightarrow> Inl (VerificationError ''notice content changed outside identity fields: {}'' [name])))"

definition compare_notice :: "bytes \<Rightarrow> bytes \<Rightarrow> (pystr, pystr) dict \<Rightarrow> pystr \<Rightarrow> unit res" where
  "compare_notice before after fs name =
     andThen (notice_lines before name) (\<lambda>old.
     andThen (notice_lines after name) (\<lambda>new.
     andThen (require (length old = length new) ''notice line count changed: {}'' [name]) (\<lambda>_.
     andThen (foldE (compare_line fs name) {} (zip old new)) (\<lambda>changed.
     require (changed = keys fs) ''notice identity fields did not all change: {}'' [name]))))"

definition compare_json_identity :: "bytes \<Rightarrow> bytes \<Rightarrow> pystr \<Rightarrow> pystr \<Rightarrow> pystr \<Rightarrow> unit res" where
  "compare_json_identity before after name field expected =
     andThen (verify_json before name) (\<lambda>old.
     andThen (verify_json after name) (\<lambda>new.
     andThen (matching_json_style before after name) (\<lambda>_.
     andThen (require (canonical_json_file before old \<and> canonical_json_file after new)
       ''noncanonical JSON encoding: {}'' [name]) (\<lambda>_.
     andThen (require (\<not> py_eq (jget old field) (jget new field) \<and> py_eq (jget new field) (JStr expected))
       ''invalid identity field change: {}:{}'' [name, field]) (\<lambda>_.
     require (py_eq (JObj (dict_set old field (jget new field))) (JObj new))
       ''JSON field changed outside identity: {}'' [name])))))"

subsection \<open>Manifests\<close>

definition member_data :: "(pystr, member) dict \<Rightarrow> pystr \<Rightarrow> bytes option" where
  "member_data ms name = (case map_of ms name of None \<Rightarrow> None | Some m \<Rightarrow> m_data m)"

definition member_record_ok :: "member \<Rightarrow> json \<Rightarrow> bool" where
  "member_record_ok m rec \<longleftrightarrow> is_obj rec \<and> keys (obj_items rec) = {U ''size'', U ''sha256''} \<and>
     jget (obj_items rec) (U ''size'') = JInt (int (m_size m)) \<and>
     py_eq (jget (obj_items rec) (U ''sha256'')) (JStr (m_digest m))"

definition check_inventory ::
  "(pystr, member) dict \<Rightarrow> json \<Rightarrow> pystr \<Rightarrow> string \<Rightarrow> string \<Rightarrow> pystr \<Rightarrow> unit res" where
  "check_inventory ms files manifest_name inventory_msg record_msg archive_name =
     andThen (require (is_obj files \<and> keys (obj_items files) = keys ms - {manifest_name, U ''SHA256SUMS''})
       inventory_msg [archive_name]) (\<lambda>_.
     forE (\<lambda>(name, rec). andThen (get_item ms name (KeyError name)) (\<lambda>m.
         require (member_record_ok m rec) record_msg [archive_name, name])) (obj_items files))"

text \<open>\<open>re.match(r"siano-ts-(\d+\.\d+\.\d+)-", archive_name)\<close>\<close>

definition archive_version :: "pystr \<Rightarrow> pystr option" where
  "archive_version archive_name = map_option (group 1) (re_match
     (Seq (lit ''siano-ts-'') (Seq (Group 1 (Seq (plus digit) (Seq (lit ''.'') (Seq (plus digit)
       (Seq (lit ''.'') (plus digit)))))) (lit ''-''))) archive_name)"

definition archive_platform :: "pystr \<Rightarrow> pystr option" where
  "archive_platform archive_name =
     (case filter (\<lambda>p. contains archive_name ([45] @ p @ [46])) RELEASE_PLATFORMS of [] \<Rightarrow> None | p # _ \<Rightarrow> Some p)"

definition release_programs :: "pystr \<Rightarrow> pystr list" where
  "release_programs platform = map U (if platform = U ''windows-x64''
     then [''sianod.exe'', ''sianoctl.exe'', ''siano-ts.exe''] else [''sianod'', ''sianoctl'', ''siano-ts''])"

text \<open>
  The evidence files are paired with the programs in the order of the two tuples:
  \<open>zip(EVIDENCE, manifest["programs"])\<close>.
\<close>

definition check_evidence ::
  "(pystr, member) dict \<Rightarrow> pystr \<Rightarrow> pystr \<Rightarrow> pystr \<times> pystr \<Rightarrow> unit res" where
  "check_evidence ms platform source_sha pair = (case pair of (name, program) \<Rightarrow>
     (case member_data ms name of
        None \<Rightarrow> Inl (VerificationError ''binary evidence exceeds metadata limit: {}'' [name])
      | Some data \<Rightarrow>
          andThen (verify_json data name) (\<lambda>evidence.
          andThen (require (canonical_json_file data evidence) ''noncanonical binary evidence: {}'' [name]) (\<lambda>_.
          let binary = jget evidence (U ''binary'') in
          andThen (require (keys evidence = {U ''schema'', U ''platform'', U ''source_ref'', U ''binary''} \<and>
              py_eq (jget evidence (U ''schema'')) (JInt 2) \<and>
              py_eq (jget evidence (U ''platform'')) (JStr platform) \<and>
              py_eq (jget evidence (U ''source_ref'')) (JStr source_sha) \<and>
              is_obj binary \<and> keys (obj_items binary) = {U ''name'', U ''sha256''} \<and>
              py_eq (jget (obj_items binary) (U ''name'')) (JStr program))
            ''binary evidence mismatch: {}'' [name]) (\<lambda>_.
          andThen (get_item ms program (KeyError program)) (\<lambda>m.
          require (py_eq (jget (obj_items binary) (U ''sha256'')) (JStr (m_digest m)))
            ''binary evidence mismatch: {}'' [name]))))))"

definition parse_binary_manifest ::
  "(pystr, member) dict \<Rightarrow> pystr \<Rightarrow> pystr \<Rightarrow> (pystr, json) dict res" where
  "parse_binary_manifest ms archive_name source_sha =
     (case member_data ms (U ''manifest.json'') of
        None \<Rightarrow> Inl (VerificationError ''missing manifest.json: {}'' [archive_name])
      | Some data \<Rightarrow>
          andThen (verify_json data (U ''manifest.json'')) (\<lambda>manifest.
          andThen (require (canonical_json_file data manifest) ''noncanonical manifest.json: {}'' [archive_name]) (\<lambda>_.
          case archive_platform archive_name of
            None \<Rightarrow> Inl (VerificationError ''unknown binary archive: {}'' [archive_name])
          | Some platform \<Rightarrow>
              andThen (require (case archive_version archive_name of None \<Rightarrow> False | Some version \<Rightarrow>
                  py_eq (jget manifest (U ''schema'')) (JInt 1) \<and>
                  py_eq (jget manifest (U ''version'')) (JStr version) \<and>
                  py_eq (jget manifest (U ''platform'')) (JStr platform) \<and>
                  py_eq (jget manifest (U ''source_ref'')) (JStr source_sha))
                ''binary manifest identity mismatch: {}'' [archive_name]) (\<lambda>_.
              andThen (require (py_eq (jget manifest (U ''programs'')) (JArr (map JStr (release_programs platform))))
                ''binary program inventory mismatch: {}'' [archive_name]) (\<lambda>_.
              andThen (check_inventory ms (jget manifest (U ''files'')) (U ''manifest.json'')
                ''manifest file inventory mismatch: {}'' ''manifest record mismatch: {}:{}'' archive_name) (\<lambda>_.
              andThen (require (set EVIDENCE \<subseteq> keys ms) ''binary evidence missing: {}'' [archive_name]) (\<lambda>_.
              andThen (forE (check_evidence ms platform source_sha) (zip EVIDENCE (release_programs platform))) (\<lambda>_.
              Inr manifest))))))))"

definition parse_source_manifest ::
  "(pystr, member) dict \<Rightarrow> pystr \<Rightarrow> pystr \<Rightarrow> pystr \<Rightarrow> pystr \<Rightarrow> (pystr, json) dict res" where
  "parse_source_manifest ms archive_name version commit tree =
     (case member_data ms (U ''source-manifest.json'') of
        None \<Rightarrow> Inl (VerificationError ''missing source-manifest.json: {}'' [archive_name])
      | Some data \<Rightarrow>
          andThen (verify_json data (U ''source-manifest.json'')) (\<lambda>manifest.
          andThen (require (canonical_json_file data manifest) ''noncanonical source-manifest.json'' []) (\<lambda>_.
          andThen (require (py_eq (jget manifest (U ''version'')) (JStr version) \<and>
              py_eq (jget manifest (U ''source_ref'')) (JStr commit) \<and>
              py_eq (jget manifest (U ''resolved_commit'')) (JStr commit) \<and>
              py_eq (jget manifest (U ''tree'')) (JStr tree))
            ''source manifest identity mismatch: {}'' [archive_name]) (\<lambda>_.
          andThen (check_inventory ms (jget manifest (U ''files'')) (U ''source-manifest.json'')
            ''source manifest inventory mismatch: {}'' ''source manifest record mismatch: {}'' archive_name) (\<lambda>_.
          andThen (require (member_data ms (U ''repository/VERSION'') = Some (ascii_encode (version @ [10])))
            ''source archive VERSION mismatch'' []) (\<lambda>_.
          Inr manifest))))))"

subsection \<open>Two archives\<close>

definition compare_member ::
  "(pystr, member) dict \<Rightarrow> pystr set \<Rightarrow> pystr \<Rightarrow> pystr \<times> member \<Rightarrow> unit res" where
  "compare_member after allowed archive_name entry = (case entry of (name, left) \<Rightarrow>
     andThen (get_item after name (KeyError name)) (\<lambda>right.
     andThen (require ((m_kind left, m_mode left, m_link left) = (m_kind right, m_mode right, m_link right))
       ''archive member type/mode/link changed: {}:{}'' [archive_name, name]) (\<lambda>_.
     if name \<notin> allowed
     then require ((m_size left, m_digest left) = (m_size right, m_digest right))
       ''archive payload changed: {}:{}'' [archive_name, name]
     else Inr ())))"

definition compare_member_sets ::
  "(pystr, member) dict \<Rightarrow> (pystr, member) dict \<Rightarrow> pystr set \<Rightarrow> pystr \<Rightarrow> unit res" where
  "compare_member_sets before after allowed archive_name =
     andThen (require (keys before = keys after) ''archive member inventory changed: {}'' [archive_name]) (\<lambda>_.
     forE (compare_member after allowed archive_name) before)"

definition changed_members :: "(pystr, member) dict \<Rightarrow> (pystr, member) dict \<Rightarrow> pystr list" where
  "changed_members before after =
     filter (\<lambda>name. map_option m_digest (map_of before name) \<noteq> map_option m_digest (map_of after name)) (map fst before)"

definition notice_dict :: "(pystr option \<times> pystr) list \<Rightarrow> (pystr, pystr) dict" where
  "notice_dict ls = concat (map (\<lambda>(k, v). case k of None \<Rightarrow> [] | Some key \<Rightarrow> [(key, v)]) ls)"

definition obj_item :: "json \<Rightarrow> pystr \<Rightarrow> json res" where
  "obj_item v k = (case v of JObj d \<Rightarrow> get_item d k (KeyError k) | _ \<Rightarrow> Inl TypeError)"

text \<open>
  \<open>expected["files"][name] = new["files"][name]\<close> for each of the names, on the dictionary of the
  files.
\<close>

definition copy_record :: "json \<Rightarrow> json \<Rightarrow> pystr \<Rightarrow> json res" where
  "copy_record new_files files name =
     andThen (obj_item new_files name) (\<lambda>rec.
     case files of JObj d \<Rightarrow> Inr (JObj (dict_set d name rec)) | _ \<Rightarrow> Inl TypeError)"

definition same_size :: "json \<Rightarrow> json \<Rightarrow> pystr \<Rightarrow> string \<Rightarrow> pystr list \<Rightarrow> unit res" where
  "same_size old_files new_files name msg args =
     andThen (obj_item old_files name) (\<lambda>r. andThen (obj_item r (U ''size'')) (\<lambda>old_size.
     andThen (obj_item new_files name) (\<lambda>r. andThen (obj_item r (U ''size'')) (\<lambda>new_size.
     require (py_eq old_size new_size) msg args))))"

text \<open>\<open>members[name].data or b""\<close>\<close>

definition member_bytes :: "(pystr, member) dict \<Rightarrow> pystr \<Rightarrow> bytes" where
  "member_bytes ms name = (case member_data ms name of None \<Rightarrow> [] | Some d \<Rightarrow> d)"

definition notice_name :: pystr where
  "notice_name = U ''DEPENDENCY-NOTICE.txt''"

definition compare_notices ::
  "bytes \<Rightarrow> bytes \<Rightarrow> (pystr, pystr) dict \<Rightarrow> (pystr, pystr) dict \<Rightarrow> pystr \<Rightarrow> string \<Rightarrow> unit res" where
  "compare_notices before after old_fields new_fields archive_name msg =
     andThen (notice_lines before archive_name) (\<lambda>old.
     andThen (notice_lines after archive_name) (\<lambda>new.
     andThen (require (list_all (\<lambda>(k, v). map_of (notice_dict old) k = Some v) old_fields \<and>
         list_all (\<lambda>(k, v). map_of (notice_dict new) k = Some v) new_fields) msg [archive_name]) (\<lambda>_.
     compare_notice before after new_fields (archive_name @ U '':DEPENDENCY-NOTICE.txt''))))"

definition binary_allowed :: "pystr set" where
  "binary_allowed = {U ''manifest.json'', U ''DEPENDENCY-NOTICE.txt'', U ''SHA256SUMS''} \<union> set EVIDENCE"

definition verify_binary_pair ::
  "(pystr, member) dict \<Rightarrow> (pystr, member) dict \<Rightarrow> pystr \<Rightarrow> pystr \<Rightarrow> pystr \<Rightarrow> unit res" where
  "verify_binary_pair before after archive_name candidate_sha tag_sha =
     andThen (compare_member_sets before after binary_allowed archive_name) (\<lambda>_.
     andThen (parse_binary_manifest before archive_name candidate_sha) (\<lambda>old_manifest.
     andThen (parse_binary_manifest after archive_name tag_sha) (\<lambda>new_manifest.
     let old_files = jget old_manifest (U ''files''); new_files = jget new_manifest (U ''files'') in
     andThen (matching_json_style (member_bytes before (U ''manifest.json'')) (member_bytes after (U ''manifest.json''))
       (archive_name @ U '':manifest.json'')) (\<lambda>_.
     andThen (foldE (\<lambda>files name.
         andThen (same_size old_files new_files name ''binary identity member size changed: {}:{}'' [archive_name, name])
           (\<lambda>_. copy_record new_files files name))
       old_files (notice_name # EVIDENCE)) (\<lambda>files.
     andThen (require (py_eq (JObj (dict_set (dict_set old_manifest (U ''source_ref'') (JStr tag_sha)) (U ''files'') files))
         (JObj new_manifest)) ''binary manifest changed outside approved identity: {}'' [archive_name]) (\<lambda>_.
     andThen (require (member_data before notice_name \<noteq> None \<and> member_data after notice_name \<noteq> None)
       ''missing dependency notice: {}'' [archive_name]) (\<lambda>_.
     andThen (compare_notices (member_bytes before notice_name) (member_bytes after notice_name) [(U ''source.ref'', candidate_sha)]
       [(U ''source.ref'', tag_sha)] archive_name ''binary dependency notice identity mismatch: {}'') (\<lambda>_.
     andThen (forE (\<lambda>name. compare_json_identity (member_bytes before name) (member_bytes after name)
         (archive_name @ U '':'' @ name) (U ''source_ref'') tag_sha) EVIDENCE) (\<lambda>_.
     require (set (changed_members before after) \<subseteq> binary_allowed)
       ''binary changed outside allowlist: {}'' [archive_name])))))))))"

definition source_notes :: "pystr \<Rightarrow> pystr" where
  "source_notes tag = U ''repository/release-notes/'' @ tag @ U ''.md''"

definition source_record :: "pystr \<Rightarrow> pystr" where
  "source_record version = U ''repository/docs/release-validation/'' @ version @ U ''.md''"

definition source_document_members ::
  "(pystr, member) dict \<Rightarrow> pystr \<Rightarrow> pystr \<Rightarrow> pystr list res" where
  "source_document_members ms version tag =
     andThen (require (source_record version \<in> keys ms \<and> source_notes tag \<in> keys ms)
       ''candidate source archive must contain the version record and release notes'' []) (\<lambda>_.
     Inr (filter (\<lambda>p. p \<in> keys ms) (U ''README.md'' # map (\<lambda>p. U ''repository/'' @ p) PX4_DOCUMENTS @
       [source_notes tag, U ''repository/release-notes/'' @ tag @ U ''.json'', source_record version])))"

definition source_identity_fields :: "pystr \<Rightarrow> pystr \<Rightarrow> (pystr, pystr) dict" where
  "source_identity_fields sha tree = [(U ''source.ref'', sha), (U ''source.resolved_commit'', sha), (U ''source.tree'', tree)]"

definition source_allowed :: "pystr list \<Rightarrow> pystr set" where
  "source_allowed documents = {U ''source-manifest.json'', notice_name, U ''SHA256SUMS''} \<union> set documents"

definition verify_source_pair ::
  "(pystr, member) dict \<Rightarrow> (pystr, member) dict \<Rightarrow> pystr \<Rightarrow> pystr \<Rightarrow> pystr \<Rightarrow> pystr \<Rightarrow> pystr \<Rightarrow> pystr \<Rightarrow> pystr
     \<Rightarrow> unit res" where
  "verify_source_pair before after archive_name version candidate_sha tag_sha candidate_tree tag_tree tag =
     andThen (source_document_members before version tag) (\<lambda>documents.
     andThen (require (source_record version \<in> keys after)
       ''version result document is missing from tag source inventory'' []) (\<lambda>_.
     andThen (compare_member_sets before after (source_allowed documents) archive_name) (\<lambda>_.
     andThen (parse_source_manifest before archive_name version candidate_sha candidate_tree) (\<lambda>old.
     andThen (parse_source_manifest after archive_name version tag_sha tag_tree) (\<lambda>new.
     let old_files = jget old (U ''files''); new_files = jget new (U ''files'') in
     andThen (matching_json_style (member_bytes before (U ''source-manifest.json''))
       (member_bytes after (U ''source-manifest.json'')) (U ''source-manifest.json'')) (\<lambda>_.
     andThen (same_size old_files new_files notice_name ''source notice identity member size changed'' []) (\<lambda>_.
     andThen (foldE (copy_record new_files) old_files (notice_name # documents)) (\<lambda>files.
     andThen (require (py_eq (JObj (dict_set (dict_set (dict_set (dict_set old (U ''source_ref'') (JStr tag_sha))
           (U ''resolved_commit'') (JStr tag_sha)) (U ''tree'') (JStr tag_tree)) (U ''files'') files)) (JObj new))
       ''source manifest changed outside approved identity/document'' []) (\<lambda>_.
     andThen (require (member_data before notice_name \<noteq> None \<and> member_data after notice_name \<noteq> None)
       ''source dependency notice is missing'' []) (\<lambda>_.
     andThen (compare_notices (member_bytes before notice_name) (member_bytes after notice_name)
       (source_identity_fields candidate_sha candidate_tree) (source_identity_fields tag_sha tag_tree)
       archive_name ''source dependency notice identity mismatch'') (\<lambda>_.
     require (set (changed_members before after) \<subseteq> source_allowed documents)
       ''source archive changed outside allowlist'' [])))))))))))"

subsection \<open>The release\<close>

text \<open>Comparing two files chunk by chunk, until both end.\<close>

function same_chunks :: "bytes \<Rightarrow> bytes \<Rightarrow> bool" where
  "same_chunks left right =
     (let a = take CHUNK_BYTES left; b = take CHUNK_BYTES right in
      if a \<noteq> b then False
      else if a = [] then True
      else same_chunks (drop CHUNK_BYTES left) (drop CHUNK_BYTES right))"
  by auto

termination same_chunks
  by (relation "measure (\<lambda>(_, right). length right)") (auto simp: CHUNK_BYTES_def)

declare same_chunks.simps [simp del]

definition compare_reproduction :: "bundle_dir \<Rightarrow> bundle_dir \<Rightarrow> pystr \<Rightarrow> unit res" where
  "compare_reproduction candidate_dir reproduction_dir name =
     andThen (bundle_file candidate_dir name) (\<lambda>left.
     andThen (bundle_file reproduction_dir name) (\<lambda>right.
     require (same_chunks (f_data left) (f_data right)) ''independent candidate archive differs: {}'' [name]))"

definition verify_pair ::
  "(pystr, (pystr, member) dict) dict \<Rightarrow> (pystr, (pystr, member) dict) dict \<Rightarrow> pystr \<Rightarrow> pystr \<Rightarrow> pystr \<Rightarrow> pystr
     \<Rightarrow> pystr \<Rightarrow> pystr \<Rightarrow> unit res" where
  "verify_pair candidate tagged version candidate_sha tag_sha candidate_tree tag_tree name =
     andThen (get_item candidate name (KeyError name)) (\<lambda>before.
     andThen (get_item tagged name (KeyError name)) (\<lambda>after.
     if name = source_asset version
     then verify_source_pair before after name version candidate_sha tag_sha candidate_tree tag_tree (U ''v'' @ version)
     else verify_binary_pair before after name candidate_sha tag_sha))"

record release_report =
  rr_tag :: pystr
  rr_candidate_sha :: pystr
  rr_tag_sha :: pystr
  rr_candidate_tree :: pystr
  rr_tag_tree :: pystr
  rr_candidate_sums :: pystr
  rr_tag_sums :: pystr
  rr_assets :: "pystr list"

definition verify_release ::
  "verify_env \<Rightarrow> bundle_dir \<Rightarrow> bundle_dir \<Rightarrow> bundle_dir \<Rightarrow> pystr \<Rightarrow> pystr \<Rightarrow> pystr \<Rightarrow> release_report res" where
  "verify_release env candidate_dir reproduction_dir tag_dir tag candidate_sha tag_sha =
     andThen (require (startswith tag (U ''v'') \<and> VERSION (drop 1 tag)) ''tag must be strict vX.Y.Z'' []) (\<lambda>_.
     let version = drop 1 tag in
     andThen (verify_git_identity env version candidate_sha tag_sha) (\<lambda>(candidate_tree, tag_tree).
     andThen (verify_bundle env candidate_dir version) (\<lambda>(_, candidate).
     andThen (verify_bundle env reproduction_dir version) (\<lambda>(_, reproduction).
     andThen (verify_bundle env tag_dir version) (\<lambda>(_, tagged).
     andThen (bundle_file candidate_dir (U ''SHA256SUMS'')) (\<lambda>candidate_sums.
     andThen (bundle_file reproduction_dir (U ''SHA256SUMS'')) (\<lambda>reproduction_sums.
     andThen (require (f_data candidate_sums = f_data reproduction_sums)
       ''independent candidate outer SHA256SUMS differ byte-for-byte'' []) (\<lambda>_.
     andThen (expected_assets version) (\<lambda>assets.
     andThen (forE (compare_reproduction candidate_dir reproduction_dir) assets) (\<lambda>_.
     andThen (forE (verify_pair candidate tagged version candidate_sha tag_sha candidate_tree tag_tree) assets) (\<lambda>_.
     andThen (bundle_file tag_dir (U ''SHA256SUMS'')) (\<lambda>tag_sums.
     Inr \<lparr>rr_tag = tag, rr_candidate_sha = candidate_sha, rr_tag_sha = tag_sha,
       rr_candidate_tree = candidate_tree, rr_tag_tree = tag_tree,
       rr_candidate_sums = sha256_bytes (f_data candidate_sums), rr_tag_sums = sha256_bytes (f_data tag_sums),
       rr_assets = assets\<rparr>))))))))))))"

text \<open>
  \<open>main\<close>: a verification error is printed and gives status 1, a report gives status 0, and any
  other exception leaves the program.
\<close>

definition release_main ::
  "verify_env \<Rightarrow> bundle_dir \<Rightarrow> bundle_dir \<Rightarrow> bundle_dir \<Rightarrow> pystr \<Rightarrow> pystr \<Rightarrow> pystr \<Rightarrow> nat res" where
  "release_main env candidate_dir reproduction_dir tag_dir tag candidate_sha tag_sha =
     (case verify_release env candidate_dir reproduction_dir tag_dir tag candidate_sha tag_sha of
        Inl (VerificationError _ _) \<Rightarrow> Inr 1
      | Inl error \<Rightarrow> Inl error
      | Inr result \<Rightarrow> Inr 0)"

end
