(* ===== verification/ReleaseFacts.thy ===== *)
theory ReleaseFacts
  imports ReleaseCompare SourceFacts
begin

section \<open>What a verified release guarantees\<close>

text \<open>
  Chunked reading and comparison against the whole content, the invariant of reading an
  archive, checksums, notices and manifests, the git history, and what \<open>verify_release\<close>
  returning means for the three bundles.
\<close>

subsection \<open>Chunks\<close>

lemma CHUNK_pos: "CHUNK_BYTES > 0"
  by (simp add: CHUNK_BYTES_def)

lemma same_chunks_iff: "same_chunks a b \<longleftrightarrow> a = b"
proof (induction a b rule: same_chunks.induct)
  case (1 l r)
  have "l = r \<longleftrightarrow> take CHUNK_BYTES l = take CHUNK_BYTES r \<and> drop CHUNK_BYTES l = drop CHUNK_BYTES r"
    by (metis append_take_drop_id)
  then show ?case
    using 1 CHUNK_pos by (subst same_chunks.simps) (auto simp: Let_def)
qed

lemma read_loop_iff:
  assumes "seen \<le> declared"
  shows "read_loop declared name seen hashed stream = Inr (n, h) \<longleftrightarrow>
    seen + length stream \<le> declared \<and> n = seen + length stream \<and> h = hashed @ stream"
  using assms
proof (induction declared name seen hashed stream rule: read_loop.induct)
  case (1 declared name seen hashed stream)
  let ?k = "min CHUNK_BYTES (declared - seen + 1)"
  have k: "?k > 0" using CHUNK_pos by simp
  show ?case
  proof (cases "take ?k stream = []")
    case True
    then have "stream = []" using k by auto
    then show ?thesis using 1(2) by (subst read_loop.simps) auto
  next
    case False
    have IH: "read_loop declared name (seen + length (take ?k stream)) (hashed @ take ?k stream) (drop ?k stream) = Inr (n, h) \<longleftrightarrow>
        seen + length stream \<le> declared \<and> n = seen + length stream \<and> h = hashed @ stream"
      if "seen + length (take ?k stream) \<le> declared"
    proof -
      have "length (take ?k stream) + length (drop ?k stream) = length stream"
        by (metis append_take_drop_id length_append)
      then show ?thesis using 1(1) [OF refl False _ that, of "()"] that by (simp add: require_eq add.assoc)
    qed
    have "length (take ?k stream) \<le> length stream" by simp
    then show ?thesis
      using IH False by (subst read_loop.simps) (auto simp: Let_def require_def)
  qed
qed

lemma read_member_iff:
  "read_member (Inr content) declared name keep = Inr m \<longleftrightarrow>
     declared = length content \<and> length content \<le> MAX_MEMBER_BYTES \<and>
     (keep \<longrightarrow> length content \<le> MAX_METADATA_BYTES) \<and>
     m = \<lparr>m_kind = ''file'', m_mode = 0, m_size = length content, m_digest = sha256_bytes content,
       m_data = (if keep then Some content else None), m_link = None\<rparr>"
proof -
  have "read_loop declared name 0 [] content = Inr (n, h) \<longleftrightarrow> length content \<le> declared \<and> n = length content \<and> h = content"
    for n h using read_loop_iff [of 0 declared name "[]" content n h] by simp
  then show ?thesis
    unfolding read_member_def andThen_eq_Inr require_eq by (auto simp: andThen_eq_Inr require_eq)
qed

lemma read_member_Inr:
  "read_member stream declared name keep = Inr m \<Longrightarrow> \<exists>content. stream = Inr content"
  unfolding read_member_def andThen_eq_Inr by auto

subsection \<open>Reading an archive\<close>

text \<open>
  The invariant of the reader: names are safe and distinct, also after case folding, sizes and
  counts stay within the limits, and size and digest of a member are those of a content that
  the container holds under its name.
\<close>

definition member_ok :: "(pystr \<times> bytes) set \<Rightarrow> pystr \<times> member \<Rightarrow> bool" where
  "member_ok contents entry \<longleftrightarrow> safe_name (fst entry) = Inr () \<and> m_mode (snd entry) \<le> 0x1FF \<and>
     m_size (snd entry) \<le> MAX_MEMBER_BYTES \<and> (\<exists>content. (fst entry, content) \<in> contents \<and>
       m_size (snd entry) = length content \<and> m_digest (snd entry) = sha256_bytes content \<and>
       m_data (snd entry) \<in> {None, Some content})"

definition archive_ok :: "(pystr \<Rightarrow> pystr) \<Rightarrow> (pystr \<times> bytes) set \<Rightarrow> (pystr, member) dict \<Rightarrow> bool" where
  "archive_ok cf contents ms \<longleftrightarrow> distinct (map fst ms) \<and> inj_on cf (keys ms) \<and> length ms \<le> MAX_MEMBERS \<and>
     sum_list (map (m_size \<circ> snd) ms) \<le> MAX_TOTAL_BYTES \<and> list_all (member_ok contents) ms"

definition reading_ok :: "(pystr \<Rightarrow> pystr) \<Rightarrow> (pystr \<times> bytes) set \<Rightarrow> reading \<Rightarrow> bool" where
  "reading_ok cf contents s \<longleftrightarrow> archive_ok cf contents (members s) \<and> folded s = cf ` keys (members s) \<and>
     total s = sum_list (map (m_size \<circ> snd) (members s))"

lemma add_member_ok:
  assumes ok: "reading_ok cf contents s" and c: "\<And>content. stream = Inr content \<Longrightarrow> (name, content) \<in> contents"
    and add: "add_member cf s name mode declared stream = Inr s'"
  shows "reading_ok cf contents s'"
proof -
  from add obtain item keep where safe: "safe_name name = Inr ()" and new: "name \<notin> keys (members s)"
    and fresh: "cf name \<notin> folded s" and count: "length (members s) < MAX_MEMBERS" and mode: "mode \<le> 0x1FF"
    and tot: "total s + declared \<le> MAX_TOTAL_BYTES" and item: "read_member stream declared name keep = Inr item"
    and s': "s' = \<lparr>members = members s @ [(name, item\<lparr>m_mode := mode\<rparr>)], folded = insert (cf name) (folded s),
       total = total s + declared\<rparr>"
    unfolding add_member_def andThen_eq_Inr require_eq by auto
  obtain content where content: "stream = Inr content" using read_member_Inr [OF item] by blast
  have i: "m_size item = declared" "member_ok contents (name, item\<lparr>m_mode := mode\<rparr>)"
    using item c [OF content] safe mode unfolding content read_member_iff by (auto simp: member_ok_def)
  have "inj_on cf (keys (members s @ [(name, item\<lparr>m_mode := mode\<rparr>)]))"
    using ok fresh by (auto simp: reading_ok_def archive_ok_def)
  then show ?thesis
    using ok new count tot i unfolding s' by (auto simp: reading_ok_def archive_ok_def keys_def)
qed

definition archive_contents :: "verify_env \<Rightarrow> disk_file \<Rightarrow> (pystr \<times> bytes) set" where
  "archive_contents env path =
     (if endswith (f_name path) (U ''.zip'') then
        {(zi_filename i, c) |i c. i \<in> (case zip_infolist (containers env) (f_data path) of None \<Rightarrow> {} | Some is \<Rightarrow> set is) \<and>
           zi_content i = Inr c}
      else {(ti_name i, c) |i c. i \<in> set (fst (tar_getmembers (containers env) (f_data path))) \<and>
           ti_content i = Inr (Some c)})"

lemma empty_reading_ok: "reading_ok cf contents empty_reading"
  by (simp add: reading_ok_def archive_ok_def empty_reading_def)

lemma wrap_read_Inr [res_simps]: "wrap_read name m = Inr x \<longleftrightarrow> m = Inr x"
  by (auto simp: wrap_read_def split: sum.splits exc.splits)

lemma zip_step_ok:
  "reading_ok cf contents s \<Longrightarrow> zip_step cf s info = Inr s' \<Longrightarrow>
   (\<And>c. zi_content info = Inr c \<Longrightarrow> (zi_filename info, c) \<in> contents) \<Longrightarrow> reading_ok cf contents s'"
  unfolding zip_step_def Let_def andThen_eq_Inr using add_member_ok by blast

lemma tar_step_ok:
  "reading_ok cf contents s \<Longrightarrow> tar_step cf s info = Inr s' \<Longrightarrow>
   (\<And>c. ti_content info = Inr (Some c) \<Longrightarrow> (ti_name info, c) \<in> contents) \<Longrightarrow> reading_ok cf contents s'"
  unfolding tar_step_def andThen_eq_Inr
  by (auto split: sum.splits option.splits intro: add_member_ok)

lemma read_archive_ok:
  assumes "read_archive env path = Inr ms"
  shows "archive_ok (casefold env) (archive_contents env path) ms"
proof (cases "endswith (f_name path) (U ''.zip'')")
  case True
  with assms obtain infos s where infos: "zip_infolist (containers env) (f_data path) = Some infos"
    and loop: "foldE (zip_step (casefold env)) empty_reading infos = Inr s" and ms: "ms = members s"
    unfolding read_archive_def andThen_eq_Inr wrap_read_Inr by (auto simp: res_simps split: option.splits)
  have "reading_ok (casefold env) (archive_contents env path) s"
    using loop empty_reading_ok
  proof (rule foldE_invariant)
    fix t i t' assume i: "i \<in> set infos" and t: "reading_ok (casefold env) (archive_contents env path) t"
      "zip_step (casefold env) t i = Inr t'"
    show "reading_ok (casefold env) (archive_contents env path) t'"
      by (rule zip_step_ok [OF t]) (use True infos i in \<open>auto simp: archive_contents_def\<close>)
  qed
  then show ?thesis by (simp add: ms reading_ok_def)
next
  case False
  with assms obtain s where
    loop: "foldE (tar_step (casefold env)) empty_reading (fst (tar_getmembers (containers env) (f_data path))) = Inr s"
    and ms: "ms = members s"
    unfolding read_archive_def andThen_eq_Inr wrap_read_Inr by (auto simp: res_simps split: prod.splits if_splits)
  have "reading_ok (casefold env) (archive_contents env path) s"
    using loop empty_reading_ok
  proof (rule foldE_invariant)
    fix t i t' assume i: "i \<in> set (fst (tar_getmembers (containers env) (f_data path)))"
      and t: "reading_ok (casefold env) (archive_contents env path) t" "tar_step (casefold env) t i = Inr t'"
    show "reading_ok (casefold env) (archive_contents env path) t'"
      by (rule tar_step_ok [OF t]) (use False i in \<open>auto simp: archive_contents_def\<close>)
  qed
  then show ?thesis by (simp add: ms reading_ok_def)
qed

subsection \<open>Checksums\<close>

definition sums_item :: "pystr \<Rightarrow> pystr \<Rightarrow> exc + (pystr \<times> (exc + pystr)) option" where
  "sums_item name line = (case sums_entry line of
       None \<Rightarrow> Inl (VerificationError ''invalid {} line'' [name])
     | Some (digest, filename) \<Rightarrow> Inr (Some (filename, Inr digest)))"

interpretation sums: unique_collector "sums_item name"
  "\<lambda>k. VerificationError ''duplicate {} entry: {}'' [name, k]" "sums_loop name" for name
  by unfold_locales (auto simp: sums_item_def split: option.splits)

lemma sums_entry_eq:
  "sums_entry l = Some (d, n) \<longleftrightarrow> l = d @ [32, 32] @ n \<and> hex_id 64 d \<and> n \<noteq> [] \<and> list_all asset_char n"
proof
  assume "sums_entry l = Some (d, n)"
  then have d: "d = take 64 l" and n: "n = drop 66 l" and sp: "take 2 (drop 64 l) = [32, 32]"
    and tail: "hex_id 64 d \<and> n \<noteq> [] \<and> list_all asset_char n"
    by (auto simp: sums_entry_def Let_def split: if_splits)
  have "l = take 64 l @ take 2 (drop 64 l) @ drop 2 (drop 64 l)"
    by (simp only: append_take_drop_id)
  then have "l = d @ [32, 32] @ n" by (simp add: d n sp)
  with tail show "l = d @ [32, 32] @ n \<and> hex_id 64 d \<and> n \<noteq> [] \<and> list_all asset_char n" by blast
next
  assume l: "l = d @ [32, 32] @ n \<and> hex_id 64 d \<and> n \<noteq> [] \<and> list_all asset_char n"
  then have "length d = 64" by (simp add: hex_id_def)
  with l show "sums_entry l = Some (d, n)" by (simp add: sums_entry_def)
qed

text \<open>A checksum file printed from a table of names and digests.\<close>

definition sums_text :: "(pystr, pystr) dict \<Rightarrow> pystr list" where
  "sums_text d = map (\<lambda>(n, h). h @ [32, 32] @ n) d"

lemma sums_collected:
  "(\<And>l. l \<in> set ls \<Longrightarrow> entry_ok (sums_item name) l) \<Longrightarrow> sums_text (collected (sums_item name) ls) = ls"
proof (induction ls)
  case (Cons l ls)
  then have "entry_ok (sums_item name) l" by simp
  then obtain d n where e: "sums_entry l = Some (d, n)"
    by (auto simp: entry_ok_def sums_item_def split: option.splits)
  then have "l = d @ [32, 32] @ n" by (simp only: sums_entry_eq)
  then show ?case using Cons e by (simp add: sums_text_def sums_item_def)
qed (simp add: sums_text_def)

lemma sums_loop_iff:
  "sums_loop name [] ls = Inr d \<longleftrightarrow> sums_text d = ls \<and> distinct (map fst d) \<and>
     list_all (\<lambda>(n, h). hex_id 64 h \<and> n \<noteq> [] \<and> list_all asset_char n) d"
proof
  assume a: "sums_loop name [] ls = Inr d"
  then have ok: "\<And>l. l \<in> set ls \<Longrightarrow> entry_ok (sums_item name) l" and d: "d = collected (sums_item name) ls"
    and dist: "distinct (map fst d)" by (auto simp: sums.loop_iff)
  have "hex_id 64 h \<and> n \<noteq> [] \<and> list_all asset_char n" if "(n, h) \<in> set d" for n h
    using that unfolding d collected_mem
    by (auto simp: sums_item_def sums_entry_eq split: option.splits)
  then show "sums_text d = ls \<and> distinct (map fst d) \<and>
      list_all (\<lambda>(n, h). hex_id 64 h \<and> n \<noteq> [] \<and> list_all asset_char n) d"
    using sums_collected [OF ok] d dist by (auto simp: list_all_iff)
next
  assume a: "sums_text d = ls \<and> distinct (map fst d) \<and>
      list_all (\<lambda>(n, h). hex_id 64 h \<and> n \<noteq> [] \<and> list_all asset_char n) d"
  then have item: "sums_item name (case e of (n, h) \<Rightarrow> h @ [32, 32] @ n) = Inr (Some (fst e, Inr (snd e)))" if "e \<in> set d" for e
    using that sums_entry_eq [of "snd e @ [32, 32] @ fst e" "snd e" "fst e"]
    by (auto simp: sums_item_def list_all_iff split_def)
  have "collected (sums_item name) (map (\<lambda>(n, h). h @ [32, 32] @ n) d) = map id d"
    by (rule collected_map_Some) (simp only: item id_apply)
  then have "collected (sums_item name) ls = d" using a by (simp add: sums_text_def)
  moreover have "entry_ok (sums_item name) l" if "l \<in> set ls" for l
    using that a item by (auto simp: sums_text_def entry_ok_def)
  ultimately show "sums_loop name [] ls = Inr d" using a by (auto simp: sums.loop_iff)
qed

lemma parse_sums_iff:
  "parse_sums data expected name = Inr d \<longleftrightarrow> (\<exists>body. ascii_decode data = Inr body \<and>
     sums_loop name [] (splitlines body) = Inr d \<and> keys d = expected)"
  unfolding parse_sums_def by (auto simp: res_simps split: sum.splits)

subsection \<open>Two archives\<close>

text \<open>
  The same members with the same modes, and the same content outside a set of allowed names.
\<close>

definition same_outside :: "pystr set \<Rightarrow> (pystr, member) dict \<Rightarrow> (pystr, member) dict \<Rightarrow> bool" where
  "same_outside allowed before after \<longleftrightarrow> keys before = keys after \<and>
     (\<forall>name left. map_of before name = Some left \<longrightarrow> (\<exists>right. map_of after name = Some right \<and>
        m_mode left = m_mode right \<and>
        (name \<notin> allowed \<longrightarrow> m_size left = m_size right \<and> m_digest left = m_digest right)))"

lemma compare_member_sets_same:
  assumes "compare_member_sets before after allowed a = Inr u"
  shows "same_outside allowed before after"
proof -
  from assms have k: "keys before = keys after" and c: "\<forall>e \<in> set before. compare_member after allowed a e = Inr ()"
    unfolding compare_member_sets_def andThen_eq_Inr require_eq forE_eq_Inr by auto
  have "\<exists>right. map_of after name = Some right \<and> m_mode left = m_mode right \<and>
      (name \<notin> allowed \<longrightarrow> m_size left = m_size right \<and> m_digest left = m_digest right)"
    if "map_of before name = Some left" for name left
    using c map_of_SomeD [OF that]
    by (fastforce simp: compare_member_def res_simps split: if_splits)
  with k show ?thesis by (simp add: same_outside_def)
qed

lemma binary_pair_same:
  "verify_binary_pair before after a c t = Inr () \<Longrightarrow> same_outside binary_allowed before after"
  unfolding verify_binary_pair_def andThen_eq_Inr using compare_member_sets_same by blast

lemma source_pair_same:
  "verify_source_pair before after a version c t ct tt tag = Inr () \<Longrightarrow>
   \<exists>documents. source_document_members before version tag = Inr documents \<and>
     same_outside (source_allowed documents) before after"
  unfolding verify_source_pair_def andThen_eq_Inr using compare_member_sets_same by blast

subsection \<open>Notices\<close>

text \<open>A notice line with the value of an identity field replaced.\<close>

definition set_field :: "(pystr, pystr) dict \<Rightarrow> pystr option \<times> pystr \<Rightarrow> pystr option \<times> pystr" where
  "set_field fs line = (case fst line of None \<Rightarrow> line
     | Some k \<Rightarrow> (case map_of fs k of None \<Rightarrow> line | Some v \<Rightarrow> (Some k, v)))"

definition line_keys :: "(pystr option \<times> pystr) list \<Rightarrow> pystr list" where
  "line_keys ls = map fst (notice_dict ls)"

lemma line_keys_simps [simp]:
  "line_keys [] = []" "line_keys ((None, v) # ls) = line_keys ls" "line_keys ((Some k, v) # ls) = k # line_keys ls"
  by (simp_all add: line_keys_def notice_dict_def)

lemma line_keys_mem: "k \<in> set (line_keys ls) \<longleftrightarrow> (\<exists>v. (Some k, v) \<in> set ls)"
proof (induction ls)
  case (Cons l ls)
  obtain o' v where "l = (o', v)" by (cases l)
  then show ?case using Cons by (cases o') auto
qed simp

lemma notice_loop_keys:
  "notice_line_loop name seen ls = Inr rs \<Longrightarrow> distinct (line_keys rs) \<and> set (line_keys rs) \<inter> set seen = {}"
proof (induction name seen ls arbitrary: rs rule: notice_line_loop.induct)
  case (2 name seen line lines)
  show ?case
  proof (cases "61 \<in> set line \<and> notice_key (fst (split1 61 line))")
    case True
    obtain k v where kv: "split1 61 line = (k, v)" by (cases "split1 61 line")
    from 2(3) True kv obtain r where k: "k \<notin> set seen" and r: "notice_line_loop name (k # seen) lines = Inr r"
      "rs = (Some k, v) # r" by (auto simp: res_simps)
    then show ?thesis using 2(1) [OF True kv [symmetric] refl _ r(1), of "()"] by (auto simp: require_eq)
  next
    case False
    with 2(3) obtain r where r: "notice_line_loop name seen lines = Inr r" "rs = (None, line) # r"
      by (auto simp: res_simps)
    then show ?thesis using 2(2) [OF False r(1)] by simp
  qed
qed simp

lemma notice_lines_keys: "notice_lines data name = Inr rs \<Longrightarrow> distinct (line_keys rs)"
  unfolding notice_lines_def using notice_loop_keys by (auto split: sum.splits)

text \<open>The relation between two lines that the comparison accepts, and the fields that changed.\<close>

definition line_allowed :: "(pystr, pystr) dict \<Rightarrow> pystr option \<times> pystr \<Rightarrow> pystr option \<times> pystr \<Rightarrow> bool" where
  "line_allowed fs l r \<longleftrightarrow> l = r \<or> (\<exists>k. fst l = Some k \<and> fst r = Some k \<and> map_of fs k = Some (snd r))"

definition changed_keys :: "((pystr option \<times> pystr) \<times> (pystr option \<times> pystr)) list \<Rightarrow> pystr set" where
  "changed_keys ps = {k. \<exists>(l, r) \<in> set ps. l \<noteq> r \<and> fst l = Some k}"

lemma compare_lines_iff:
  "length old = length new \<Longrightarrow> foldE (compare_line fs name) changed (zip old new) = Inr result \<longleftrightarrow>
    list_all2 (line_allowed fs) old new \<and> result = changed \<union> changed_keys (zip old new)"
proof (induction old new arbitrary: changed rule: list_induct2)
  case (Cons l old r new)
  let ?A = "{k. l \<noteq> r \<and> fst l = Some k}"
  have "foldE (compare_line fs name) changed (zip (l # old) (r # new)) = Inr result \<longleftrightarrow>
      (\<exists>c. compare_line fs name changed (l, r) = Inr c \<and> foldE (compare_line fs name) c (zip old new) = Inr result)"
    by (simp add: res_simps)
  also have "\<dots> \<longleftrightarrow> line_allowed fs l r \<and> foldE (compare_line fs name) (changed \<union> ?A) (zip old new) = Inr result"
    by (cases l; cases r) (auto simp: compare_line_def line_allowed_def res_simps split: option.splits)
  also have "\<dots> \<longleftrightarrow> line_allowed fs l r \<and> list_all2 (line_allowed fs) old new \<and>
      result = (changed \<union> ?A) \<union> changed_keys (zip old new)"
    unfolding Cons.IH by simp
  also have "(changed \<union> ?A) \<union> changed_keys (zip old new) = changed \<union> changed_keys (zip (l # old) (r # new))"
    by (auto simp: changed_keys_def)
  finally show ?case by simp
qed (auto simp: changed_keys_def)

lemma line_key_unique:
  "distinct (line_keys ls) \<Longrightarrow> i < length ls \<Longrightarrow> j < length ls \<Longrightarrow> fst (ls ! i) = Some k \<Longrightarrow>
   fst (ls ! j) = Some k \<Longrightarrow> i = j"
proof (induction ls arbitrary: i j)
  case (Cons l ls)
  obtain o' v where l: "l = (o', v)" by (cases l)
  have mem: "k \<in> set (line_keys ls)" if "n < length ls" "fst (ls ! n) = Some k" for n
    using that nth_mem [of n ls] unfolding line_keys_mem by (metis prod.collapse)
  have d: "distinct (line_keys ls)" using Cons.prems(1) l by (cases o') auto
  show ?case
    using Cons.prems Cons.IH [OF d] mem l by (cases i; cases j; cases o') auto
qed simp

lemma set_field_cases:
  "set_field fs l = l \<or> (\<exists>k v. fst l = Some k \<and> map_of fs k = Some v \<and> set_field fs l = (Some k, v))"
  by (auto simp: set_field_def split: option.splits)

lemma notice_update_iff:
  assumes len: "length old = length new" and d: "distinct (line_keys old)"
  shows "list_all2 (line_allowed fs) old new \<and> changed_keys (zip old new) = keys fs \<longleftrightarrow>
    new = map (set_field fs) old \<and> (\<forall>k \<in> keys fs. \<exists>v. (Some k, v) \<in> set old \<and> map_of fs k \<noteq> Some v)"
proof
  assume a: "list_all2 (line_allowed fs) old new \<and> changed_keys (zip old new) = keys fs"
  have changed: "\<exists>i < length old. old ! i \<noteq> new ! i \<and> fst (old ! i) = Some k" if "k \<in> keys fs" for k
  proof -
    have "k \<in> changed_keys (zip old new)" using a that by simp
    then show ?thesis using len by (fastforce simp: changed_keys_def in_set_zip)
  qed
  have "new ! i = set_field fs (old ! i)" if i: "i < length old" for i
  proof (cases "old ! i = new ! i")
    case True
    have "map_of fs k = None" if "fst (old ! i) = Some k" for k
    proof (rule ccontr)
      assume "map_of fs k \<noteq> None"
      then have "k \<in> keys fs" by (auto simp: keys_iff_Some)
      then obtain j where "j < length old" "old ! j \<noteq> new ! j" "fst (old ! j) = Some k" using changed by blast
      then show False using line_key_unique [OF d i, of j k] that True by simp
    qed
    then show ?thesis using True by (auto simp: set_field_def split: option.splits)
  next
    case False
    then obtain k where "fst (old ! i) = Some k" "fst (new ! i) = Some k" "map_of fs k = Some (snd (new ! i))"
      using a i by (auto simp: list_all2_conv_all_nth line_allowed_def)
    then show ?thesis by (simp add: set_field_def prod_eq_iff)
  qed
  then have "new = map (set_field fs) old" using len by (intro nth_equalityI) simp_all
  moreover have "\<exists>v. (Some k, v) \<in> set old \<and> map_of fs k \<noteq> Some v" if k: "k \<in> keys fs" for k
  proof -
    obtain i where i: "i < length old" "old ! i \<noteq> new ! i" "fst (old ! i) = Some k" using changed [OF k] by blast
    then have "fst (new ! i) = Some k" "map_of fs k = Some (snd (new ! i))"
      using a by (auto simp: list_all2_conv_all_nth line_allowed_def)
    with i nth_mem [OF i(1)] show ?thesis by (metis option.inject prod.collapse)
  qed
  ultimately show "new = map (set_field fs) old \<and>
      (\<forall>k \<in> keys fs. \<exists>v. (Some k, v) \<in> set old \<and> map_of fs k \<noteq> Some v)" by blast
next
  assume a: "new = map (set_field fs) old \<and> (\<forall>k \<in> keys fs. \<exists>v. (Some k, v) \<in> set old \<and> map_of fs k \<noteq> Some v)"
  have "line_allowed fs l (set_field fs l)" for l
    using set_field_cases [of fs l] by (auto simp: line_allowed_def)
  moreover have zip: "zip old new = map (\<lambda>l. (l, set_field fs l)) old" using a by (simp add: zip_map2 zip_same_conv_map)
  moreover have "changed_keys (zip old new) \<subseteq> keys fs"
  proof
    fix k assume "k \<in> changed_keys (zip old new)"
    then obtain l where "l \<noteq> set_field fs l" "fst l = Some k" unfolding zip changed_keys_def by auto
    then show "k \<in> keys fs" using set_field_cases [of fs l] by (auto simp: keys_iff_Some)
  qed
  moreover have "keys fs \<subseteq> changed_keys (zip old new)"
  proof
    fix k assume k: "k \<in> keys fs"
    then obtain v w where "(Some k, v) \<in> set old" "map_of fs k = Some w" "w \<noteq> v" using a by (fastforce simp: keys_iff_Some)
    then show "k \<in> changed_keys (zip old new)"
      unfolding zip changed_keys_def by (force simp: set_field_def)
  qed
  ultimately show "list_all2 (line_allowed fs) old new \<and> changed_keys (zip old new) = keys fs"
    using a by (auto simp: list_all2_conv_all_nth)
qed

lemma compare_notice_iff:
  "compare_notice before after fs name = Inr u \<longleftrightarrow> (\<exists>old. notice_lines before name = Inr old \<and>
     notice_lines after name = Inr (map (set_field fs) old) \<and>
     (\<forall>k \<in> keys fs. \<exists>v. (Some k, v) \<in> set old \<and> map_of fs k \<noteq> Some v))"
proof -
  let ?Q = "\<lambda>old new. length old = length new \<and> foldE (compare_line fs name) {} (zip old new) = Inr (keys fs)"
  have key: "?Q old new \<longleftrightarrow>
      new = map (set_field fs) old \<and> (\<forall>k \<in> keys fs. \<exists>v. (Some k, v) \<in> set old \<and> map_of fs k \<noteq> Some v)"
    if "notice_lines before name = Inr old" for old new
  proof (cases "length old = length new")
    case True
    then show ?thesis
      using compare_lines_iff [OF True, of fs name "{}" "keys fs"]
        notice_update_iff [OF True notice_lines_keys [OF that], of fs] by auto
  qed auto
  have "compare_notice before after fs name = Inr u \<longleftrightarrow> (\<exists>old. notice_lines before name = Inr old \<and>
      (\<exists>new. notice_lines after name = Inr new \<and> ?Q old new))"
    unfolding compare_notice_def andThen_eq_Inr require_eq by auto
  also have "\<dots> \<longleftrightarrow> (\<exists>old. notice_lines before name = Inr old \<and>
      notice_lines after name = Inr (map (set_field fs) old) \<and>
      (\<forall>k \<in> keys fs. \<exists>v. (Some k, v) \<in> set old \<and> map_of fs k \<noteq> Some v))"
    by (intro iff_exI conj_cong refl) (auto simp: key)
  finally show ?thesis .
qed

subsection \<open>The git history\<close>

text \<open>
  A chain of document commits: each commit has the previous one as its only parent and changes
  at least one path, all of them allowed.
\<close>

definition changes :: "verify_env \<Rightarrow> pystr \<Rightarrow> pystr \<Rightarrow> pystr set \<Rightarrow> bool" where
  "changes env prev_sha commit paths \<longleftrightarrow> (\<exists>ps. changed_paths env prev_sha commit = Inr ps \<and> set ps = paths)"

inductive doc_chain :: "verify_env \<Rightarrow> pystr set \<Rightarrow> pystr \<Rightarrow> pystr list \<Rightarrow> pystr \<Rightarrow> bool"
  for env allowed where
  start: "doc_chain env allowed c [] c"
| step: "git_value env [U ''show'', U ''-s'', U ''--format=%P'', commit] = Inr out \<Longrightarrow> words out = [c] \<Longrightarrow>
    changes env c commit paths \<Longrightarrow> paths \<noteq> {} \<Longrightarrow> paths \<subseteq> allowed \<Longrightarrow>
    doc_chain env allowed commit later t \<Longrightarrow> doc_chain env allowed c (commit # later) t"

text \<open>The first commit of a chain that changes a path.\<close>

fun first_change :: "verify_env \<Rightarrow> pystr \<Rightarrow> pystr \<Rightarrow> pystr list \<Rightarrow> nat option" where
  "first_change env path c [] = None"
| "first_change env path c (commit # later) =
     (case changed_paths env c commit of
        Inr ps \<Rightarrow> if path \<in> set ps then Some 0 else map_option Suc (first_change env path commit later)
      | Inl _ \<Rightarrow> map_option Suc (first_change env path commit later))"

definition earlier :: "nat \<Rightarrow> nat option \<Rightarrow> nat option \<Rightarrow> nat option" where
  "earlier k at_index found = (case at_index of Some x \<Rightarrow> Some x | None \<Rightarrow> map_option ((+) k) found)"

lemma commit_step_eq:
  "commit_step env version allowed s (k, commit) = Inr s1 \<longleftrightarrow> (\<exists>out ps.
     git_value env [U ''show'', U ''-s'', U ''--format=%P'', commit] = Inr out \<and> words out = [previous_commit s] \<and>
     changed_paths env (previous_commit s) commit = Inr ps \<and> ps \<noteq> [] \<and> set ps \<subseteq> allowed \<and>
     s1 = \<lparr>previous_commit = commit,
       changed_record_at = first_at k (record_path version \<in> set ps) (changed_record_at s),
       changed_notes_at = first_at k (notes_path version \<in> set ps) (changed_notes_at s)\<rparr>)"
  unfolding commit_step_def prod.case andThen_eq_Inr require_eq by auto

lemma history_loop:
  "foldE (commit_step env version allowed) s (enumerate k commits) = Inr s' \<Longrightarrow>
   doc_chain env allowed (previous_commit s) commits (previous_commit s') \<and>
   changed_record_at s' = earlier k (changed_record_at s)
     (first_change env (record_path version) (previous_commit s) commits) \<and>
   changed_notes_at s' = earlier k (changed_notes_at s)
     (first_change env (notes_path version) (previous_commit s) commits)"
proof (induction commits arbitrary: k s)
  case Nil
  then show ?case by (auto simp: earlier_def intro: doc_chain.start split: option.splits)
next
  case (Cons commit later)
  then obtain s1 where s1: "commit_step env version allowed s (k, commit) = Inr s1"
    and more: "foldE (commit_step env version allowed) s1 (enumerate (Suc k) later) = Inr s'"
    by (auto simp: res_simps)
  then obtain out ps where out: "git_value env [U ''show'', U ''-s'', U ''--format=%P'', commit] = Inr out"
    "words out = [previous_commit s]" and ps: "changed_paths env (previous_commit s) commit = Inr ps"
    "ps \<noteq> []" "set ps \<subseteq> allowed"
    and s1_eq: "s1 = \<lparr>previous_commit = commit,
       changed_record_at = first_at k (record_path version \<in> set ps) (changed_record_at s),
       changed_notes_at = first_at k (notes_path version \<in> set ps) (changed_notes_at s)\<rparr>"
    unfolding commit_step_eq by blast
  note IH = Cons.IH [OF more, unfolded s1_eq history.simps]
  have "doc_chain env allowed (previous_commit s) (commit # later) (previous_commit s')"
    using out ps IH by (intro doc_chain.step [OF out, of "set ps"]) (auto simp: changes_def)
  moreover have "earlier (Suc k) (first_at k (p \<in> set ps) x) (first_change env p commit later) =
      earlier k x (first_change env p (previous_commit s) (commit # later))" for p x
    using ps(1) by (cases "first_change env p commit later") (auto simp: earlier_def first_at_def split: option.splits)
  ultimately show ?case using IH by auto
qed

lemma chain_accepted:
  "doc_chain env allowed c commits t \<Longrightarrow> previous_commit s = c \<Longrightarrow>
   \<exists>s'. foldE (commit_step env version allowed) s (enumerate k commits) = Inr s' \<and> previous_commit s' = t"
proof (induction c commits t arbitrary: s k rule: doc_chain.induct)
  case (start c)
  then show ?case by simp
next
  case (step commit out c paths later t)
  then obtain ps where ps: "changed_paths env c commit = Inr ps" "set ps = paths" by (auto simp: changes_def)
  have "commit_step env version allowed s (k, commit) = Inr \<lparr>previous_commit = commit,
       changed_record_at = first_at k (record_path version \<in> set ps) (changed_record_at s),
       changed_notes_at = first_at k (notes_path version \<in> set ps) (changed_notes_at s)\<rparr>" (is "_ = Inr ?s1")
    unfolding commit_step_eq using step ps by (intro exI [of _ out] exI [of _ ps]) auto
  moreover obtain s' where "foldE (commit_step env version allowed) ?s1 (enumerate (Suc k) later) = Inr s'"
    "previous_commit s' = t" using step.IH [of ?s1 "Suc k"] by auto
  ultimately show ?case by simp
qed

definition ordered :: "nat option \<Rightarrow> nat option \<Rightarrow> bool" where
  "ordered r n \<longleftrightarrow> (\<exists>i j. r = Some i \<and> n = Some j \<and> i < j)"

lemma history_iff:
  "(\<exists>s. foldE (commit_step env version allowed)
      \<lparr>previous_commit = c, changed_record_at = None, changed_notes_at = None\<rparr> (enumerate 0 commits) = Inr s \<and>
    previous_commit s = t \<and>
    (case (changed_record_at s, changed_notes_at s) of (Some r, Some n) \<Rightarrow> r < n | _ \<Rightarrow> False)) \<longleftrightarrow>
   doc_chain env allowed c commits t \<and>
   ordered (first_change env (record_path version) c commits) (first_change env (notes_path version) c commits)"
  (is "(\<exists>s. ?run s \<and> _) \<longleftrightarrow> ?chain \<and> ?ord")
proof -
  have e: "earlier 0 None x = x" for x by (cases x) (simp_all add: earlier_def)
  have run: "doc_chain env allowed c commits (previous_commit s) \<and>
      changed_record_at s = first_change env (record_path version) c commits \<and>
      changed_notes_at s = first_change env (notes_path version) c commits" if "?run s" for s
    using history_loop [OF that] by (simp add: e)
  have ord: "(case (r, n) of (Some r, Some n) \<Rightarrow> r < n | _ \<Rightarrow> False) \<longleftrightarrow> ordered r n" for r n
    by (auto simp: ordered_def split: option.splits)
  show ?thesis
  proof
    assume "?chain \<and> ?ord"
    then obtain s where "?run s" "previous_commit s = t"
      using chain_accepted [of env allowed c commits t
        "\<lparr>previous_commit = c, changed_record_at = None, changed_notes_at = None\<rparr>" version 0] by auto
    with run [OF this(1)] \<open>?chain \<and> ?ord\<close> show "\<exists>s. ?run s \<and> previous_commit s = t \<and>
        (case (changed_record_at s, changed_notes_at s) of (Some r, Some n) \<Rightarrow> r < n | _ \<Rightarrow> False)"
      unfolding ord by auto
  next
    assume "\<exists>s. ?run s \<and> previous_commit s = t \<and>
        (case (changed_record_at s, changed_notes_at s) of (Some r, Some n) \<Rightarrow> r < n | _ \<Rightarrow> False)"
    then show "?chain \<and> ?ord" unfolding ord using run by auto
  qed
qed

lemma git_identity_iff:
  "verify_git_identity env version c t = Inr (ct, tt) \<longleftrightarrow>
     hex_id 40 c \<and> hex_id 40 t \<and>
     rev_parse env (c @ U ''^{commit}'') = Inr c \<and> rev_parse env (t @ U ''^{commit}'') = Inr t \<and>
     rev_parse env (U ''HEAD^{commit}'') = Inr t \<and>
     (\<exists>out. git_run env [U ''merge-base'', U ''--is-ancestor'', c, t] = Some (0, out)) \<and>
     rev_parse env (c @ U ''^{tree}'') = Inr ct \<and> rev_parse env (t @ U ''^{tree}'') = Inr tt \<and>
     (\<exists>allowed out commits. candidate_document_paths env version c = Inr allowed \<and>
        git_value env [U ''rev-list'', U ''--first-parent'', U ''--reverse'', c @ U ''..'' @ t] = Inr out \<and>
        commits = splitlines out \<and> commits \<noteq> [] \<and> doc_chain env allowed c commits t \<and>
        ordered (first_change env (record_path version) c commits) (first_change env (notes_path version) c commits))"
proof -
  have anc: "(case r of None \<Rightarrow> False | Some (status, _) \<Rightarrow> status = 0) \<longleftrightarrow> (\<exists>out. r = Some (0, out))"
    for r :: "(nat \<times> bytes) option" by (auto split: option.splits)
  show ?thesis
    unfolding verify_git_identity_def Let_def andThen_eq_Inr require_eq anc history_iff [symmetric]
    by (intro iffI; elim exE conjE) (auto, blast?)
qed

subsection \<open>Evidence\<close>

lemma verify_hooks_keep: "hooks_keep (verify_hooks name)"
proof -
  have "verify_pairs name acc ps = Inr (acc @ ps)" if "distinct (map fst (acc @ ps))" for acc ps
    using that
  proof (induction name acc ps rule: verify_pairs.induct)
    case (2 name result key v items)
    then show ?case by (auto simp: keys_def require_def)
  qed simp
  then show ?thesis by (simp add: hooks_keep_def verify_hooks_def)
qed

lemma utf8_points_ascii: "(\<And>c. c \<in> set s \<Longrightarrow> c < 128) \<Longrightarrow> utf8_points s = Some s"
  by (induction s) (simp_all add: utf8_points.simps)

lemma verify_json_write:
  assumes "json_all plain_node v"
  shows "verify_json (write_json v) name =
    (if is_obj (sort_json v) then Inr (obj_items (sort_json v)) else Inl (VerificationError ''{} must be an object'' [name]))"
proof -
  define s where "s = json_dumps v @ [10]"
  have c: "c mod 256 = c \<and> c < 128" if "c \<in> set s" for c
    using that json_dumps_graphic [OF assms, of c] by (auto simp: graphic_def s_def)
  then have "map unat (ascii_encode s) = s"
    by (auto simp: ascii_encode_def o_def unat_of_nat intro!: map_idI)
  moreover have "utf8_points s = Some s"
    using c by (intro utf8_points_ascii) blast
  ultimately have "utf8_decode (write_json v) = Inr s"
    by (simp add: utf8_decode_def write_json_def s_def)
  moreover have "json_loads (verify_hooks name) s = Inr (sort_json v)"
    unfolding s_def by (rule json_loads_dumps [OF verify_hooks_keep assms]) (simp add: skip_ws_def is_ws_def)
  ultimately show ?thesis by (simp add: verify_json_def require_def)
qed

lemma check_evidence_written:
  assumes "member_data ms name = Some (write_json (evidence_record (JStr platform0) (JStr ref0) name0 data0))"
    and "list_all is_scalar platform0" "list_all is_scalar ref0" "list_all is_scalar name0"
    and "check_evidence ms platform sha (name, program) = Inr ()"
  shows "platform0 = platform \<and> ref0 = sha \<and> name0 = program \<and>
    (\<exists>m. map_of ms program = Some m \<and> m_digest m = sha256_bytes data0)"
proof -
  have "verify_json (write_json (evidence_record (JStr platform0) (JStr ref0) name0 data0)) name =
      Inr (obj_items (sort_json (evidence_record (JStr platform0) (JStr ref0) name0 data0)))"
    using verify_json_write [OF plain_evidence [OF assms(2-4)]] by (simp add: sort_evidence)
  then show ?thesis
    using assms(5) unfolding check_evidence_def prod.case assms(1) option.case sort_evidence
    by (auto simp: res_simps Let_def jget_def str_obj_def)
qed

subsection \<open>Bundles\<close>

text \<open>
  The checksum member lists every other member once, in the fixed format, with the digest of
  its content.
\<close>

definition inner_listed :: "(pystr, member) dict \<Rightarrow> bool" where
  "inner_listed ms \<longleftrightarrow> (\<exists>data body d. member_data ms (U ''SHA256SUMS'') = Some data \<and>
     ascii_decode data = Inr body \<and> sums_text d = splitlines body \<and> distinct (map fst d) \<and>
     keys d = keys ms - {U ''SHA256SUMS''} \<and>
     list_all (\<lambda>(n, h). hex_id 64 h \<and> list_all asset_char n \<and> n \<noteq> [] \<and>
       map_option m_digest (map_of ms n) = Some h) d)"

lemma inner_sums_iff: "verify_inner_sums ms a = Inr u \<longleftrightarrow> inner_listed ms"
proof -
  let ?check = "\<lambda>(n, h). andThen (get_item ms n (KeyError n)) (\<lambda>m.
      require (m_digest m = h) ''inner checksum mismatch in {}: {}'' [a, n])"
  have f: "forE ?check d = Inr v \<longleftrightarrow> list_all (\<lambda>(n, h). map_option m_digest (map_of ms n) = Some h) d" for d v
    by (auto simp: forE_eq_Inr list_all_iff res_simps)
  have d: "verify_inner_sums ms a = Inr u \<longleftrightarrow> (\<exists>data d. member_data ms (U ''SHA256SUMS'') = Some data \<and>
      parse_sums data (keys ms - {U ''SHA256SUMS''}) (U ''inner SHA256SUMS in '' @ a) = Inr d \<and>
      list_all (\<lambda>(n, h). map_option m_digest (map_of ms n) = Some h) d)"
    unfolding verify_inner_sums_def member_data_def
    by (simp add: andThen_eq_Inr f split: option.splits)
  have all: "list_all (\<lambda>(n, h). hex_id 64 h \<and> list_all asset_char n \<and> n \<noteq> [] \<and> P n h) d \<longleftrightarrow>
      list_all (\<lambda>(n, h). hex_id 64 h \<and> n \<noteq> [] \<and> list_all asset_char n) d \<and> list_all (\<lambda>(n, h). P n h) d"
    for P and d :: "(pystr, pystr) dict" by (induction d) auto
  show ?thesis
    unfolding d parse_sums_iff sums_loop_iff inner_listed_def all by blast
qed

lemma verify_asset_eq:
  "verify_asset env dir checksums name = Inr e \<longleftrightarrow> (\<exists>f ms. e = (name, ms) \<and> bundle_file dir name = Inr f \<and>
     f_is_file f \<and> \<not> f_is_symlink f \<and> length (f_data f) \<le> MAX_ARCHIVE_BYTES \<and>
     map_of checksums name = Some (sha256_bytes (f_data f)) \<and> read_archive env f = Inr ms \<and> inner_listed ms)"
  unfolding verify_asset_def file_sha256_def andThen_eq_Inr require_eq get_item_eq_Inr inner_sums_iff by auto

lemma mapE_entries:
  assumes "mapE f xs = Inr ys" and "\<And>x y. f x = Inr y \<Longrightarrow> fst y = x"
  shows "map fst ys = xs" and "\<And>x. x \<in> set xs \<Longrightarrow> \<exists>y. f x = Inr (x, y) \<and> map_of ys x = Some y"
proof -
  from assms show fst: "map fst ys = xs"
    unfolding mapE_eq_Inr list_all2_conv_all_nth by (intro nth_equalityI) simp_all
  fix x assume "x \<in> set xs"
  then obtain y where y: "map_of ys x = Some y"
    using fst by (metis keys_def keys_iff_Some set_map)
  then have "(x, y) \<in> set ys" by (rule map_of_SomeD)
  then obtain i where "i < length ys" "ys ! i = (x, y)" by (metis in_set_conv_nth)
  moreover from this have "f (xs ! i) = Inr (x, y)" using assms(1) by (auto simp: mapE_eq_Inr list_all2_conv_all_nth)
  ultimately show "\<exists>y. f x = Inr (x, y) \<and> map_of ys x = Some y" using y assms(2) by fastforce
qed

text \<open>One asset of a bundle: the file, its listed checksum and its members.\<close>

definition asset_ok ::
  "verify_env \<Rightarrow> bundle_dir \<Rightarrow> (pystr, pystr) dict \<Rightarrow> (pystr, (pystr, member) dict) dict \<Rightarrow> pystr \<Rightarrow> bool" where
  "asset_ok env dir checksums archives name \<longleftrightarrow> (\<exists>f ms. bundle_file dir name = Inr f \<and>
     f_is_file f \<and> \<not> f_is_symlink f \<and> map_of checksums name = Some (sha256_bytes (f_data f)) \<and>
     map_of archives name = Some ms \<and> read_archive env f = Inr ms \<and> inner_listed ms)"

lemma bundle_ok:
  assumes "verify_bundle env dir version = Inr (checksums, archives)"
  obtains expected where "expected_assets version = Inr expected"
    and "set (map f_name (b_files dir)) = insert (U ''SHA256SUMS'') (set expected)"
    and "keys checksums = set expected" and "map fst archives = sort expected"
    and "list_all (asset_ok env dir checksums archives) expected"
proof -
  from assms obtain expected data where e: "expected_assets version = Inr expected"
    "set (map f_name (b_files dir)) = insert (U ''SHA256SUMS'') (set expected)"
    and p: "parse_sums data (set expected) (U ''outer SHA256SUMS'') = Inr checksums"
    and m: "mapE (verify_asset env dir checksums) (sort expected) = Inr archives"
    unfolding verify_bundle_def andThen_eq_Inr require_eq by auto
  have fst: "verify_asset env dir checksums x = Inr y \<Longrightarrow> fst y = x" for x y by (auto simp: verify_asset_eq)
  have "asset_ok env dir checksums archives x" if "x \<in> set expected" for x
    using mapE_entries(2) [OF m fst, of x] that by (auto simp: verify_asset_eq asset_ok_def)
  moreover have "keys checksums = set expected" using p by (auto simp: parse_sums_iff)
  ultimately show ?thesis using that e mapE_entries(1) [OF m fst] by (simp add: list_all_iff)
qed

subsection \<open>The release\<close>

text \<open>
  What the comparison of candidate and tag rebuild allows to differ in one asset: the identity
  members of a binary archive, the identity members and the approved documents of the source
  archive.
\<close>

definition rebuild_same :: "pystr \<Rightarrow> pystr \<Rightarrow> (pystr, member) dict \<Rightarrow> (pystr, member) dict \<Rightarrow> bool" where
  "rebuild_same version name before after \<longleftrightarrow>
     (if name = source_asset version
      then \<exists>documents. source_document_members before version (U ''v'' @ version) = Inr documents \<and>
        same_outside (source_allowed documents) before after
      else same_outside binary_allowed before after)"

lemma verify_pair_same:
  "verify_pair candidate tagged version c t ct tt name = Inr () \<Longrightarrow>
   \<exists>before after. map_of candidate name = Some before \<and> map_of tagged name = Some after \<and>
     rebuild_same version name before after"
  unfolding verify_pair_def andThen_eq_Inr get_item_eq_Inr rebuild_same_def
  using binary_pair_same source_pair_same by (fastforce split: if_splits)

lemma release_steps:
  assumes "verify_release env cd rd td tag c t = Inr report"
  obtains version ct tt cs candidate rs reproduction ts tagged assets where
    "tag = U ''v'' @ version" "VERSION version" "verify_git_identity env version c t = Inr (ct, tt)"
    "verify_bundle env cd version = Inr (cs, candidate)" "verify_bundle env rd version = Inr (rs, reproduction)"
    "verify_bundle env td version = Inr (ts, tagged)" "expected_assets version = Inr assets"
    "list_all (\<lambda>n. compare_reproduction cd rd n = Inr ()) assets"
    "list_all (\<lambda>n. verify_pair candidate tagged version c t ct tt n = Inr ()) assets"
    "rr_candidate_tree report = ct" "rr_tag_tree report = tt" "rr_assets report = assets"
proof -
  have tag: "startswith tag (U ''v'') \<Longrightarrow> tag = U ''v'' @ drop 1 tag"
    by (cases tag) (auto simp: startswith_def U_Cons)
  from assms obtain ct tt cs candidate rs reproduction ts tagged assets where
    "startswith tag (U ''v'')" "VERSION (drop 1 tag)" "verify_git_identity env (drop 1 tag) c t = Inr (ct, tt)"
    "verify_bundle env cd (drop 1 tag) = Inr (cs, candidate)" "verify_bundle env rd (drop 1 tag) = Inr (rs, reproduction)"
    "verify_bundle env td (drop 1 tag) = Inr (ts, tagged)" "expected_assets (drop 1 tag) = Inr assets"
    "forE (compare_reproduction cd rd) assets = Inr ()"
    "forE (verify_pair candidate tagged (drop 1 tag) c t ct tt) assets = Inr ()"
    "rr_candidate_tree report = ct \<and> rr_tag_tree report = tt \<and> rr_assets report = assets"
    unfolding verify_release_def Let_def by (auto simp: andThen_eq_Inr require_eq simp del: forE_eq_Inr)
  then show ?thesis using that [of "drop 1 tag" ct tt cs candidate rs reproduction ts tagged assets] tag
    by (simp add: forE_eq_Inr list_all_iff)
qed

lemma release_asset:
  assumes "verify_release env cd rd td tag c t = Inr report" and "name \<in> set (rr_assets report)"
  shows "(\<exists>f g. bundle_file cd name = Inr f \<and> bundle_file rd name = Inr g \<and> f_data f = f_data g) \<and>
    (\<exists>f g before after. bundle_file cd name = Inr f \<and> bundle_file td name = Inr g \<and>
      read_archive env f = Inr before \<and> read_archive env g = Inr after \<and>
      rebuild_same (drop 1 tag) name before after)"
  using assms(1)
proof (rule release_steps)
  fix version ct tt cs candidate rs reproduction ts tagged assets
  assume tag: "tag = U ''v'' @ version" and assets: "expected_assets version = Inr assets"
    and bc: "verify_bundle env cd version = Inr (cs, candidate)" and bt: "verify_bundle env td version = Inr (ts, tagged)"
    and cmp: "list_all (\<lambda>n. compare_reproduction cd rd n = Inr ()) assets"
    and pair: "list_all (\<lambda>n. verify_pair candidate tagged version c t ct tt n = Inr ()) assets"
    and rr: "rr_assets report = assets"
  have n: "name \<in> set assets" using assms(2) rr by simp
  have "asset_ok env cd cs candidate name" "asset_ok env td ts tagged name"
    using bundle_ok [OF bc] bundle_ok [OF bt] assets n by (metis list_all_iff sum.inject(2))+
  moreover have "compare_reproduction cd rd name = Inr ()" "verify_pair candidate tagged version c t ct tt name = Inr ()"
    using cmp pair n by (simp_all add: list_all_iff)
  moreover have "drop 1 tag = version" by (simp add: tag U_Cons)
  ultimately show ?thesis
    using verify_pair_same [of candidate tagged version c t ct tt name]
    by (auto simp: asset_ok_def compare_reproduction_def res_simps same_chunks_iff)
qed

subsection \<open>Two readers of the same evidence\<close>

lemma first_evidence:
  "\<exists>program. program \<in> {U ''sianod'', U ''sianod.exe''} \<and>
     (U ''evidence/binary-audit.json'', program) \<in> set (zip EVIDENCE (release_programs platform))"
  by (cases "platform = U ''windows-x64''") (simp_all add: EVIDENCE_def release_programs_def)

lemma daemon_evidence_name:
  "program \<in> {U ''sianod'', U ''sianod.exe''} \<Longrightarrow> binary_evidence_name program \<noteq> U ''evidence/binary-audit.json''"
  by (auto simp: binary_evidence_name_def removesuffix_def endswith_def U_Cons)

lemma parse_binary_manifest_evidence:
  "parse_binary_manifest ms archive_name sha = Inr manifest \<Longrightarrow>
   \<exists>platform. forE (check_evidence ms platform sha) (zip EVIDENCE (release_programs platform)) = Inr ()"
  unfolding parse_binary_manifest_def
  by (auto simp: andThen_eq_Inr require_eq split: option.splits simp del: forE_eq_Inr)

section \<open>Properties of the release verification\<close>

text \<open>C6. \<open>read_member\<close> reads a stream in chunks of at most 1 MiB and one byte more than declared, yet
  returns exactly when the stream has the declared size within the limits, and then with the
  SHA-256 digest of the whole content and, for a member that is kept, the content itself.\<close>

theorem read_member_exact:
  "read_member (Inr content) declared name keep = Inr m \<longleftrightarrow>
     declared = length content \<and>
     length content \<le> (if keep then MAX_METADATA_BYTES else MAX_MEMBER_BYTES) \<and>
     m = \<lparr>m_kind = ''file'', m_mode = 0, m_size = length content, m_digest = sha256_bytes content,
       m_data = (if keep then Some content else None), m_link = None\<rparr>"
proof -
  have "MAX_METADATA_BYTES \<le> MAX_MEMBER_BYTES" by (simp add: MAX_METADATA_BYTES_def MAX_MEMBER_BYTES_def)
  then show ?thesis unfolding read_member_iff by auto
qed

text \<open>C3. Whatever the container holds, an archive that \<open>read_archive\<close> returns has safe member
  names that stay distinct after case folding, at most 50000 members of at most 128 MiB each
  and 1 GiB in all, permission bits only, and for each member the size and digest of a content
  that the container really holds under that name.\<close>

theorem read_archive_safe:
  "case read_archive env path of Inl _ \<Rightarrow> True
   | Inr ms \<Rightarrow> archive_ok (casefold env) (archive_contents env path) ms"
  using read_archive_ok by (auto split: sum.splits)

text \<open>C4. A bundle that \<open>verify_bundle\<close> returns has exactly the eight assets of the version and
  the checksum file, every asset has the digest its checksum line states, and inside every
  archive the checksum member lists every other member once with the digest of its content.\<close>

theorem bundle_checked:
  "case verify_bundle env dir version of Inl _ \<Rightarrow> True
   | Inr (checksums, archives) \<Rightarrow> (\<exists>expected. expected_assets version = Inr expected \<and>
       set (map f_name (b_files dir)) = insert (U ''SHA256SUMS'') (set expected) \<and>
       keys checksums = set expected \<and> map fst archives = sort expected \<and>
       list_all (asset_ok env dir checksums archives) expected)"
  using bundle_ok [of env dir version] by (fastforce split: sum.splits)

text \<open>C5. \<open>compare_notice\<close> accepts exactly the notices whose lines are those of the old notice with
  the values of the identity fields replaced by the expected ones, where every identity field
  occurs in the old notice with another value.\<close>

theorem compare_notice_exact:
  "compare_notice before after fs name = Inr () \<longleftrightarrow> (\<exists>old. notice_lines before name = Inr old \<and>
     notice_lines after name = Inr (map (set_field fs) old) \<and>
     list_all (\<lambda>k. \<exists>v. (Some k, v) \<in> set old \<and> map_of fs k \<noteq> Some v) (map fst fs))"
  unfolding compare_notice_iff by (auto simp: list_all_iff keys_def)

text \<open>C2. \<open>verify_git_identity\<close> accepts exactly when the commits, the checkout and the trees are
  the given ones and the first-parent history is a chain of single-parent commits from the
  candidate to the tag, each changing at least one file and only documents that the candidate
  already has, in which the version record changes in an earlier commit than the release notes.\<close>

theorem git_history_exact:
  "verify_git_identity env version c t = Inr (ct, tt) \<longleftrightarrow>
     hex_id 40 c \<and> hex_id 40 t \<and>
     rev_parse env (c @ U ''^{commit}'') = Inr c \<and> rev_parse env (t @ U ''^{commit}'') = Inr t \<and>
     rev_parse env (U ''HEAD^{commit}'') = Inr t \<and>
     (\<exists>out. git_run env [U ''merge-base'', U ''--is-ancestor'', c, t] = Some (0, out)) \<and>
     rev_parse env (c @ U ''^{tree}'') = Inr ct \<and> rev_parse env (t @ U ''^{tree}'') = Inr tt \<and>
     (\<exists>allowed out commits. candidate_document_paths env version c = Inr allowed \<and>
        git_value env [U ''rev-list'', U ''--first-parent'', U ''--reverse'', c @ U ''..'' @ t] = Inr out \<and>
        commits = splitlines out \<and> commits \<noteq> [] \<and> doc_chain env allowed c commits t \<and>
        ordered (first_change env (record_path version) c commits) (first_change env (notes_path version) c commits))"
  by (rule git_identity_iff)

text \<open>C1. A release that \<open>verify_release\<close> accepts: the tag is vX.Y.Z, the git identity holds with
  the trees reported, every reported asset is byte for byte the same in the candidate and in its
  independent reproduction, and its archive in the tag rebuild has the members and modes of the
  candidate and the same content outside the identity members and the approved documents.\<close>

theorem release_accepted:
  "case verify_release env cd rd td tag c t of Inl _ \<Rightarrow> True
   | Inr report \<Rightarrow>
       VERSION (drop 1 tag) \<and> expected_assets (drop 1 tag) = Inr (rr_assets report) \<and>
       verify_git_identity env (drop 1 tag) c t = Inr (rr_candidate_tree report, rr_tag_tree report) \<and>
       list_all (\<lambda>name.
         (\<exists>f g. bundle_file cd name = Inr f \<and> bundle_file rd name = Inr g \<and> f_data f = f_data g) \<and>
         (\<exists>f g before after. bundle_file cd name = Inr f \<and> bundle_file td name = Inr g \<and>
           read_archive env f = Inr before \<and> read_archive env g = Inr after \<and>
           rebuild_same (drop 1 tag) name before after)) (rr_assets report)"
proof (cases "verify_release env cd rd td tag c t")
  case (Inr report)
  have "VERSION (drop 1 tag) \<and> expected_assets (drop 1 tag) = Inr (rr_assets report) \<and>
      verify_git_identity env (drop 1 tag) c t = Inr (rr_candidate_tree report, rr_tag_tree report)"
    using Inr by (rule release_steps) (simp add: U_Cons)
  then show ?thesis using release_asset [OF Inr] by (simp add: Inr list_all_iff)
qed simp

text \<open>C20. Evidence that the artifact audit writes under the name it demands cannot pass the release
  verification: the audit keeps the evidence of \<open>siano-ts\<close> in \<open>evidence/binary-audit.json\<close>,
  while \<open>parse_binary_manifest\<close> pairs that file with the first program of the manifest,
  \<open>sianod\<close>, so it raises on every archive that holds it.\<close>

theorem evidence_pairing_conflict:
  assumes "member_data ms (U ''evidence/binary-audit.json'') =
      Some (write_json (evidence_record (JStr platform0) (JStr ref0) name0 data0))"
    and "list_all is_scalar platform0" "list_all is_scalar ref0" "list_all is_scalar name0"
    and "binary_evidence_name name0 = U ''evidence/binary-audit.json''"
  shows "\<exists>e. parse_binary_manifest ms archive_name sha = Inl e"
proof (cases "parse_binary_manifest ms archive_name sha")
  case (Inr manifest)
  then obtain platform where "forE (check_evidence ms platform sha) (zip EVIDENCE (release_programs platform)) = Inr ()"
    using parse_binary_manifest_evidence by blast
  moreover obtain program where p: "program \<in> {U ''sianod'', U ''sianod.exe''}"
    "(U ''evidence/binary-audit.json'', program) \<in> set (zip EVIDENCE (release_programs platform))"
    using first_evidence [of platform] by blast
  ultimately have "check_evidence ms platform sha (U ''evidence/binary-audit.json'', program) = Inr ()"
    by (simp only: forE_eq_Inr)
  then have "name0 = program" using check_evidence_written [OF assms(1-4)] by blast
  then show ?thesis using daemon_evidence_name [OF p(1)] assms(5) by simp
qed simp

text \<open>The audit accepts the same file that the release verification rejects.\<close>

theorem evidence_pairing_conflict_witness:
  "verify_binary_evidence
     [(U ''siano-ts'', B ''ELF''),
      (U ''evidence/binary-audit.json'',
        write_json (evidence_record (JStr (U ''linux-x86_64'')) (JStr (U ''f00'')) (U ''siano-ts'') (B ''ELF'')))]
     [(U ''platform'', JStr (U ''linux-x86_64'')), (U ''source_ref'', JStr (U ''f00''))]
     (U ''siano-ts'') = Inr () \<and>
   (\<exists>e. parse_binary_manifest
     [(U ''siano-ts'', \<lparr>m_kind = ''file'', m_mode = 0x1ED, m_size = 3, m_digest = sha256_bytes (B ''ELF''), m_data = None, m_link = None\<rparr>),
      (U ''evidence/binary-audit.json'', \<lparr>m_kind = ''file'', m_mode = 0x1A4, m_size = 181, m_digest = [],
        m_data = Some (write_json (evidence_record (JStr (U ''linux-x86_64'')) (JStr (U ''f00'')) (U ''siano-ts'') (B ''ELF''))),
        m_link = None\<rparr>)] (U ''siano-ts-1.0.0-linux-x86_64.tar.gz'') (U ''f00'') = Inl e)"
proof
  have name: "binary_evidence_name (U ''siano-ts'') = U ''evidence/binary-audit.json''"
    by (simp add: binary_evidence_name_def removesuffix_def endswith_def U_Cons)
  show "verify_binary_evidence
     [(U ''siano-ts'', B ''ELF''),
      (U ''evidence/binary-audit.json'',
        write_json (evidence_record (JStr (U ''linux-x86_64'')) (JStr (U ''f00'')) (U ''siano-ts'') (B ''ELF'')))]
     [(U ''platform'', JStr (U ''linux-x86_64'')), (U ''source_ref'', JStr (U ''f00''))]
     (U ''siano-ts'') = Inr ()"
    by (rule verify_evidence_iff [THEN iffD2]) (simp_all add: name)
  show "\<exists>e. parse_binary_manifest
     [(U ''siano-ts'', \<lparr>m_kind = ''file'', m_mode = 0x1ED, m_size = 3, m_digest = sha256_bytes (B ''ELF''), m_data = None, m_link = None\<rparr>),
      (U ''evidence/binary-audit.json'', \<lparr>m_kind = ''file'', m_mode = 0x1A4, m_size = 181, m_digest = [],
        m_data = Some (write_json (evidence_record (JStr (U ''linux-x86_64'')) (JStr (U ''f00'')) (U ''siano-ts'') (B ''ELF''))),
        m_link = None\<rparr>)] (U ''siano-ts-1.0.0-linux-x86_64.tar.gz'') (U ''f00'') = Inl e"
    by (rule evidence_pairing_conflict [of _ "U ''linux-x86_64''" "U ''f00''" "U ''siano-ts''" "B ''ELF''"])
      (simp_all add: member_data_def name)
qed

end
