(* ===== verification/ReleaseErrors.thy ===== *)
theory ReleaseErrors
  imports ReleaseFacts
begin

section \<open>Which exceptions leave the release verification\<close>

text \<open>
  \<open>main\<close> of \<open>release_verify.py\<close> catches \<open>VerificationError\<close> only. This theory shows which other
  exceptions the checks can raise: the decoding error of git output that is not ASCII, and the
  lookup of a program or of the dependency notice that an archive does not have.
\<close>

subsection \<open>Two classes of exceptions\<close>

fun verification_exc :: "exc \<Rightarrow> bool" where
  "verification_exc (VerificationError _ _) \<longleftrightarrow> True"
| "verification_exc _ \<longleftrightarrow> False"

fun io_exc :: "exc \<Rightarrow> bool" where
  "io_exc (OSError _ _) \<longleftrightarrow> True"
| "io_exc _ \<longleftrightarrow> False"

fun release_exc :: "exc \<Rightarrow> bool" where
  "release_exc (VerificationError _ _) \<longleftrightarrow> True"
| "release_exc UnicodeDecodeError \<longleftrightarrow> True"
| "release_exc (KeyError k) \<longleftrightarrow> k = notice_name \<or> (\<exists>platform. k \<in> set (release_programs platform))"
| "release_exc _ \<longleftrightarrow> False"

lemma verification_release: "raises verification_exc m \<Longrightarrow> raises release_exc m"
  by (rule raises_mono [of verification_exc]) (auto elim: verification_exc.elims)

lemma raises_require [raise_intros]: "P (VerificationError m a) \<Longrightarrow> raises P (require c m a)"
  by (simp add: require_def)

lemma raises_mapE [raise_intros]:
  "(\<And>x. x \<in> set xs \<Longrightarrow> raises P (f x)) \<Longrightarrow> raises P (mapE f xs)"
  by (induction xs) (auto intro!: raises_andThen)

lemma raises_foldE:
  assumes "Q s" and "\<And>t x. x \<in> set xs \<Longrightarrow> Q t \<Longrightarrow> raises P (f t x)"
    and "\<And>t x t'. x \<in> set xs \<Longrightarrow> Q t \<Longrightarrow> f t x = Inr t' \<Longrightarrow> Q t'"
  shows "raises P (foldE f s xs)"
  using assms
proof (induction xs arbitrary: s)
  case (Cons x xs)
  have "raises P (foldE f t xs)" if "f s x = Inr t" for t
  proof (rule Cons.IH)
    show "Q t" using Cons.prems(3) [of x s t] Cons.prems(1) that by simp
  qed (use Cons.prems(2,3) in \<open>simp_all, metis\<close>)
  then show ?case using Cons.prems(1,2) by (auto intro!: raises_andThen)
qed simp

subsection \<open>Reading\<close>

lemma read_loop_raises: "raises verification_exc (read_loop declared name seen hashed stream)"
proof (induction declared name seen hashed stream rule: read_loop.induct)
  case (1 declared name seen hashed stream)
  then show ?case
    by (subst read_loop.simps) (auto simp: Let_def intro!: raise_intros)
qed

text \<open>The containers of the standard library report failures only as I/O errors.\<close>

definition containers_fail_io :: "verify_env \<Rightarrow> bool" where
  "containers_fail_io env \<longleftrightarrow>
     (\<forall>data infos. zip_infolist (containers env) data = Some infos \<longrightarrow> (\<forall>i \<in> set infos. raises io_exc (zi_content i))) \<and>
     (\<forall>data. \<forall>i \<in> set (fst (tar_getmembers (containers env) data)). raises io_exc (ti_content i))"

definition reader_exc :: "exc \<Rightarrow> bool" where
  "reader_exc e \<longleftrightarrow> verification_exc e \<or> io_exc e"

lemma reader_exc_simps [simp]: "reader_exc (VerificationError m a)" "reader_exc (OSError m a)"
  by (simp_all add: reader_exc_def)

lemma add_member_raises: "raises io_exc stream \<Longrightarrow> raises reader_exc (add_member cf s name mode declared stream)"
  unfolding add_member_def safe_name_def read_member_def
  by (auto intro!: raise_intros raises_mono [OF read_loop_raises] elim!: raises_mono
      simp: reader_exc_def split: prod.splits)

lemma wrap_read_raises: "raises reader_exc m \<Longrightarrow> raises verification_exc (wrap_read name m)"
  by (cases m) (auto simp: wrap_read_def reader_exc_def split: exc.splits)

lemma read_archive_raises:
  assumes "containers_fail_io env"
  shows "raises verification_exc (read_archive env path)"
proof -
  have z: "raises reader_exc (foldE (zip_step (casefold env)) empty_reading infos)"
    if "zip_infolist (containers env) (f_data path) = Some infos" for infos
    using assms that
    by (intro raises_foldE [where Q = "\<lambda>_. True"])
      (auto simp: zip_step_def Let_def containers_fail_io_def intro!: raise_intros add_member_raises)
  have t: "raises reader_exc (foldE (tar_step (casefold env)) empty_reading (fst (tar_getmembers (containers env) (f_data path))))"
  proof (rule raises_foldE [where Q = "\<lambda>_. True"], goal_cases)
    case (2 s i)
    then have "raises io_exc (ti_content i)" using assms by (auto simp: containers_fail_io_def)
    then show ?case
      unfolding tar_step_def
      by (auto intro!: raise_intros add_member_raises split: sum.splits option.splits)
  qed auto
  show ?thesis
    unfolding read_archive_def
    using z t by (auto intro!: raise_intros wrap_read_raises split: option.splits prod.splits)
qed

subsection \<open>Bundles\<close>

lemma sums_loop_raises: "raises verification_exc (sums_loop name acc ls)"
  by (rule sums.loop_raises) (auto simp: sums_item_def split: option.splits)

lemma parse_sums_raises: "raises verification_exc (parse_sums data expected name)"
  unfolding parse_sums_def
  by (auto intro!: raise_intros sums_loop_raises split: sum.splits)

lemma inner_sums_raises: "raises verification_exc (verify_inner_sums ms a)"
  unfolding verify_inner_sums_def
  by (auto intro!: raise_intros parse_sums_raises simp: parse_sums_iff dest!: keys_mem split: option.splits)

lemma expected_assets_raises: "raises verification_exc (expected_assets version)"
  unfolding expected_assets_def by (auto intro!: raise_intros)

lemma bundle_file_raises: "name \<in> set (map f_name (b_files dir)) \<Longrightarrow> raises P (bundle_file dir name)"
  by (auto simp: bundle_file_def filter_empty_conv split: list.splits)

lemma verify_asset_raises:
  "containers_fail_io env \<Longrightarrow> name \<in> set (map f_name (b_files dir)) \<Longrightarrow> name \<in> keys checksums \<Longrightarrow>
   raises verification_exc (verify_asset env dir checksums name)"
  unfolding verify_asset_def file_sha256_def
  by (intro raise_intros bundle_file_raises read_archive_raises inner_sums_raises) simp_all

lemma verify_bundle_raises:
  "containers_fail_io env \<Longrightarrow> raises verification_exc (verify_bundle env dir version)"
  unfolding verify_bundle_def
  by (intro raise_intros expected_assets_raises parse_sums_raises bundle_file_raises verify_asset_raises)
    (auto simp: require_eq parse_sums_iff)

subsection \<open>Git\<close>

lemma git_value_raises: "raises release_exc (git_value env args)"
  unfolding git_value_def ascii_decode_def by (auto intro!: raise_intros split: option.splits)

lemma git_identity_raises: "raises release_exc (verify_git_identity env version c t)"
proof -
  have d: "raises release_exc (candidate_document_paths env version c)"
    unfolding candidate_document_paths_def document_exists_def Let_def
    by (auto intro!: raise_intros split: option.splits)
  have s: "raises release_exc (foldE (commit_step env version allowed) s steps)" for allowed s steps
    by (rule raises_foldE [where Q = "\<lambda>_. True"])
      (auto simp: commit_step_def changed_paths_def intro!: raise_intros git_value_raises split: prod.splits)
  show ?thesis
    unfolding verify_git_identity_def rev_parse_def Let_def
    by (intro raise_intros git_value_raises d s) simp_all
qed

subsection \<open>Notices, manifests and pairs\<close>

lemma verify_json_raises: "raises verification_exc (verify_json data name)"
  unfolding verify_json_def by (auto intro!: raise_intros split: sum.splits)

lemma notice_line_loop_raises: "raises verification_exc (notice_line_loop name seen ls)"
  by (induction name seen ls rule: notice_line_loop.induct) (auto intro!: raise_intros split: prod.splits)

lemma notice_lines_raises: "raises verification_exc (notice_lines data name)"
  unfolding notice_lines_def using notice_line_loop_raises by (auto split: sum.splits)

lemma compare_notice_raises: "raises verification_exc (compare_notice before after fs name)"
proof -
  have "raises verification_exc (foldE (compare_line fs name) s ps)" for s ps
    by (rule raises_foldE [where Q = "\<lambda>_. True"])
      (auto simp: compare_line_def intro!: raise_intros split: prod.splits option.splits)
  then show ?thesis
    unfolding compare_notice_def by (intro raise_intros notice_lines_raises) simp_all
qed

lemma compare_notices_raises: "raises verification_exc (compare_notices before after ofs nfs a msg)"
  unfolding compare_notices_def
  by (intro raise_intros notice_lines_raises compare_notice_raises) simp

lemma compare_json_identity_raises: "raises verification_exc (compare_json_identity before after name field v)"
  unfolding compare_json_identity_def matching_json_style_def
  by (intro raise_intros verify_json_raises) simp_all

lemma check_inventory_raises: "raises verification_exc (check_inventory ms files m i r a)"
  unfolding check_inventory_def
  by (auto intro!: raise_intros simp: require_eq dest: keys_mem)

lemma compare_member_sets_raises: "raises verification_exc (compare_member_sets before after allowed a)"
  unfolding compare_member_sets_def compare_member_def
  by (auto intro!: raise_intros simp: require_eq dest: keys_mem)

lemma parse_source_manifest_raises: "raises verification_exc (parse_source_manifest ms a version c t)"
  unfolding parse_source_manifest_def
  by (auto intro!: raise_intros verify_json_raises check_inventory_raises split: option.splits)

lemma parse_binary_manifest_raises: "raises release_exc (parse_binary_manifest ms a sha)"
proof -
  have e: "raises release_exc (check_evidence ms platform sha pair)"
    if "pair \<in> set (zip EVIDENCE (release_programs platform))" for pair platform
  proof -
    have "snd pair \<in> set (release_programs platform)" using that by (metis in_set_zipE prod.collapse)
    then have "raises release_exc (get_item ms (snd pair) (KeyError (snd pair)))"
      by (auto simp: get_item_def split: option.splits)
    then show ?thesis
      unfolding check_evidence_def Let_def
      by (auto intro!: raises_andThen raises_require verification_release [OF verify_json_raises]
          split: option.splits prod.splits)
  qed
  show ?thesis
    unfolding parse_binary_manifest_def
    by (auto intro!: raise_intros e verification_release [OF verify_json_raises]
        verification_release [OF check_inventory_raises] split: option.splits)
qed

text \<open>The file table of an accepted manifest: a record with a size for every listed member.\<close>

definition file_table :: "json \<Rightarrow> pystr set \<Rightarrow> bool" where
  "file_table files names \<longleftrightarrow> is_obj files \<and> keys (obj_items files) = names \<and>
     list_all (\<lambda>(n, r). is_obj r \<and> U ''size'' \<in> keys (obj_items r)) (obj_items files)"

lemma check_inventory_table:
  "check_inventory ms files m i r a = Inr u \<Longrightarrow> file_table files (keys ms - {m, U ''SHA256SUMS''})"
  unfolding check_inventory_def andThen_eq_Inr require_eq forE_eq_Inr
  by (fastforce simp: file_table_def list_all_iff member_record_ok_def andThen_eq_Inr require_eq)

lemma binary_manifest_table:
  "parse_binary_manifest ms a sha = Inr m \<Longrightarrow>
   file_table (jget m (U ''files'')) (keys ms - {U ''manifest.json'', U ''SHA256SUMS''}) \<and> set EVIDENCE \<subseteq> keys ms"
  unfolding parse_binary_manifest_def
  by (cases "member_data ms (U ''manifest.json'')"; cases "archive_platform a")
    (auto simp: andThen_eq_Inr require_eq dest: check_inventory_table)

lemma source_manifest_table:
  "parse_source_manifest ms a version c t = Inr m \<Longrightarrow>
   file_table (jget m (U ''files'')) (keys ms - {U ''source-manifest.json'', U ''SHA256SUMS''})"
  unfolding parse_source_manifest_def
  by (auto simp: andThen_eq_Inr require_eq dest: check_inventory_table split: option.splits)

lemma table_item_raises:
  assumes "file_table files names" and "name \<in> names \<or> P (KeyError name)"
  shows "raises P (obj_item files name)"
  using assms by (cases files) (auto simp: file_table_def obj_item_def get_item_def keys_iff_Some split: option.splits)

lemma table_size_raises:
  assumes "file_table files names" "obj_item files name = Inr r"
  shows "raises P (obj_item r (U ''size''))"
proof -
  from assms have "(name, r) \<in> set (obj_items files)"
    by (cases files) (auto simp: file_table_def obj_item_def get_item_eq_Inr dest: map_of_SomeD)
  then show ?thesis using assms(1)
    by (cases r) (auto simp: file_table_def list_all_iff obj_item_def get_item_def keys_iff_Some)
qed

lemma same_size_raises:
  assumes "file_table old_files names" "file_table new_files names" "name \<in> names \<or> P (KeyError name)"
    and "P (VerificationError msg args)"
  shows "raises P (same_size old_files new_files name msg args)"
  unfolding same_size_def using assms
  by (intro raise_intros table_item_raises [of old_files names] table_item_raises [of new_files names]
      table_size_raises [of old_files names] table_size_raises [of new_files names]) auto

lemma copy_record_raises:
  assumes "file_table new_files names" "name \<in> names \<or> P (KeyError name)" "is_obj files"
  shows "raises P (copy_record new_files files name)"
  unfolding copy_record_def using assms
  by (cases files) (auto intro!: raises_andThen table_item_raises [of new_files names])

lemma copy_record_obj: "copy_record new_files files name = Inr files' \<Longrightarrow> is_obj files'"
  by (cases files) (auto simp: copy_record_def andThen_eq_Inr)

lemma binary_pair_raises: "raises release_exc (verify_binary_pair before after a c t)"
proof -
  let ?step = "\<lambda>old_files new_files files name. andThen
      (same_size old_files new_files name ''binary identity member size changed: {}:{}'' [a, name])
      (\<lambda>_. copy_record new_files files name)"
  have loop: "raises release_exc (foldE (?step (jget old (U ''files'')) (jget new (U ''files'')))
      (jget old (U ''files'')) (notice_name # EVIDENCE))"
    if same: "keys before = keys after" and o: "parse_binary_manifest before a c = Inr old"
      and n: "parse_binary_manifest after a t = Inr new" for old new
  proof (rule raises_foldE [where Q = is_obj], goal_cases)
    case 1
    then show ?case using binary_manifest_table [OF o] by (simp add: file_table_def)
  next
    case (2 files name)
    then have "name \<in> keys before - {U ''manifest.json'', U ''SHA256SUMS''} \<or> release_exc (KeyError name)"
      using binary_manifest_table [OF o] by (auto simp: EVIDENCE_def)
    then show ?case
      using 2 binary_manifest_table [OF o] binary_manifest_table [OF n] same
      by (intro raises_andThen same_size_raises copy_record_raises) auto
  next
    case (3 files name files')
    then show ?case using copy_record_obj by (auto simp: andThen_eq_Inr)
  qed
  have same: "compare_member_sets before after binary_allowed a = Inr u \<Longrightarrow> keys before = keys after" for u
    by (auto simp: compare_member_sets_def andThen_eq_Inr require_eq)
  show ?thesis
    unfolding verify_binary_pair_def Let_def matching_json_style_def
    by (intro raises_andThen raises_require raises_forE loop [OF same] parse_binary_manifest_raises
        verification_release [OF compare_member_sets_raises] verification_release [OF compare_notices_raises]
        verification_release [OF compare_json_identity_raises]) simp_all
qed

lemma documents_listed:
  "source_document_members ms version tag = Inr documents \<Longrightarrow> set documents \<subseteq> keys ms - {U ''source-manifest.json'', U ''SHA256SUMS''}"
proof -
  define paths where "paths = U ''README.md'' # map (\<lambda>p. U ''repository/'' @ p) PX4_DOCUMENTS @
      [source_notes tag, U ''repository/release-notes/'' @ tag @ U ''.json'', source_record version]"
  have head: "hd p \<in> {82, 114}" if "p \<in> set paths" for p
    using that by (auto simp: paths_def source_notes_def source_record_def U_Cons)
  have "hd (U ''source-manifest.json'') = 115" "hd (U ''SHA256SUMS'') = 83" by (simp_all add: U_Cons)
  then have "U ''source-manifest.json'' \<notin> set paths" "U ''SHA256SUMS'' \<notin> set paths"
    using head [of "U ''source-manifest.json''"] head [of "U ''SHA256SUMS''"] by auto
  moreover assume "source_document_members ms version tag = Inr documents"
  then have "documents = filter (\<lambda>p. p \<in> keys ms) paths"
    unfolding source_document_members_def andThen_eq_Inr paths_def [symmetric] by auto
  ultimately show ?thesis by auto
qed

lemma source_pair_raises: "raises release_exc (verify_source_pair before after a version c t ct tt tag)"
proof -
  have loop: "raises release_exc (foldE (copy_record (jget new (U ''files''))) (jget old (U ''files'')) (notice_name # documents))"
    and size: "raises release_exc (same_size (jget old (U ''files'')) (jget new (U ''files'')) notice_name msg [])"
    if same: "keys before = keys after" and o: "parse_source_manifest before a version c ct = Inr old"
      and n: "parse_source_manifest after a version t tt = Inr new"
      and d: "source_document_members before version tag = Inr documents" for old new documents msg
  proof -
    note tables = source_manifest_table [OF o] source_manifest_table [OF n]
    show "raises release_exc (same_size (jget old (U ''files'')) (jget new (U ''files'')) notice_name msg [])"
      using tables same by (intro same_size_raises) auto
    show "raises release_exc (foldE (copy_record (jget new (U ''files''))) (jget old (U ''files'')) (notice_name # documents))"
    proof (rule raises_foldE [where Q = is_obj], goal_cases)
      case 1
      then show ?case using tables by (simp add: file_table_def)
    next
      case (2 files name)
      then show ?case
        using tables same documents_listed [OF d] by (intro copy_record_raises) auto
    next
      case (3 files name files')
      then show ?case using copy_record_obj by blast
    qed
  qed
  have docs: "raises release_exc (source_document_members before version tag)"
    unfolding source_document_members_def by (intro raise_intros) simp
  have same: "compare_member_sets before after s a = Inr u \<Longrightarrow> keys before = keys after" for s u
    by (auto simp: compare_member_sets_def andThen_eq_Inr require_eq)
  show ?thesis
    unfolding verify_source_pair_def Let_def matching_json_style_def
    by (intro raises_andThen raises_require docs loop [OF same] size [OF same]
        verification_release [OF parse_source_manifest_raises]
        verification_release [OF compare_member_sets_raises] verification_release [OF compare_notices_raises]) simp_all
qed

section \<open>The exit status\<close>

lemma verify_pair_raises:
  assumes "name \<in> keys candidate" "name \<in> keys tagged"
  shows "raises release_exc (verify_pair candidate tagged version c t ct tt name)"
  unfolding verify_pair_def using assms
  by (intro raise_intros binary_pair_raises source_pair_raises) auto

lemma bundle_names:
  assumes "verify_bundle env dir version = Inr (chk, archives)" "expected_assets version = Inr assets"
  shows "set (map f_name (b_files dir)) = insert (U ''SHA256SUMS'') (set assets)" and "keys archives = set assets"
proof -
  from assms(1) obtain expected where "expected_assets version = Inr expected"
    and "set (map f_name (b_files dir)) = insert (U ''SHA256SUMS'') (set expected)"
    and "map fst archives = sort expected" by (rule bundle_ok)
  then show "set (map f_name (b_files dir)) = insert (U ''SHA256SUMS'') (set assets)" and "keys archives = set assets"
    using assms(2) by (simp_all add: keys_set_map del: set_map)
qed

lemma release_raises:
  assumes io: "containers_fail_io env"
  shows "raises release_exc (verify_release env cd rd td tag c t)"
proof -
  note verified = verification_release [OF verify_bundle_raises [OF io]]
  have entry: "raises release_exc (bundle_file dir name)"
    if "verify_bundle env dir version = Inr (chk, archives)" "expected_assets version = Inr assets"
      "name \<in> insert (U ''SHA256SUMS'') (set assets)" for dir version chk archives assets name
    using bundle_names(1) [OF that(1,2)] that(3) by (intro bundle_file_raises) simp
  have listing: "raises release_exc (bundle_file dir (U ''SHA256SUMS''))"
    if "verify_bundle env dir version = Inr (chk, archives)" for dir version chk archives
    using that
  proof (rule bundle_ok)
    fix expected assume "expected_assets version = Inr expected"
    then show ?thesis using entry [OF that] by blast
  qed
  have cmp: "raises release_exc (compare_reproduction cd rd name)"
    if "verify_bundle env cd version = Inr a" "verify_bundle env rd version = Inr b"
      "expected_assets version = Inr assets" "name \<in> set assets" for version a b assets name
    unfolding compare_reproduction_def using that
    by (cases a; cases b) (auto intro!: raises_andThen raises_require entry)
  have pair: "raises release_exc (verify_pair candidate tagged version c t ct tt name)"
    if "verify_bundle env cd version = Inr (x, candidate)" "verify_bundle env td version = Inr (y, tagged)"
      "expected_assets version = Inr assets" "name \<in> set assets" for version x y candidate tagged ct tt assets name
    using that bundle_names(2) by (intro verify_pair_raises) blast+
  show ?thesis
    unfolding verify_release_def Let_def
    by (intro raises_andThen raises_require raises_case_prod git_identity_raises verified raises_Inr
        verification_release [OF expected_assets_raises] raises_forE) (auto intro: listing cmp pair)
qed


definition sample_env :: verify_env where
  "sample_env = \<lparr>casefold = id, containers = \<lparr>zip_infolist = (\<lambda>_. None), tar_getmembers = (\<lambda>_. ([], True))\<rparr>,
     git_run = (\<lambda>_. Some (0, [0xC3]))\<rparr>"

definition sample_dir :: bundle_dir where
  "sample_dir = \<lparr>b_name = U ''out'', b_is_dir = True, b_files = []\<rparr>"


end
