(* ===== verification/ReleaseRuns.thy ===== *)
theory ReleaseRuns
  imports JsonRoundtrip
begin

section \<open>The recorded candidate runs, the version guard and the source identity\<close>

text \<open>
  \<open>release_runs.py\<close> reads the two workflow run numbers from the version record and checks the
  metadata of the runs against them; \<open>check-release-version.py\<close> refuses a version whose tag
  points elsewhere; \<open>source-identity.py\<close> prints the commit of a source manifest.
\<close>

subsection \<open>The run numbers in the record\<close>

definition run_require :: "bool \<Rightarrow> string \<Rightarrow> pystr list \<Rightarrow> unit res" where
  "run_require c m args = (if c then Inr () else Inl (RunError m args))"

lemma run_require_eq [res_simps]: "run_require c m a = Inr u \<longleftrightarrow> c"
  by (simp add: run_require_def)

definition RUN_ID :: "pystr \<Rightarrow> bool" where
  "RUN_ID s \<longleftrightarrow> s \<noteq> [] \<and> list_all is_digit s \<and> hd s \<noteq> 48"

definition RUN_FIELDS :: "pystr set" where
  "RUN_FIELDS = set (map U [''databaseId'', ''workflowName'', ''event'', ''status'', ''conclusion'', ''headSha''])"

text \<open>The values of the lines that start with a key and a colon.\<close>

definition run_values :: "pystr \<Rightarrow> pystr list \<Rightarrow> pystr list" where
  "run_values key ls = map (\<lambda>l. strip (snd (split1 58 l))) (filter (\<lambda>l. startswith l (key @ [58])) ls)"

text \<open>\<open>int(raw)\<close>, which refuses more than 4300 digits.\<close>

definition int_of_text :: "pystr \<Rightarrow> nat res" where
  "int_of_text raw = (if length raw > 4300 then Inl (ValueError ''Exceeds the limit for integer string conversion'' [])
     else Inr (int_of_digits raw))"

definition run_value :: "pystr \<Rightarrow> pystr list \<Rightarrow> nat res" where
  "run_value key ls =
     (let vs = run_values key ls in
      andThen (run_require (length vs = 1) ''{} must appear exactly once'' [key]) (\<lambda>_.
      andThen (run_require (RUN_ID (hd vs)) ''{} is unset or invalid'' [key]) (\<lambda>_.
      int_of_text (hd vs))))"

definition read_run_ids :: "file_read \<Rightarrow> (nat \<times> nat) res" where
  "read_run_ids document =
     (case read_text document of
        Inl _ \<Rightarrow> Inl (RunError ''cannot read version result document'' [])
      | Inr body \<Rightarrow>
          andThen (run_value (U ''candidate_run_id'') (splitlines body)) (\<lambda>candidate.
          andThen (run_value (U ''reproduction_run_id'') (splitlines body)) (\<lambda>reproduction.
          andThen (run_require (candidate \<noteq> reproduction) ''candidate and reproduction run IDs must differ'' []) (\<lambda>_.
          Inr (candidate, reproduction)))))"

subsection \<open>The metadata of the runs\<close>

definition parse_run :: "file_read \<Rightarrow> (pystr, json) dict res" where
  "parse_run path =
     (case andThen (read_text path) (json_loads default_hooks) of
        Inl _ \<Rightarrow> Inl (RunError ''invalid workflow run metadata'' [])
      | Inr v \<Rightarrow>
          andThen (run_require (is_obj v \<and> keys (obj_items v) = RUN_FIELDS)
            ''workflow run metadata fields are incomplete or unexpected'' []) (\<lambda>_.
          Inr (obj_items v)))"

definition verify_run :: "(pystr, json) dict \<Rightarrow> nat \<Rightarrow> pystr \<Rightarrow> unit res" where
  "verify_run run expected_id candidate_sha =
     andThen (run_require (hex_id 40 candidate_sha) ''candidate SHA must be canonical lowercase 40-character hex'' []) (\<lambda>_.
     andThen (run_require (is_exact_int (jget run (U ''databaseId'')) \<and> int_of (jget run (U ''databaseId'')) = int expected_id)
       ''workflow run ID does not match the version result document'' []) (\<lambda>_.
     run_require (py_eq (jget run (U ''workflowName'')) (JStr (U ''Release candidate'')) \<and>
         py_eq (jget run (U ''event'')) (JStr (U ''workflow_dispatch'')) \<and>
         py_eq (jget run (U ''status'')) (JStr (U ''completed'')) \<and>
         py_eq (jget run (U ''conclusion'')) (JStr (U ''success'')) \<and>
         py_eq (jget run (U ''headSha'')) (JStr candidate_sha))
       ''workflow/artifact run is not a successful candidate for the fixed source SHA'' []))"

definition verify_run_pair :: "(pystr, json) dict \<Rightarrow> (pystr, json) dict \<Rightarrow> nat \<Rightarrow> nat \<Rightarrow> pystr res" where
  "verify_run_pair candidate reproduction candidate_id reproduction_id =
     (let sha = jget candidate (U ''headSha'') in
      andThen (run_require (is_str sha \<and> hex_id 40 (str_of sha))
        ''candidate run head SHA must be canonical lowercase 40-character hex'' []) (\<lambda>_.
      andThen (verify_run candidate candidate_id (str_of sha)) (\<lambda>_.
      andThen (verify_run reproduction reproduction_id (str_of sha)) (\<lambda>_.
      Inr (str_of sha)))))"

text \<open>
  \<open>main\<close>: the line that it prints, with the runs in the mode \<open>verify\<close> and without them in the
  mode \<open>read\<close>; a \<open>RunError\<close> gives status 1.
\<close>

definition runs_output :: "file_read \<Rightarrow> (file_read \<times> file_read) option \<Rightarrow> pystr res" where
  "runs_output document runs =
     andThen (read_run_ids document) (\<lambda>(candidate_id, reproduction_id).
     case runs of
       None \<Rightarrow> Inr (str_nat candidate_id @ [32] @ str_nat reproduction_id)
     | Some (candidate_run, reproduction_run) \<Rightarrow>
         andThen (parse_run candidate_run) (\<lambda>c.
         andThen (parse_run reproduction_run) (\<lambda>r.
         andThen (verify_run_pair c r candidate_id reproduction_id) (\<lambda>sha.
         Inr (str_nat candidate_id @ [32] @ str_nat reproduction_id @ [32] @ sha)))))"

definition runs_main :: "file_read \<Rightarrow> (file_read \<times> file_read) option \<Rightarrow> nat res" where
  "runs_main document runs = (case runs_output document runs of
       Inl (RunError _ _) \<Rightarrow> Inr 1
     | Inl e \<Rightarrow> Inl e
     | Inr _ \<Rightarrow> Inr 0)"

subsection \<open>The version guard\<close>

text \<open>
  Git: the exit status and the output of a command, or nothing when it cannot run.
\<close>

type_synonym git_text = "pystr list \<Rightarrow> (nat \<times> pystr) option"

definition check_version_tag :: "pystr option \<Rightarrow> pystr \<Rightarrow> string res" where
  "check_version_tag tag_commit source_commit = (case tag_commit of
       None \<Rightarrow> Inr ''unused''
     | Some commit \<Rightarrow>
         if lower commit = lower source_commit then Inr ''same-commit''
         else Inl (ValueError ''version tag already points to {}, source is {}'' [commit, source_commit]))"

definition resolve_tag_commit :: "git_text \<Rightarrow> pystr \<Rightarrow> pystr option res" where
  "resolve_tag_commit git tag_ref =
     (case git [U ''show-ref'', U ''--verify'', U ''--quiet'', tag_ref] of
        None \<Rightarrow> Inl (OSError ''git'' [])
      | Some (status, _) \<Rightarrow>
          if status = 1 then Inr None
          else if status \<noteq> 0 then Inl (OSError ''git show-ref failed for {}'' [tag_ref])
          else (case git [U ''rev-parse'', U ''--verify'', tag_ref @ U ''^{commit}''] of
              None \<Rightarrow> Inl (OSError ''git'' [])
            | Some (status, stdout) \<Rightarrow>
                if status \<noteq> 0 then Inl (OSError ''CalledProcessError'' []) else Inr (Some (strip stdout))))"

definition plain_version :: "pystr \<Rightarrow> bool" where
  "plain_version s \<longleftrightarrow> length (split_on 46 s) = 3 \<and> list_all (\<lambda>p. p \<noteq> [] \<and> list_all is_digit p) (split_on 46 s)"

definition any_hex_id :: "pystr \<Rightarrow> bool" where
  "any_hex_id s \<longleftrightarrow> (length s = 40 \<or> length s = 64) \<and> list_all is_hex s"

text \<open>The exit status of \<open>main\<close>: 2 is the usage error of \<open>argparse\<close>.\<close>

definition version_main :: "git_text \<Rightarrow> pystr \<Rightarrow> pystr \<Rightarrow> nat" where
  "version_main git version source_commit =
     (if version = [] \<or> source_commit = [] then 2
      else if \<not> plain_version version then 2
      else if \<not> any_hex_id source_commit then 2
      else (case andThen (resolve_tag_commit git (U ''refs/tags/v'' @ version)) (\<lambda>commit.
              check_version_tag commit source_commit) of
          Inl _ \<Rightarrow> 1
        | Inr _ \<Rightarrow> 0))"

subsection \<open>The source identity\<close>

definition object_id :: "pystr \<Rightarrow> bool" where
  "object_id s \<longleftrightarrow> hex_id 40 s \<or> hex_id 64 s"

definition resolved_commit :: "file_read \<Rightarrow> pystr res" where
  "resolved_commit manifest_path =
     (case andThen (read_text manifest_path) (json_loads default_hooks) of
        Inl (ValueError m a) \<Rightarrow>
          if m = ''JSONDecodeError'' then Inl (ValueError ''cannot read source manifest'' []) else Inl (ValueError m a)
      | Inl _ \<Rightarrow> Inl (ValueError ''cannot read source manifest'' [])
      | Inr manifest \<Rightarrow>
          if \<not> is_obj manifest then Inl (ValueError ''source manifest identity is missing'' [])
          else
          let source_ref = jget (obj_items manifest) (U ''source_ref''); commit = jget (obj_items manifest) (U ''resolved_commit'');
              tree = jget (obj_items manifest) (U ''tree'') in
          if \<not> is_str source_ref \<or> strip (str_of source_ref) = [] then Inl (ValueError ''source manifest source_ref is missing'' [])
          else if \<not> is_str commit \<or> \<not> object_id (str_of commit)
          then Inl (ValueError ''source manifest resolved_commit must be a full lowercase commit ID'' [])
          else if \<not> is_str tree \<or> \<not> object_id (str_of tree)
          then Inl (ValueError ''source manifest tree must be a full lowercase tree ID'' [])
          else Inr (str_of commit))"

section \<open>What the scripts accept\<close>

subsection \<open>Run numbers\<close>

lemma int_of_digits_snoc: "int_of_digits (s @ [c]) = 10 * int_of_digits s + (c - 48)"
  by (simp add: int_of_digits_def)

lemma str_nat_of_digits: "RUN_ID s \<Longrightarrow> str_nat (int_of_digits s) = s"
proof (induction s rule: rev_induct)
  case (snoc c s)
  have c: "48 \<le> c" "c \<le> 57" using snoc.prems by (auto simp: RUN_ID_def is_digit_def)
  show ?case
  proof (cases "s = []")
    case True
    then show ?thesis using c snoc.prems by (subst str_nat.simps) (auto simp: RUN_ID_def int_of_digits_def)
  next
    case False
    then have IH: "str_nat (int_of_digits s) = s" using snoc by (auto simp: RUN_ID_def)
    have "int_of_digits s \<noteq> 0"
    proof
      assume "int_of_digits s = 0"
      then have "s = [48]" using IH by (subst (asm) str_nat.simps) simp
      then show False using snoc.prems by (simp add: RUN_ID_def)
    qed
    moreover obtain d where "c = 48 + d" "d < 10" using c that [of "c - 48"] by simp
    ultimately show ?thesis using IH by (subst str_nat.simps) (simp add: int_of_digits_snoc)
  qed
qed (simp add: RUN_ID_def)

lemma RUN_ID_iff: "RUN_ID s \<longleftrightarrow> (\<exists>n > 0. s = str_nat n)"
proof
  assume r: "RUN_ID s"
  moreover from r have "int_of_digits s \<noteq> 0"
    using str_nat_of_digits [OF r] by (cases "int_of_digits s = 0") (auto simp: RUN_ID_def str_nat.simps)
  ultimately show "\<exists>n > 0. s = str_nat n" using str_nat_of_digits [OF r] by (intro exI [of _ "int_of_digits s"]) simp
next
  assume "\<exists>n > 0. s = str_nat n"
  then show "RUN_ID s" using str_nat_head by (auto simp: RUN_ID_def list_all_iff str_nat_digits)
qed

definition recorded :: "pystr \<Rightarrow> pystr list \<Rightarrow> nat \<Rightarrow> bool" where
  "recorded key ls n \<longleftrightarrow> run_values key ls = [str_nat n] \<and> 0 < n \<and> length (str_nat n) \<le> 4300"

lemma run_value_iff: "run_value key ls = Inr n \<longleftrightarrow> recorded key ls n"
proof -
  have "run_value key ls = Inr n \<longleftrightarrow> (\<exists>v. run_values key ls = [v] \<and> RUN_ID v \<and> length v \<le> 4300 \<and> int_of_digits v = n)"
    by (auto simp: run_value_def Let_def res_simps int_of_text_def length_Suc_conv)
  then show ?thesis by (auto simp: recorded_def RUN_ID_iff)
qed

lemma read_run_ids_iff:
  "read_run_ids document = Inr (i, j) \<longleftrightarrow> (\<exists>body. read_text document = Inr body \<and>
     recorded (U ''candidate_run_id'') (splitlines body) i \<and>
     recorded (U ''reproduction_run_id'') (splitlines body) j \<and> i \<noteq> j)"
  by (auto simp: read_run_ids_def res_simps run_value_iff split: sum.splits)

subsection \<open>Runs\<close>

text \<open>The metadata of a successful candidate run with a number and a commit.\<close>

definition good_run :: "(pystr, json) dict \<Rightarrow> nat \<Rightarrow> pystr \<Rightarrow> bool" where
  "good_run run n sha \<longleftrightarrow> keys run = RUN_FIELDS \<and> hex_id 40 sha \<and>
     jget run (U ''databaseId'') = JInt (int n) \<and> jget run (U ''workflowName'') = JStr (U ''Release candidate'') \<and>
     jget run (U ''event'') = JStr (U ''workflow_dispatch'') \<and> jget run (U ''status'') = JStr (U ''completed'') \<and>
     jget run (U ''conclusion'') = JStr (U ''success'') \<and> jget run (U ''headSha'') = JStr sha"

definition run_file :: "file_read \<Rightarrow> (pystr, json) dict \<Rightarrow> bool" where
  "run_file f run \<longleftrightarrow> (\<exists>body. read_text f = Inr body \<and> json_loads default_hooks body = Inr (JObj run))"

lemma parse_run_iff: "parse_run f = Inr run \<longleftrightarrow> run_file f run \<and> keys run = RUN_FIELDS"
proof -
  have "is_obj v \<and> obj_items v = run \<longleftrightarrow> v = JObj run" for v by (cases v) auto
  then show ?thesis
    by (fastforce simp: parse_run_def run_file_def res_simps split: sum.splits)
qed

lemma exact_int_iff: "is_exact_int v \<and> int_of v = n \<longleftrightarrow> v = JInt n"
  by (cases v) auto

lemma verify_run_iff:
  "keys run = RUN_FIELDS \<Longrightarrow> verify_run run n sha = Inr u \<longleftrightarrow> good_run run n sha"
  by (auto simp: verify_run_def good_run_def res_simps exact_int_iff)

lemma verify_run_pair_iff:
  assumes "keys c = RUN_FIELDS" "keys r = RUN_FIELDS"
  shows "verify_run_pair c r i j = Inr sha \<longleftrightarrow> good_run c i sha \<and> good_run r j sha"
proof -
  have "is_str (jget c (U ''headSha'')) \<and> str_of (jget c (U ''headSha'')) = sha \<longleftrightarrow> jget c (U ''headSha'') = JStr sha"
    by (cases "jget c (U ''headSha'')") auto
  then show ?thesis
    unfolding verify_run_pair_def Let_def andThen_eq_Inr run_require_eq
      verify_run_iff [OF assms(1)] verify_run_iff [OF assms(2)]
    by (auto simp: good_run_def)
qed

text \<open>C15. \<open>release_runs.py verify\<close> prints two run numbers and a commit exactly when the record has
  one line for each of the two keys, with the canonical numerals of two different positive
  numbers, and the two metadata files are JSON objects with exactly the expected fields that
  describe successful dispatched candidate runs with those numbers and that one commit.\<close>

theorem runs_verified_exact:
  "runs_output document (Some (c_file, r_file)) = Inr out \<longleftrightarrow> (\<exists>body i j sha c r.
     read_text document = Inr body \<and>
     recorded (U ''candidate_run_id'') (splitlines body) i \<and>
     recorded (U ''reproduction_run_id'') (splitlines body) j \<and> i \<noteq> j \<and>
     run_file c_file c \<and> run_file r_file r \<and> good_run c i sha \<and> good_run r j sha \<and>
     out = str_nat i @ [32] @ str_nat j @ [32] @ sha)"
proof -
  have pair: "parse_run c_file = Inr c \<and> parse_run r_file = Inr r \<and> verify_run_pair c r i j = Inr sha \<longleftrightarrow>
      run_file c_file c \<and> run_file r_file r \<and> good_run c i sha \<and> good_run r j sha" for c r i j sha
    using verify_run_pair_iff [of c r i j sha] by (auto simp: parse_run_iff good_run_def)
  have "runs_output document (Some (c_file, r_file)) = Inr out \<longleftrightarrow> (\<exists>i j c r sha.
      read_run_ids document = Inr (i, j) \<and>
      (parse_run c_file = Inr c \<and> parse_run r_file = Inr r \<and> verify_run_pair c r i j = Inr sha) \<and>
      out = str_nat i @ [32] @ str_nat j @ [32] @ sha)"
    by (auto simp: runs_output_def res_simps)
  then show ?thesis unfolding pair read_run_ids_iff by blast
qed

end
