(* ===== verification/LinkInventory.thy ===== *)
theory LinkInventory
  imports AuditManifest Regex ReleaseRuns "HOL-Library.Product_Lexorder"
begin

section \<open>The static link inventory of an Android program\<close>

text \<open>
  \<open>android-link-inventory.py\<close> extracts the members of static archives from a linker map,
  classifies the archives and writes a sorted table, which the audit of the package reads with
  \<open>verify_android_provenance\<close>.
\<close>

subsection \<open>Extraction\<close>

definition archive_char :: "nat \<Rightarrow> bool" where
  "archive_char c \<longleftrightarrow> \<not> is_space c \<and> c \<noteq> 40 \<and> c \<noteq> 41"

definition member_char :: "nat \<Rightarrow> bool" where
  "member_char c \<longleftrightarrow> c \<noteq> 40 \<and> c \<noteq> 41 \<and> c \<noteq> 13 \<and> c \<noteq> 10"

definition ARCHIVE_MEMBER :: re where
  "ARCHIVE_MEMBER = Seq (Group 1 (Seq (plus (One archive_char)) (lit ''.a'')))
     (Seq (lit ''('') (Seq (Group 2 (plus (One member_char))) (lit '')'')))"

definition category :: "pystr \<Rightarrow> pystr" where
  "category archive =
     (let name = posix_name archive in
      if name = U ''libusb-1.0.a'' then U ''libusb''
      else if startswith name (U ''libdtv_userland_'') \<or> startswith name (U ''libsiano_'') then U ''project''
      else if startswith name (U ''libclang_rt.'') \<or> name \<in> set (map U [''libc++_static.a'', ''libc++abi.a'',
          ''libunwind.a'', ''libgcc.a'', ''libatomic.a'']) then U ''ndk-runtime''
      else U ''other-static'')"

type_synonym link_row = "pystr \<times> pystr \<times> pystr"

definition link_row :: "re_state \<Rightarrow> link_row res" where
  "link_row found =
     (let archive = group 1 found; member = strip (group 2 found) in
      if member = [] \<or> 9 \<in> set member \<or> 92 \<in> set member \<or> startswith member [47] \<or>
         [46, 46] \<in> set (posix_parts member)
      then Inl (ValueError ''invalid archive member'' [])
      else Inr (category archive, posix_name archive, member))"

definition row_text :: "link_row \<Rightarrow> pystr" where
  "row_text row = (case row of (c, a, m) \<Rightarrow> join [9] [c, a, m])"

text \<open>The content of the file that \<open>main\<close> writes; the rows are a set, printed sorted.\<close>

definition link_inventory :: "file_read \<Rightarrow> pystr option \<Rightarrow> bytes res" where
  "link_inventory map_file program =
     andThen (read_text map_file) (\<lambda>body.
     andThen (mapE link_row (re_findall ARCHIVE_MEMBER body)) (\<lambda>rows.
     if rows = [] then Inl (ValueError ''no static archive members found'' [])
     else if (program = None \<or> program = Some (U ''sianod'')) \<and>
        \<not> list_ex (\<lambda>(c, a, m). a = U ''libusb-1.0.a'') rows
     then Inl (ValueError ''libusb-1.0.a members missing'' [])
     else if list_ex (\<lambda>(c, a, m). c = U ''other-static'') rows
     then Inl (ValueError ''unclassified static archive'' [])
     else Inr (utf8_encode (concat (map (\<lambda>l. l @ [10]) (inventory_header # map row_text (sort (remdups rows))))))))"

section \<open>The audit accepts the table\<close>

subsection \<open>What the pattern finds\<close>

definition suffix_state :: "re_state \<Rightarrow> re_state \<Rightarrow> bool" where
  "suffix_state t s \<longleftrightarrow> (\<exists>k. rest t = drop k (rest s))"

lemma suffix_state_refl [simp]: "suffix_state s s"
  by (auto simp: suffix_state_def intro: exI [of _ 0])

lemma suffix_state_trans: "suffix_state t s \<Longrightarrow> suffix_state s u \<Longrightarrow> suffix_state t u"
  by (auto simp: suffix_state_def)

lemma star_iter_suffix:
  "(\<And>s t. t \<in> set (f s) \<Longrightarrow> suffix_state t s) \<Longrightarrow> t \<in> set (star_iter f n s) \<Longrightarrow> suffix_state t s"
  by (induction n arbitrary: s) (auto intro: suffix_state_trans)

lemma lazy_iter_suffix:
  "(\<And>s t. t \<in> set (f s) \<Longrightarrow> suffix_state t s) \<Longrightarrow> t \<in> set (lazy_iter f n s) \<Longrightarrow> suffix_state t s"
  by (induction n arbitrary: s) (auto intro: suffix_state_trans)

lemma matches_suffix: "t \<in> set (matches r s) \<Longrightarrow> suffix_state t s"
proof (induction r arbitrary: s t)
  case (One p)
  then show ?case by (auto simp: matches_One suffix_state_def split: if_splits)
next
  case (Star r)
  show ?case by (rule star_iter_suffix [of "matches r" t "length (rest s)"]) (use Star in auto)
next
  case (LazyStar r)
  show ?case by (rule lazy_iter_suffix [of "matches r" t "length (rest s)"]) (use LazyStar in auto)
next
  case (Group i r)
  then show ?case by (fastforce simp: suffix_state_def)
next
  case (Seq r1 r2)
  then show ?case using suffix_state_trans by fastforce
qed (auto split: if_splits)

lemma findall_from_match:
  "t \<in> set (findall_from n r p s) \<Longrightarrow> \<exists>q u. set u \<subseteq> set s \<and> t \<in> set (matches r \<lparr>prev = q, rest = u, groups = []\<rparr>)"
proof (induction n arbitrary: p s)
  case (Suc n)
  let ?s = "\<lparr>prev = p, rest = s, groups = []\<rparr>"
  have later: ?case if "t \<in> set (findall_from n r q u)" "set u \<subseteq> set s" for q u
    using Suc.IH [OF that(1)] that(2) by blast
  have tail: ?case if "t \<in> set (case s of [] \<Rightarrow> [] | c # s' \<Rightarrow> findall_from n r (Some c) s')"
    using that later by (cases s) auto
  show ?case
  proof (cases "first (matches r ?s)")
    case None
    then show ?thesis using Suc.prems tail by (simp only: findall_from.simps option.case)
  next
    case (Some u)
    then have u: "u \<in> set (matches r ?s)" by (auto simp: first_def split: list.splits)
    then obtain k where k: "rest u = drop k s" using matches_suffix [OF u] by (auto simp: suffix_state_def)
    have "t = u \<or> t \<in> set (findall_from n r (prev u) (rest u)) \<or>
        t \<in> set (case s of [] \<Rightarrow> [] | c # s' \<Rightarrow> findall_from n r (Some c) s')"
      using Suc.prems Some by (auto split: if_splits)
    moreover have ?thesis if "t = u" using u that by blast
    moreover have "set (rest u) \<subseteq> set s" unfolding k by (rule set_drop_subset)
    ultimately show ?thesis using later tail by blast
  qed
qed simp

lemma findall_match:
  "t \<in> set (re_findall r s) \<Longrightarrow> \<exists>q u. set u \<subseteq> set s \<and> t \<in> set (matches r \<lparr>prev = q, rest = u, groups = []\<rparr>)"
  unfolding re_findall_def by (rule findall_from_match)

lemma plus_matches: "t \<in> set (matches (plus (One p)) s) \<Longrightarrow>
  \<exists>k > 0. t = adv k s \<and> k \<le> length (rest s) \<and> list_all p (take k (rest s))"
proof -
  assume "t \<in> set (matches (plus (One p)) s)"
  then have ne: "rest s \<noteq> []" "p (hd (rest s))" and "t \<in> set (matches (Star (One p)) (adv 1 s))"
    by (auto simp: plus_def matches_One split: if_splits)
  then obtain k where k: "k < Suc (length (takeWhile p (drop 1 (rest s))))" "t = adv k (adv 1 s)"
    unfolding matches_star_One by (auto simp del: upt_Suc)
  obtain c r where r: "rest s = c # r" using ne(1) by (cases "rest s") auto
  have "k \<le> length (takeWhile p r)" using k(1) r by simp
  then have "take k r = take k (takeWhile p r)" "k \<le> length r"
    using takeWhile_eq_take [of p r] length_takeWhile_le [of p r] by (metis min.absorb1 take_take, linarith)
  then have "list_all p (take (Suc k) (rest s))" "Suc k \<le> length (rest s)"
    using ne(2) r by (auto simp: list_all_iff dest!: in_set_takeD set_takeWhileD)
  then show ?thesis using k(2) by (intro exI [of _ "Suc k"]) (simp add: adv_adv)
qed

lemma matches_lit: "matches (lit w) s = (if startswith (rest s) (U w) then [adv (length w) s] else [])"
  by (simp add: lit_def matches_lit_re)

lemma archive_member_groups:
  assumes "t \<in> set (matches ARCHIVE_MEMBER s)" and "groups s = []"
  shows "(\<exists>a. group 1 t = a @ U ''.a'' \<and> list_all archive_char (group 1 t)) \<and> set (group 1 t) \<subseteq> set (rest s) \<and>
    list_all member_char (group 2 t) \<and> set (group 2 t) \<subseteq> set (rest s)"
proof -
  define u where "u b = adv 1 (b\<lparr>groups := dict_set (groups b) 1 (take (length (rest s) - length (rest b)) (rest s))\<rparr>)" for b
  from assms(1) obtain a d where "a \<in> set (matches (plus (One archive_char)) s)"
    and a: "startswith (rest a) (U ''.a'')" and d: "d \<in> set (matches (plus (One member_char)) (u (adv 2 a)))"
    and t: "t = adv 1 (d\<lparr>groups := dict_set (groups d) 2 (take (length (rest (u (adv 2 a))) - length (rest d)) (rest (u (adv 2 a))))\<rparr>)"
    unfolding ARCHIVE_MEMBER_def matches.simps(3,7) matches_lit u_def
    by (auto split: if_splits simp: numeral_2_eq_2 simp del: adv_sel)
  then obtain k where k: "k > 0" "a = adv k s" "k \<le> length (rest s)" "list_all archive_char (take k (rest s))"
    using plus_matches by blast
  obtain m where m: "m > 0" "d = adv m (u (adv 2 a))" "m \<le> length (rest (u (adv 2 a)))"
      "list_all member_char (take m (rest (u (adv 2 a))))"
    using plus_matches [OF d] by blast
  have r: "rest (u (adv 2 a)) = drop (k + 3) (rest s)" by (simp add: u_def k(2) numeral_3_eq_3)
  have dot_a: "take 2 (drop k (rest s)) = U ''.a''" using a k(2) by (simp add: startswith_def numeral_2_eq_2)
  have len: "k + 2 \<le> length (rest s)" using arg_cong [OF dot_a, of length] by simp
  have k2: "take (k + 2) (rest s) = take k (rest s) @ U ''.a''" unfolding take_add dot_a ..
  have gu: "groups (u (adv 2 a)) = [(1, take (k + 2) (rest s))]"
    using len by (simp add: u_def k(2) assms(2))
  have g: "groups t = [(1, take (k + 2) (rest s)), (2, take m (drop (k + 3) (rest s)))]"
  proof -
    have "length (rest (u (adv 2 a))) - length (rest d) = m" using m(2,3) by simp
    then show ?thesis by (simp add: t m(2) gu r)
  qed
  have "list_all archive_char (take (k + 2) (rest s))"
    unfolding k2 list_all_append using k(4) by (simp add: U_Cons archive_char_def is_space_def)
  moreover have "set (take m (drop (k + 3) (rest s))) \<subseteq> set (rest s)"
    using set_take_subset set_drop_subset by (rule subset_trans)
  moreover have "set (take (k + 2) (rest s)) \<subseteq> set (rest s)" by (rule set_take_subset)
  ultimately show ?thesis using m(4) k2 by (simp add: group_def g r)
qed

subsection \<open>The rows\<close>

definition row_ok :: "link_row \<Rightarrow> bool" where
  "row_ok row = (case row of (c, a, m) \<Rightarrow>
     c \<in> {U ''libusb'', U ''ndk-runtime'', U ''project''} \<and> endswith a (U ''.a'') \<and> m \<noteq> [] \<and>
     list_all (\<lambda>x. \<not> is_linebreak x \<and> x \<noteq> 9 \<and> is_scalar x) (c @ a @ m) \<and> (a = U ''libusb-1.0.a'' \<longrightarrow> c = U ''libusb''))"

lemma split_on_append:
  "c \<notin> set w \<Longrightarrow> split_on c (p @ w) = butlast (split_on c p) @ [last (split_on c p) @ w]"
proof (induction p)
  case Nil
  then show ?case by (simp add: split_on_no_sep)
next
  case (Cons x p)
  obtain y ys where "split_on c p = y # ys" using split_on_nonempty [of c p] by (cases "split_on c p") blast+
  then show ?case using Cons by (cases ys) auto
qed

lemma split_on_part_subset: "q \<in> set (split_on c xs) \<Longrightarrow> set q \<subseteq> set xs"
  by (induction xs arbitrary: q) (fastforce split: if_splits list.splits)+

lemma posix_name_suffix:
  assumes "47 \<notin> set w" "w \<noteq> []" "w \<noteq> [46]"
  shows "\<exists>v. posix_name (p @ w) = v @ w \<and> set v \<subseteq> set p"
proof -
  let ?v = "last (split_on 47 p)"
  have "?v @ w \<noteq> [46]" using assms by (cases ?v) auto
  then have "posix_name (p @ w) = ?v @ w"
    using assms(2) by (simp add: posix_name_def split_on_append [OF assms(1)])
  moreover have "set ?v \<subseteq> set p" by (rule split_on_part_subset [OF last_in_set [OF split_on_nonempty]])
  ultimately show ?thesis by blast
qed

lemma category_cases:
  "category a \<in> {U ''libusb'', U ''ndk-runtime'', U ''project'', U ''other-static''}"
  "posix_name a = U ''libusb-1.0.a'' \<Longrightarrow> category a = U ''libusb''"
  by (simp_all add: category_def Let_def)

lemma category_text: "c \<in> {U ''libusb'', U ''ndk-runtime'', U ''project''} \<Longrightarrow>
  list_all (\<lambda>x. \<not> is_linebreak x \<and> x \<noteq> 9 \<and> is_scalar x) c"
  by (elim insertE emptyE; simp add: U_Cons is_linebreak_def is_scalar_def)

lemma strip_subset: "set (strip s) \<subseteq> set s"
  by (auto simp: strip_def lstrip_def dest!: set_dropWhileD)

definition plain_breaks :: "pystr \<Rightarrow> bool" where
  "plain_breaks s \<longleftrightarrow> list_all (\<lambda>c. is_linebreak c \<longrightarrow> c = 10 \<or> c = 13) s"

lemma link_row_ok:
  assumes t: "t \<in> set (re_findall ARCHIVE_MEMBER body)" and row: "link_row t = Inr row"
    and other: "fst row \<noteq> U ''other-static''" and body: "plain_breaks body" "list_all is_scalar body"
  shows "row_ok row"
proof -
  obtain q u where u: "set u \<subseteq> set body" "t \<in> set (matches ARCHIVE_MEMBER \<lparr>prev = q, rest = u, groups = []\<rparr>)"
    using findall_match [OF t] by blast
  note g = archive_member_groups [OF u(2) re_state.select_convs(3), unfolded re_state.simps]
  then obtain a where a1: "group 1 t = a @ U ''.a''" by blast
  have a2: "list_all archive_char (group 1 t)" "set (group 1 t) \<subseteq> set body"
    and m: "list_all member_char (group 2 t)" "set (group 2 t) \<subseteq> set body"
    using g u(1) by blast+
  note a = a1 a2
  from row have r: "row = (category (group 1 t), posix_name (group 1 t), strip (group 2 t))"
    and ne: "strip (group 2 t) \<noteq> []" "9 \<notin> set (strip (group 2 t))"
    by (auto simp: link_row_def Let_def split: if_splits)
  have "\<not> is_linebreak x \<and> is_scalar x" if "x \<in> set (strip (group 2 t))" for x
  proof -
    have "x \<in> set (group 2 t)" "x \<in> set body" using that strip_subset m(2) by blast+
    then show ?thesis using m(1) body by (auto simp: list_all_iff member_char_def plain_breaks_def)
  qed
  then have member: "list_all (\<lambda>x. \<not> is_linebreak x \<and> x \<noteq> 9 \<and> is_scalar x) (strip (group 2 t))"
    using ne(2) by (auto simp: list_all_iff)
  obtain v where v: "posix_name (group 1 t) = v @ U ''.a''" "set v \<subseteq> set a"
    using posix_name_suffix [of "U ''.a''" a] a(1) by (auto simp: U_Cons)
  have "\<not> is_linebreak x \<and> x \<noteq> 9 \<and> is_scalar x" if "x \<in> set (group 1 t)" for x
    using that a(2,3) body(2) by (auto simp: list_all_iff archive_char_def is_space_def is_linebreak_def)
  then have archive: "list_all (\<lambda>x. \<not> is_linebreak x \<and> x \<noteq> 9 \<and> is_scalar x) (posix_name (group 1 t))"
    using v a(1) by (auto simp: list_all_iff)
  have c: "category (group 1 t) \<in> {U ''libusb'', U ''ndk-runtime'', U ''project''}"
    using category_cases(1) [of "group 1 t"] other r by auto
  show ?thesis
    unfolding row_ok_def r prod.case list_all_append
    using c category_text [OF c] archive member ne(1) category_cases(2) v(1) by simp
qed

lemma mapE_source: "mapE f xs = Inr ys \<Longrightarrow> y \<in> set ys \<Longrightarrow> \<exists>x \<in> set xs. f x = Inr y"
  by (induction xs arbitrary: ys) (auto simp: andThen_eq_Inr)

subsection \<open>The table\<close>

lemma rows_accepted:
  assumes "list_all row_ok rows" "distinct rows" "set rows \<inter> set seen = {}"
  shows "foldE inventory_row seen (map row_text rows) = Inr (seen @ rows)"
  using assms
proof (induction rows arbitrary: seen)
  case (Cons row rows)
  obtain c a m where row: "row = (c, a, m)" by (cases row)
  have "9 \<notin> set p" if "p \<in> set [c, a, m]" for p
    using that Cons.prems(1) row by (auto simp: row_ok_def list_all_iff)
  then have "split_on 9 (row_text row) = [c, a, m]" unfolding row_text_def row prod.case by (intro split_on_join) auto
  then have "inventory_row seen (row_text row) = Inr (seen @ [row])"
    using Cons.prems row by (auto simp: inventory_row_def row_ok_def)
  then show ?case using Cons by auto
qed simp

lemma row_text_ok: "row_ok row \<Longrightarrow> x \<in> set (row_text row) \<Longrightarrow> \<not> is_linebreak x \<and> is_scalar x"
proof -
  assume ok: "row_ok row" and x: "x \<in> set (row_text row)"
  obtain c a m where row: "row = (c, a, m)" by (cases row)
  have "x = 9 \<or> x \<in> set (c @ a @ m)" using x by (auto simp: row row_text_def)
  moreover have "list_all (\<lambda>x. \<not> is_linebreak x \<and> x \<noteq> 9 \<and> is_scalar x) (c @ a @ m)"
    using ok unfolding row_ok_def row prod.case by blast
  moreover have "\<not> is_linebreak 9 \<and> is_scalar 9" by (simp add: is_linebreak_def is_scalar_def)
  ultimately show ?thesis unfolding list_all_iff by blast
qed

lemma header_ok: "list_all (\<lambda>x. \<not> is_linebreak x \<and> is_scalar x) inventory_header"
  by (simp add: inventory_header_def U_Cons is_linebreak_def is_scalar_def)

lemma inventory_accepted:
  assumes ok: "list_all row_ok rows" and "distinct rows"
    and libusb: "program = U ''sianod'' \<Longrightarrow> list_ex (\<lambda>(c, a, m). a = U ''libusb-1.0.a'') rows"
  defines "table \<equiv> concat (map (\<lambda>l. l @ [10]) (inventory_header # map row_text rows))"
  shows "utf8_decode (utf8_encode table) = Inr table" and "verify_inventory program table = Inr ()"
proof -
  have chars: "\<not> is_linebreak x \<and> is_scalar x" if "l \<in> set (inventory_header # map row_text rows)" "x \<in> set l" for l x
  proof -
    from that(1) consider "l = inventory_header" | row where "row \<in> set rows" "l = row_text row" by auto
    then show ?thesis
    proof cases
      case 1
      then show ?thesis using header_ok that(2) unfolding list_all_iff by blast
    next
      case 2
      then show ?thesis using row_text_ok [of row x] ok that(2) by (simp add: list_all_iff)
    qed
  qed
  have "is_scalar x" if x: "x \<in> set table" for x
  proof -
    from x obtain l where "l \<in> set (inventory_header # map row_text rows)" "x \<in> set (l @ [10])"
      unfolding table_def set_concat set_map by blast
    then show ?thesis using chars [of l x] by (auto simp: is_scalar_def)
  qed
  then have "list_all is_scalar table" unfolding list_all_iff by blast
  then show "utf8_decode (utf8_encode table) = Inr table" by (rule utf8_decode_encode)
  have "splitlines (table @ []) = (inventory_header # map row_text rows) @ splitlines []"
    unfolding table_def using chars by (intro splitlines_concat_lines) blast
  then have lines: "splitlines table = inventory_header # map row_text rows" by simp
  have "foldE inventory_row [] (map row_text rows) = Inr rows"
    using rows_accepted [OF ok assms(2), of "[]"] by simp
  moreover have "list_ex (\<lambda>(c, a, m). c = U ''libusb'' \<and> a = U ''libusb-1.0.a'') rows" if "program = U ''sianod''"
    using libusb [OF that] ok by (fastforce simp: list_ex_iff list_all_iff row_ok_def)
  ultimately show "verify_inventory program table = Inr ()"
    by (auto simp: verify_inventory_def lines)
qed

text \<open>C16. The table that \<open>android-link-inventory.py\<close> writes passes the inventory check of the
  artifact audit, for \<open>sianod\<close> when it was written for \<open>sianod\<close> or for no program, and for the
  other programs always. The linker map is assumed to have no line separators but newline and
  carriage return.\<close>

theorem link_inventory_accepted:
  assumes inv: "link_inventory (Content data) program = Inr table" and body: "utf8_decode data = Inr body"
    and breaks: "plain_breaks body" and p: "p = U ''sianod'' \<Longrightarrow> program \<in> {None, Some (U ''sianod'')}"
  shows "andThen (utf8_decode table) (verify_inventory p) = Inr ()"
proof -
  define s where "s = universal_newlines body"
  have read: "read_text (Content data) = Inr s" by (simp add: read_text_def body s_def)
  have s: "list_all is_scalar s" "plain_breaks s"
    using read_text_scalar [OF read] breaks universal_newlines_set [of body]
    by (auto simp: plain_breaks_def list_all_iff s_def)
  from inv obtain rows where rows: "mapE link_row (re_findall ARCHIVE_MEMBER s) = Inr rows"
    and lib: "program \<in> {None, Some (U ''sianod'')} \<Longrightarrow> list_ex (\<lambda>(c, a, m). a = U ''libusb-1.0.a'') rows"
    and other: "\<not> list_ex (\<lambda>(c, a, m). c = U ''other-static'') rows"
    and table: "table = utf8_encode (concat (map (\<lambda>l. l @ [10]) (inventory_header # map row_text (sort (remdups rows)))))"
    unfolding link_inventory_def read andThen_simps by (auto simp: andThen_eq_Inr split: if_splits)
  have "row_ok row" if row: "row \<in> set rows" for row
  proof -
    obtain t where "t \<in> set (re_findall ARCHIVE_MEMBER s)" "link_row t = Inr row"
      using mapE_source [OF rows row] by blast
    moreover have "fst row \<noteq> U ''other-static''" using other row by (auto simp: list_ex_iff)
    ultimately show ?thesis using link_row_ok s by blast
  qed
  then have "list_all row_ok (sort (remdups rows))" by (simp add: list_all_iff)
  moreover have "list_ex (\<lambda>(c, a, m). a = U ''libusb-1.0.a'') (sort (remdups rows))" if "p = U ''sianod''"
    using lib p [OF that] by (auto simp: list_ex_iff)
  ultimately show ?thesis
    using inventory_accepted [of "sort (remdups rows)" p] by (simp add: table)
qed

definition sample_map :: bytes where
  "sample_map = B ''libusb-1.0.a(x)''"

lemma sample_found:
  "\<exists>t. re_findall ARCHIVE_MEMBER (U ''libusb-1.0.a(x)'') = [t] \<and> group 1 t = U ''libusb-1.0.a'' \<and> group 2 t = U ''x''"
  by (simp add: re_findall_def ARCHIVE_MEMBER_def plus_def matches_One lit_def star_iter_One U_Cons archive_char_def
      member_char_def is_space_def adv_def first_def group_def)

lemma sample_text: "utf8_decode sample_map = Inr (U ''libusb-1.0.a(x)'')" "plain_breaks (U ''libusb-1.0.a(x)'')"
  "universal_newlines (U ''libusb-1.0.a(x)'') = U ''libusb-1.0.a(x)''"
  by (simp_all add: sample_map_def B_def utf8_decode_def utf8_points.simps plain_breaks_def U_Cons is_linebreak_def)

theorem link_inventory_accepted_witness:
  "\<exists>table. link_inventory (Content sample_map) None = Inr table \<and>
     andThen (utf8_decode table) (verify_inventory (U ''sianod'')) = Inr ()"
proof -
  obtain t where t: "re_findall ARCHIVE_MEMBER (U ''libusb-1.0.a(x)'') = [t]" "group 1 t = U ''libusb-1.0.a''" "group 2 t = U ''x''"
    using sample_found by blast
  have "link_row t = Inr (U ''libusb'', U ''libusb-1.0.a'', U ''x'')"
    unfolding link_row_def t(2,3)
    by (simp add: strip_def lstrip_def is_space_def category_def posix_name_def posix_parts_def U_Cons startswith_def)
  then obtain table where "link_inventory (Content sample_map) None = Inr table"
    by (simp add: link_inventory_def read_text_def sample_text t(1))
  then show ?thesis using link_inventory_accepted [OF _ sample_text(1,2), of None table "U ''sianod''"] by auto
qed

end
