(* ===== verification/Packaging.thy ===== *)
theory Packaging
  imports AuditBinary DarwinText JsonDump
begin

unbundle bit_operations_syntax

section \<open>Assembling a platform archive\<close>

text \<open>
  \<open>package-artifact.py\<close>: the checks on the inputs, the files copied and written below the
  stage directory for each platform, the dependency notice, the manifest, the checksums, the
  two deterministic archive writers, and \<open>main\<close>, which audits what it wrote.

  The stage directory is a dictionary from relative path to content and permission bits; the
  input directories are functions from relative path to file. Every file of the stage is made
  by \<open>copyfile\<close> or \<open>open\<close>, so no symbolic link reaches the writers. Parameters: the readers
  and writers of compressed archives, and the permissions of a file created under the umask.
\<close>

subsection \<open>Files\<close>

record input_file = disk_file +
  f_mode :: nat

type_synonym stage = "(pystr, bytes \<times> nat) dict"

text \<open>What \<open>tarfile\<close> tells of a member of a source tree.\<close>

datatype tar_kind = Regular_file | Directory | Symbolic_link | Hard_link | Special

record tree_info =
  tr_name :: pystr
  tr_kind :: tar_kind
  tr_mode :: nat
  tr_content :: "bytes option res"

record package_lib =
  bz2_members :: "bytes \<Rightarrow> tree_info list \<times> bool"
  tar_gz :: "tar_info list \<Rightarrow> bytes"
  zip_bytes :: "zip_info list \<Rightarrow> bytes"
  created_mode :: nat

definition read_bytes :: "'a disk_file_scheme \<Rightarrow> bytes res" where
  "read_bytes path = (if f_is_file path then Inr (f_data path) else Inl (OSError ''cannot read {}'' [f_name path]))"

definition sha256_path :: "'a disk_file_scheme \<Rightarrow> pystr res" where
  "sha256_path path = andThen (read_bytes path) (\<lambda>data. Inr (sha256_bytes data))"

definition copy_regular :: "stage \<Rightarrow> input_file \<Rightarrow> pystr \<Rightarrow> nat option \<Rightarrow> stage res" where
  "copy_regular stage source destination mode =
     (if f_is_symlink source \<or> \<not> f_is_file source
      then fail ''package input must be an ordinary file: {}'' [f_name source]
      else Inr (dict_set stage destination
        (f_data source, case mode of None \<Rightarrow> S_IMODE (f_mode source) | Some m \<Rightarrow> m)))"

definition copy_all :: "stage \<Rightarrow> (input_file \<times> pystr \<times> nat option) list \<Rightarrow> stage res" where
  "copy_all = foldE (\<lambda>stage (source, destination, mode). copy_regular stage source destination mode)"

definition write_text :: "stage \<Rightarrow> pystr \<Rightarrow> pystr \<Rightarrow> stage" where
  "write_text stage path text' = dict_set stage path (utf8_encode text', 0x1A4)"

text \<open>\<open>sorted(stage.rglob("*"))\<close>: paths compare by their components.\<close>

definition stage_files :: "stage \<Rightarrow> stage" where
  "stage_files stage = sort_key (\<lambda>m. split_on 47 (fst m)) stage"

subsection \<open>Build properties and the libusb source\<close>

fun parse_properties_loop :: "(pystr, pystr) dict \<Rightarrow> pystr list \<Rightarrow> (pystr, pystr) dict res" where
  "parse_properties_loop result [] = Inr result"
| "parse_properties_loop result (line # lines) =
     (if line = [] \<or> 61 \<notin> set line then fail ''Android build.properties is malformed'' []
      else (let (key, value) = split1 61 line in
        if key \<in> keys result then fail ''duplicate Android build property: {}'' [key]
        else parse_properties_loop (result @ [(key, value)]) lines))"

definition parse_properties :: "pystr \<Rightarrow> (pystr, pystr) dict res" where
  "parse_properties data = parse_properties_loop [] (splitlines data)"

definition libusb_root :: pystr where
  "libusb_root = U ''libusb-'' @ LIBUSB_VERSION"

fun libusb_members :: "pystr list \<Rightarrow> tree_info list \<Rightarrow> unit res" where
  "libusb_members names [] = Inr ()"
| "libusb_members names (member # members) =
     (if tr_name member \<in> set names then fail ''duplicate libusb source member: {}'' [tr_name member]
      else if tr_name member \<noteq> libusb_root \<and> \<not> startswith (tr_name member) (libusb_root @ [47])
      then fail ''unexpected libusb source member: {}'' [tr_name member]
      else if tr_kind member \<noteq> Regular_file \<and> tr_kind member \<noteq> Directory
      then fail ''libusb source member is not a regular file: {}'' [tr_name member]
      else libusb_members (tr_name member # names) members)"

text \<open>\<open>archive.getmember(name)\<close>, which prefers the last of several.\<close>

definition getmember :: "tree_info list \<Rightarrow> pystr \<Rightarrow> tree_info res" where
  "getmember members name = (case filter (\<lambda>m. tr_name m = name) (rev members) of
       [] \<Rightarrow> Inl (KeyError name)
     | m # _ \<Rightarrow> Inr m)"

definition libusb_copying :: "package_lib \<Rightarrow> bytes \<Rightarrow> bytes res" where
  "libusb_copying lib data = (case bz2_members lib data of (members, broken) \<Rightarrow>
     if broken then Inl (OSError ''TarError'' [])
     else
     andThen (libusb_members [] members) (\<lambda>_.
     andThen (getmember members (libusb_root @ U ''/COPYING'')) (\<lambda>member.
     andThen (tr_content member) (\<lambda>stream. case stream of
         None \<Rightarrow> fail ''libusb source has no COPYING'' []
       | Some copying \<Rightarrow> Inr copying))))"

text \<open>\<open>except (OSError, tarfile.TarError, KeyError)\<close>; an audit error passes.\<close>

definition inspect_source :: "'a res \<Rightarrow> 'a res" where
  "inspect_source m = (case m of
       Inl (OSError _ _) \<Rightarrow> fail ''cannot inspect libusb source'' []
     | Inl (KeyError _) \<Rightarrow> fail ''cannot inspect libusb source'' []
     | _ \<Rightarrow> m)"

lemma inspect_source_eq [res_simps]: "inspect_source m = Inr x \<longleftrightarrow> m = Inr x"
  by (auto simp: inspect_source_def fail_def split: sum.splits exc.splits)

definition verify_source_archive :: "package_lib \<Rightarrow> stage \<Rightarrow> input_file \<Rightarrow> pystr \<Rightarrow> stage res" where
  "verify_source_archive lib stage path destination =
     (if f_name path \<noteq> libusb_root @ U ''.tar.bz2''
      then fail ''libusb source is not the pinned libusb {} archive'' [LIBUSB_VERSION]
      else
      andThen (sha256_path path) (\<lambda>digest.
      if digest \<noteq> LIBUSB_SOURCE_SHA256
      then fail ''libusb source is not the pinned libusb {} archive'' [LIBUSB_VERSION]
      else
      andThen (inspect_source (libusb_copying lib (f_data path))) (\<lambda>copying.
      case utf8_decode copying of
        Inl _ \<Rightarrow> fail ''libusb COPYING is not UTF-8'' []
      | Inr copying_text \<Rightarrow> Inr (write_text stage (destination @ U ''/COPYING'') copying_text))))"

subsection \<open>The archive writers\<close>

definition tar_member :: "pystr \<times> bytes \<times> nat \<Rightarrow> tar_info" where
  "tar_member m = (case m of (name, data, mode) \<Rightarrow>
     \<lparr>ti_name = name, ti_isfile = True, ti_sparse = False, ti_mode = S_IMODE mode,
      ti_size = length data, ti_content = Inr (Some data)\<rparr>)"

definition write_deterministic_tar :: "package_lib \<Rightarrow> stage \<Rightarrow> bytes" where
  "write_deterministic_tar lib stage = tar_gz lib (map tar_member (stage_files stage))"

text \<open>
  \<open>ZipFile.writestr\<close> sets bit 11 of the flags for a name outside ASCII; method 8 is deflate.
\<close>

definition zip_member :: "pystr \<times> bytes \<times> nat \<Rightarrow> zip_info" where
  "zip_member m = (case m of (name, data, mode) \<Rightarrow>
     \<lparr>zi_filename = name, zi_external_attr = push_bit 16 (of_nat (0x8000 OR S_IMODE mode)),
      zi_create_system = 3, zi_flag_bits = (if list_all (\<lambda>c. c < 128) name then 0 else 0x800),
      zi_compress_type = 8, zi_file_size = length data, zi_content = Inr data\<rparr>)"

definition write_deterministic_zip :: "package_lib \<Rightarrow> stage \<Rightarrow> bytes" where
  "write_deterministic_zip lib stage = zip_bytes lib (map zip_member (stage_files stage))"

definition checksum_rows :: "stage \<Rightarrow> pystr list" where
  "checksum_rows stage = map (\<lambda>(name, data, mode). sha256_bytes data @ [32, 32] @ name)
     (filter (\<lambda>m. posix_name (fst m) \<noteq> U ''SHA256SUMS'') (stage_files stage))"

definition write_checksums :: "stage \<Rightarrow> stage" where
  "write_checksums stage = write_text stage (U ''SHA256SUMS'') (join [10] (checksum_rows stage) @ [10])"

subsection \<open>The dependency notice\<close>

text \<open>\<open>text.replace(old, new)\<close> for a placeholder \<open>old\<close>, which is not empty.\<close>

function replace_text :: "pystr \<Rightarrow> pystr \<Rightarrow> pystr \<Rightarrow> pystr" where
  "replace_text old new [] = []"
| "replace_text old new (c # s) =
     (if startswith (c # s) old then new @ replace_text old new (drop (length old - 1) s)
      else c # replace_text old new s)"
  by pat_completeness auto
termination by (relation "measure (\<lambda>(old, new, s). length s)") auto

definition rstrip_newlines :: "pystr \<Rightarrow> pystr" where
  "rstrip_newlines s = rev (dropWhile (\<lambda>c. c = 10) (rev s))"

definition fld :: "string \<Rightarrow> pystr \<Rightarrow> pystr" where
  "fld key value = U key @ [61] @ value"

definition dict_get :: "(pystr, pystr) dict \<Rightarrow> string \<Rightarrow> string \<Rightarrow> pystr" where
  "dict_get d key dflt = (case map_of d (U key) of None \<Rightarrow> U dflt | Some v \<Rightarrow> v)"

definition is_linux_package :: "pystr \<Rightarrow> bool" where
  "is_linux_package platform \<longleftrightarrow> startswith platform (U ''linux-'')"

definition read_revision :: "(pystr \<Rightarrow> input_file) \<Rightarrow> pystr \<Rightarrow> pystr res" where
  "read_revision repo_root name =
     andThen (read_bytes (repo_root (U ''cmake/'' @ name @ U ''.revision''))) (\<lambda>data.
     andThen (ascii_decode data) (\<lambda>body. Inr (strip (universal_newlines body))))"

definition pin_fields :: "(pystr \<Rightarrow> input_file) \<Rightarrow> pystr list res" where
  "pin_fields repo_root = andThen (mapE (\<lambda>name.
     andThen (read_revision repo_root name) (\<lambda>revision.
       if \<not> hex_id 40 revision then fail ''invalid {} source pin'' [name]
       else Inr [U ''dependency.'' @ name @ U ''.commit='' @ revision,
         U ''dependency.'' @ name @ U ''.source=third_party/'' @ name @ [47]]))
     [U ''dtv-userland-core'', U ''px4-userland'']) (\<lambda>rows. Inr (concat rows))"

definition common_fields :: "pystr \<Rightarrow> pystr \<Rightarrow> pystr list" where
  "common_fields version source_ref =
     [fld ''source.ref'' source_ref, fld ''source.archive'' (source_archive_name version),
      fld ''firmware.url'' FIRMWARE_URL, fld ''firmware.sha256'' FIRMWARE_SHA256,
      fld ''firmware.license.url'' FIRMWARE_LICENSE_URL,
      fld ''firmware.license.sha256'' FIRMWARE_LICENSE_SHA256]"

definition android_fields :: "pystr option \<Rightarrow> (pystr, pystr) dict option \<Rightarrow> pystr list res" where
  "android_fields build_properties ndk_hashes =
     andThen (parse_properties (case build_properties of None \<Rightarrow> [] | Some s \<Rightarrow> s)) (\<lambda>property_map.
     if \<not> startswith (dict_get property_map ''ndk_revision'' '''') (U ''27.'')
     then fail ''Android package requires NDK r27 evidence'' []
     else (case ndk_hashes of
         None \<Rightarrow> fail ''Android package requires all NDK notice hashes'' []
       | Some hashes \<Rightarrow>
           if keys hashes \<noteq> {U ''source_properties'', U ''notice'', U ''notice_toolchain''}
           then fail ''Android package requires all NDK notice hashes'' []
           else Inr
            [fld ''ndk_revision'' (dict_get property_map ''ndk_revision'' ''''),
             fld ''ndk.source_properties.sha256'' (dict_get hashes ''source_properties'' ''''),
             fld ''ndk.notice.sha256'' (dict_get hashes ''notice'' ''''),
             fld ''ndk.notice_toolchain.sha256'' (dict_get hashes ''notice_toolchain'' ''''),
             fld ''dependency.libusb.version'' LIBUSB_VERSION,
             U ''dependency.libusb.linkage=static'',
             U ''dependency.libusb.license=LGPL-2.1-or-later'',
             fld ''corresponding-source'' (U ''libusb/libusb-'' @ LIBUSB_VERSION @ U ''.tar.bz2''),
             fld ''corresponding-source.sha256'' LIBUSB_SOURCE_SHA256]))"

definition windows_fields :: "pystr list" where
  "windows_fields =
     [fld ''dependency.libusb.version'' LIBUSB_VERSION,
      U ''dependency.libusb.linkage=dynamic'',
      U ''dependency.libusb.provider=bundled'',
      fld ''libusb.package.url'' WINDOWS_LIBUSB_PACKAGE_URL,
      fld ''libusb.package.sha256'' WINDOWS_LIBUSB_PACKAGE_SHA256,
      fld ''corresponding-source.sha256'' LIBUSB_SOURCE_SHA256]"

definition linux_fields :: "pystr \<Rightarrow> pystr option \<Rightarrow> pystr list res" where
  "linux_fields version build_properties =
     andThen (parse_properties (case build_properties of None \<Rightarrow> [] | Some s \<Rightarrow> s)) (\<lambda>property_map. Inr
     [fld ''dependency.libusb.version'' LIBUSB_VERSION,
      U ''dependency.libusb.linkage=static'',
      U ''dependency.libusb.license=LGPL-2.1-or-later'',
      U ''dependency.libusb.backend=netlink'',
      U ''dependency.libusb.udev=disabled'',
      fld ''corresponding-source'' (source_archive_name version),
      fld ''corresponding-source.path'' (U ''third_party/libusb-'' @ LIBUSB_VERSION @ U ''.tar.bz2''),
      fld ''libusb.source.url'' LIBUSB_SOURCE_URL,
      fld ''libusb.source.sha256'' LIBUSB_SOURCE_SHA256,
      fld ''dependency.libc.version'' (dict_get property_map ''musl_package'' ''unknown''),
      fld ''dependency.compiler.version'' (dict_get property_map ''compiler_version'' ''unknown''),
      fld ''dependency.compiler.target'' (dict_get property_map ''compiler_target'' ''unknown''),
      U ''dependency.runtime=libgcc'',
      fld ''dependency.runtime.version'' (dict_get property_map ''libgcc_archive_owner'' ''unknown''),
      U ''dependency.libstdcxx=static'',
      fld ''dependency.libstdcxx.version'' (dict_get property_map ''libstdcxx_archive_owner'' ''unknown''),
      fld ''runtime-license-members'' (join [44] (sort (map fst LINUX_RUNTIME_LICENSE_SHA256)))])"

definition darwin_fields :: "pystr \<Rightarrow> pystr list" where
  "darwin_fields version =
     [fld ''dependency.libusb.version'' LIBUSB_VERSION,
      U ''dependency.libusb.linkage=static'',
      U ''dependency.libusb.license=LGPL-2.1-or-later'',
      U ''dependency.libusb.backend=darwin'',
      fld ''corresponding-source'' (source_archive_name version),
      fld ''corresponding-source.path'' (U ''third_party/libusb-'' @ LIBUSB_VERSION @ U ''.tar.bz2''),
      fld ''libusb.source.url'' LIBUSB_SOURCE_URL,
      fld ''libusb.source.sha256'' LIBUSB_SOURCE_SHA256]"

definition explanation :: "pystr \<Rightarrow> pystr" where
  "explanation platform =
     (if is_android platform then
        U ''Android statically links libusb; see libusb/COPYING, libusb source, REBUILD.md, NDK notices, and evidence/.''
      else if is_windows platform then
        U ''Windows bundles libusb-1.0.dll; see libusb/NOTICE.txt and the corresponding source archive.''
      else if is_linux_package platform then
        U ''Linux embeds a statically linked libusb '' @ LIBUSB_VERSION
          @ U '' built without udev; see libusb/COPYING and the corresponding source archive.''
      else
        U ''macOS embeds a statically linked libusb '' @ LIBUSB_VERSION
          @ U ''; only macOS system libraries ''
          @ U ''and frameworks are loaded dynamically. See libusb/COPYING and the corresponding source archive.'')"

definition dependency_fields ::
  "(pystr \<Rightarrow> input_file) \<Rightarrow> pystr \<Rightarrow> pystr \<Rightarrow> pystr \<Rightarrow> pystr option \<Rightarrow> (pystr, pystr) dict option \<Rightarrow> pystr list res" where
  "dependency_fields repo_root version platform source_ref build_properties ndk_hashes =
     andThen (pin_fields repo_root) (\<lambda>pins.
     andThen (if is_android platform then android_fields build_properties ndk_hashes
              else if is_windows platform then Inr windows_fields
              else if is_linux_package platform then linux_fields version build_properties
              else Inr (darwin_fields version)) (\<lambda>flds.
     Inr (common_fields version source_ref @ pins @ flds)))"

definition fill_template :: "pystr \<Rightarrow> pystr \<Rightarrow> pystr \<Rightarrow> pystr list \<Rightarrow> pystr" where
  "fill_template template version platform flds =
     rstrip_newlines (replace_text (U ''@DEPENDENCY_TEXT@'') (join [10] flds @ [10, 10] @ explanation platform)
       (replace_text (U ''@PLATFORM@'') platform (replace_text (U ''@VERSION@'') version template))) @ [10]"

definition dependency_notice ::
  "(pystr \<Rightarrow> input_file) \<Rightarrow> pystr \<Rightarrow> pystr \<Rightarrow> pystr \<Rightarrow> pystr option \<Rightarrow> (pystr, pystr) dict option \<Rightarrow> pystr res" where
  "dependency_notice repo_root version platform source_ref build_properties ndk_hashes =
     (let template = repo_root (U ''packaging/DEPENDENCY-NOTICE.txt.in'') in
      if \<not> f_is_file template then fail ''missing dependency notice template: {}'' [f_name template]
      else
      andThen (dependency_fields repo_root version platform source_ref build_properties ndk_hashes) (\<lambda>flds.
      andThen (utf8_decode (f_data template)) (\<lambda>body.
      Inr (fill_template body version platform flds))))"

subsection \<open>The stage\<close>

text \<open>
  The command line: the two input directories, the resolved paths of the single inputs, and
  whether something stands where the archive would be written. \<open>argparse\<close> admits only the
  platforms of \<open>PACKAGE_PLATFORMS\<close>.
\<close>

record package_args =
  a_platform :: pystr
  a_version :: pystr
  a_source_ref :: pystr
  a_build :: "pystr \<Rightarrow> input_file"
  a_repo :: "pystr \<Rightarrow> input_file"
  a_firmware :: input_file
  a_libusb :: "input_file option"
  a_windows :: "input_file option"
  a_output_exists :: bool
  a_output_symlink :: bool

definition check_build_output :: "package_args \<Rightarrow> pystr \<Rightarrow> unit res" where
  "check_build_output args binary_name =
     (let binary = a_build args binary_name;
          evidence_path = a_build args (binary_evidence_name binary_name) in
      if \<not> f_is_file binary \<or> f_is_symlink binary then fail ''missing build output: {}'' [f_name binary]
      else if \<not> f_is_file evidence_path \<or> f_is_symlink evidence_path
      then fail ''missing build-host binary evidence: {}'' [f_name evidence_path]
      else
      andThen (parse_json (f_data evidence_path) (f_name evidence_path)) (\<lambda>evidence.
      if \<not> py_eq evidence (evidence_record (JStr (a_platform args)) (JStr (a_source_ref args))
           binary_name (f_data binary))
      then fail ''build-host evidence is not bound to {}/platform/source'' [binary_name]
      else Inr ()))"

definition check_inputs :: "package_args \<Rightarrow> unit res" where
  "check_inputs args =
     (let platform = a_platform args in
      if \<not> version_re (a_version args) then fail ''version must be strict N.N.N'' []
      else
      andThen (validate_source_ref (a_source_ref args)) (\<lambda>_.
      if (is_android platform \<or> is_linux_package platform \<or> is_darwin platform) \<and> a_libusb args = None
      then fail ''Android, static Linux, and macOS packages require --libusb-source-archive'' []
      else if is_windows platform \<and> (a_windows args = None \<or> a_libusb args = None)
      then fail ''Windows package requires --windows-package and --libusb-source-archive'' []
      else if \<not> f_is_file (a_firmware args) \<or> sha256_bytes (f_data (a_firmware args)) \<noteq> FIRMWARE_SHA256
      then fail ''firmware is not the pinned input'' []
      else
      andThen (read_bytes (a_repo args (U ''VERSION''))) (\<lambda>version_data.
      if version_data \<noteq> ascii_encode (a_version args @ [10])
      then fail ''--version does not match the exact VERSION file'' []
      else
      let license_file = a_repo args (U ''LICENCE.siano'') in
      if \<not> f_is_file license_file \<or> sha256_bytes (f_data license_file) \<noteq> FIRMWARE_LICENSE_SHA256
      then fail ''repository LICENCE.siano does not match the pinned firmware license'' []
      else
      andThen (forE (check_build_output args) (program_names platform)) (\<lambda>_.
      if a_output_exists args \<or> a_output_symlink args
      then fail ''refusing to overwrite existing archive: {}'' [archive_name (a_version args) platform]
      else Inr ()))))"

definition stage_programs :: "package_args \<Rightarrow> stage res" where
  "stage_programs args =
     andThen (copy_all [] (map (\<lambda>name. (a_repo args
         (if name = U ''REBUILD.md'' then U ''packaging/REBUILD.md'' else name), name, None))
       [U ''COPYING'', U ''LICENCE.siano'', U ''README.md'', U ''REBUILD.md''])) (\<lambda>stage.
     andThen (copy_all stage (concat (map (\<lambda>binary_name.
         [(a_build args binary_name, binary_name, if is_windows (a_platform args) then None else Some 0x1ED),
          (a_build args (binary_evidence_name binary_name), binary_evidence_name binary_name, None)])
       (program_names (a_platform args))))) (\<lambda>stage.
     copy_regular stage (a_firmware args) (U ''firmware/isdbt_rio.inp'') None))"

definition stage_libusb :: "package_lib \<Rightarrow> package_args \<Rightarrow> stage \<Rightarrow> stage res" where
  "stage_libusb lib args stage = (case a_libusb args of
       None \<Rightarrow> Inr stage
     | Some source_archive \<Rightarrow>
         andThen (verify_source_archive lib stage source_archive (U ''libusb'')) (\<lambda>stage.
         if is_android (a_platform args)
         then copy_regular stage source_archive (U ''libusb/'' @ libusb_root @ U ''.tar.bz2'') None
         else Inr stage))"

definition staged :: "stage \<Rightarrow> pystr \<Rightarrow> bytes res" where
  "staged stage name = andThen (get_item stage name (OSError ''cannot read {}'' [name])) (\<lambda>f. Inr (fst f))"

definition staged_text :: "stage \<Rightarrow> pystr \<Rightarrow> pystr res" where
  "staged_text stage name = andThen (staged stage name) (\<lambda>data. read_text (Content data))"

definition stage_android ::
  "package_args \<Rightarrow> stage \<Rightarrow> (stage \<times> pystr option \<times> (pystr, pystr) dict option) res" where
  "stage_android args stage =
     (if \<not> is_android (a_platform args) then Inr (stage, None, None)
      else
      andThen (copy_all stage (
         [(a_build args (U ''static-link-inventory.tsv''), U ''evidence/static-link-inventory.tsv'', None)]
         @ map (\<lambda>program. (a_build args (program @ U ''-static-link-inventory.tsv''),
              U ''evidence/'' @ program @ U ''-static-link-inventory.tsv'', None)) [U ''sianod'', U ''sianoctl'']
         @ [(a_build args (U ''build.properties''), U ''evidence/build.properties'', None)]
         @ map (\<lambda>name. (a_build args (U ''ndk/'' @ name), U ''evidence/ndk/'' @ name, None))
             [U ''source.properties'', U ''NOTICE'', U ''NOTICE.toolchain''])) (\<lambda>stage.
      andThen (staged_text stage (U ''evidence/build.properties'')) (\<lambda>build_properties.
      andThen (mapE (\<lambda>(key, name). andThen (staged stage (U ''evidence/ndk/'' @ name)) (\<lambda>data.
            Inr (key, sha256_bytes data)))
          [(U ''source_properties'', U ''source.properties''), (U ''notice'', U ''NOTICE''),
           (U ''notice_toolchain'', U ''NOTICE.toolchain'')]) (\<lambda>ndk_hashes.
      Inr (stage, Some build_properties, Some ndk_hashes)))))"

definition stage_properties ::
  "package_args \<Rightarrow> stage \<Rightarrow> pystr option \<Rightarrow> (stage \<times> pystr option) res" where
  "stage_properties args stage build_properties =
     (if is_linux_package (a_platform args) \<or> is_darwin (a_platform args) then
        andThen (copy_regular stage (a_build args (U ''evidence/build.properties''))
          (U ''evidence/build.properties'') None) (\<lambda>stage.
        andThen (staged_text stage (U ''evidence/build.properties'')) (\<lambda>text'. Inr (stage, Some text')))
      else Inr (stage, build_properties))"

definition stage_license :: "package_args \<Rightarrow> stage \<Rightarrow> pystr \<times> pystr \<Rightarrow> stage res" where
  "stage_license args stage license = (case license of (member, expected) \<Rightarrow>
     let license_input = a_repo args (U ''distribution/licenses/'' @ posix_name member) in
     if \<not> f_is_file license_input \<or> sha256_bytes (f_data license_input) \<noteq> expected
     then fail ''missing/altered runtime license: {}'' [f_name license_input]
     else copy_regular stage license_input member (Some 0x1A4))"

definition stage_linux :: "package_args \<Rightarrow> stage \<Rightarrow> stage res" where
  "stage_linux args stage =
     (if is_linux_package (a_platform args) then
        andThen (foldE (stage_license args) stage LINUX_RUNTIME_LICENSE_SHA256) (\<lambda>stage.
        copy_all stage (map (\<lambda>name. (a_repo args (U ''packaging/mdev/'' @ name), U ''mdev/'' @ name, None))
          [U ''siano-ts-mdev.conf'', U ''siano-ts-mdev.sh'', U ''siano-ts-mdev.start'']))
      else Inr stage)"

definition windows_notice :: "pystr \<Rightarrow> pystr" where
  "windows_notice version = concat (map (\<lambda>line. line @ [10])
     [U ''Bundled DLL: libusb-1.0.dll'',
      U ''Version: '' @ LIBUSB_VERSION,
      U ''Package URL: '' @ WINDOWS_LIBUSB_PACKAGE_URL,
      U ''Package SHA256: '' @ WINDOWS_LIBUSB_PACKAGE_SHA256,
      U ''Corresponding source URL: '' @ LIBUSB_SOURCE_URL,
      U ''Corresponding source SHA256: '' @ LIBUSB_SOURCE_SHA256,
      U ''Project source archive: '' @ source_archive_name version,
      U ''The downloaded 7z package is verified during the build and is not embedded here.'',
      U ''License: LGPL-2.1-or-later; see COPYING.''])"

definition stage_windows :: "package_args \<Rightarrow> stage \<Rightarrow> stage res" where
  "stage_windows args stage =
     (if \<not> is_windows (a_platform args) then Inr stage
      else (case a_windows args of
          None \<Rightarrow> Inl AttributeError
        | Some package \<Rightarrow>
            if \<not> f_is_file package \<or> sha256_bytes (f_data package) \<noteq> WINDOWS_LIBUSB_PACKAGE_SHA256
            then fail ''Windows libusb package is not the pinned {} package'' [LIBUSB_VERSION]
            else
            let dll = a_build args (U ''libusb-1.0.dll'') in
            andThen (read_bytes dll) (\<lambda>data.
            andThen (audit_pe_x64 [] data (f_name dll) False) (\<lambda>_.
            andThen (copy_regular stage dll (U ''libusb-1.0.dll'') None) (\<lambda>stage.
            Inr (write_text stage (U ''libusb/NOTICE.txt'') (windows_notice (a_version args))))))))"

definition package_stage :: "package_lib \<Rightarrow> package_args \<Rightarrow> stage res" where
  "package_stage lib args =
     andThen (stage_programs args) (\<lambda>stage.
     andThen (stage_libusb lib args stage) (\<lambda>stage.
     andThen (stage_android args stage) (\<lambda>(stage, build_properties, ndk_hashes).
     andThen (stage_properties args stage build_properties) (\<lambda>(stage, build_properties).
     andThen (stage_linux args stage) (\<lambda>stage.
     andThen (stage_windows args stage) (\<lambda>stage.
     andThen (dependency_notice (a_repo args) (a_version args) (a_platform args) (a_source_ref args)
         build_properties ndk_hashes) (\<lambda>notice.
     Inr (write_text stage (U ''DEPENDENCY-NOTICE.txt'') notice))))))))"

subsection \<open>The manifest\<close>

definition file_record :: "bytes \<Rightarrow> json" where
  "file_record data = JObj [(U ''size'', JInt (int (length data))), (U ''sha256'', JStr (sha256_bytes data))]"

definition inventory :: "stage \<Rightarrow> json" where
  "inventory stage = JObj (map (\<lambda>(name, data, mode). (name, file_record data)) (stage_files stage))"

definition package_metadata :: "(pystr, pystr \<times> pystr \<times> pystr) dict" where
  "package_metadata =
     [(U ''darwin-arm64'', U ''arm64'', U ''static'', U ''darwin''),
      (U ''android-aarch64'', U ''aarch64'', U ''static'', U ''bionic''),
      (U ''android-armv7a'', U ''armv7a'', U ''static'', U ''bionic''),
      (U ''android-x86_64'', U ''x86_64'', U ''static'', U ''bionic''),
      (U ''windows-x64'', U ''x86_64'', U ''dynamic'', U ''windows'')]"

definition libusb_entries :: "pystr \<Rightarrow> (string \<times> pystr) list" where
  "libusb_entries linkage = [(''version'', LIBUSB_VERSION), (''source_ref'', LIBUSB_SOURCE_URL),
     (''source_sha256'', LIBUSB_SOURCE_SHA256), (''linkage'', linkage)]"

definition platform_entries :: "pystr \<Rightarrow> (pystr, json) dict" where
  "platform_entries platform =
     (case map_of package_metadata platform of
        None \<Rightarrow> []
      | Some (architecture, linkage, libc) \<Rightarrow>
          [(U ''architecture'', JStr architecture), (U ''linkage'', JStr linkage), (U ''libc'', JStr libc)])
     @ (if is_linux_package platform then
          [(U ''architecture'', JStr (removeprefix platform (U ''linux-''))), (U ''libc'', JStr (U ''none'')),
           (U ''build_libc'', JStr (U ''musl'')), (U ''linkage'', JStr (U ''static'')),
           (U ''libusb'', str_obj (libusb_entries (U ''static'')
              @ [(''udev'', U ''disabled''), (''backend'', U ''netlink'')]))]
        else [])
     @ (if is_darwin platform
        then [(U ''libusb'', str_obj (libusb_entries (U ''static'') @ [(''backend'', U ''darwin'')]))] else [])
     @ (if is_android platform \<or> is_windows platform then
          [(U ''libusb'', str_obj (libusb_entries (if is_windows platform then U ''dynamic'' else U ''static'')
             @ (if is_windows platform then [(''package_sha256'', WINDOWS_LIBUSB_PACKAGE_SHA256)] else [])))]
        else [])"

definition package_manifest :: "pystr \<Rightarrow> pystr \<Rightarrow> pystr \<Rightarrow> stage \<Rightarrow> json" where
  "package_manifest version platform source_ref stage = JObj (
     [(U ''schema'', JInt 1), (U ''version'', JStr version), (U ''platform'', JStr platform),
      (U ''source_ref'', JStr source_ref), (U ''programs'', JArr (map JStr (program_names platform))),
      (U ''files'', inventory stage), (U ''firmware'', firmware_record)]
     @ platform_entries platform)"

definition package_finish :: "package_lib \<Rightarrow> pystr \<Rightarrow> pystr \<Rightarrow> pystr \<Rightarrow> stage \<Rightarrow> stage" where
  "package_finish lib version platform source_ref stage =
     write_checksums (dict_set stage (U ''manifest.json'')
       (write_json (package_manifest version platform source_ref stage), created_mode lib))"

subsection \<open>The program\<close>

definition written_archive :: "package_lib \<Rightarrow> pystr \<Rightarrow> pystr \<Rightarrow> stage \<Rightarrow> disk_file" where
  "written_archive lib version platform stage =
     \<lparr>f_name = archive_name version platform, f_is_file = True, f_is_symlink = False,
      f_data = (if is_windows platform then write_deterministic_zip lib stage
                else write_deterministic_tar lib stage)\<rparr>"

definition package_main ::
  "package_lib \<Rightarrow> container_lib \<Rightarrow> elf_host \<Rightarrow> package_args \<Rightarrow> disk_file res" where
  "package_main lib L host args =
     andThen (check_inputs args) (\<lambda>_.
     andThen (package_stage lib args) (\<lambda>stage.
     let output = written_archive lib (a_version args) (a_platform args)
           (package_finish lib (a_version args) (a_platform args) (a_source_ref args) stage) in
     andThen (audit_binary_archive L host output (a_platform args)) (\<lambda>_. Inr output)))"

end
