(* ===== verification/StageFacts.thy ===== *)
theory StageFacts
  imports Packaging ManifestFacts
begin

unbundle bit_operations_syntax

section \<open>What the writers write, the readers read\<close>

text \<open>
  The stage directory as the two packagers leave it, the archive written from it and the
  checksums, against the readers of the audit: \<open>archive_payloads\<close> finds the files of the stage
  and \<open>verify_checksums\<close> accepts them.
\<close>

subsection \<open>Dictionaries and sorting\<close>

lemma dict_set_fresh: "k \<notin> keys d \<Longrightarrow> dict_set d k v = d @ [(k, v)]"
  by (induction d) auto

lemma map_of_same_set:
  "distinct (map fst xs) \<Longrightarrow> distinct (map fst ys) \<Longrightarrow> set xs = set ys \<Longrightarrow> map_of xs = map_of ys"
  by (simp add: map_of_inject_set)

lemma distinct_sort_key: "distinct (map fst (sort_key f xs)) \<longleftrightarrow> distinct (map fst xs)"
proof -
  have "mset (map fst (sort_key f xs)) = mset (map fst xs)" by simp
  then show ?thesis by (rule mset_eq_imp_distinct_iff)
qed

lemma map_of_sort_key: "distinct (map fst xs) \<Longrightarrow> map_of (sort_key f xs) = map_of xs"
  by (rule map_of_same_set) (simp_all add: distinct_sort_key)

subsection \<open>Literals\<close>

lemma U_append: "U s @ U t = U (s @ t)"
  by (simp add: U_def)

lemma U_eq_Nil [simp]: "U s = [] \<longleftrightarrow> s = []"
  by (simp add: U_def)

subsection \<open>Stages\<close>

text \<open>A name that every writer and every reader carries unchanged.\<close>

definition stage_name :: "pystr \<Rightarrow> bool" where
  "stage_name n \<longleftrightarrow> safe_member n = Inr () \<and> \<not> endswith n [47] \<and>
     list_all (\<lambda>c. c < 128 \<and> \<not> is_linebreak c) n"

definition writable :: "stage \<Rightarrow> bool" where
  "writable stage \<longleftrightarrow> distinct (map fst stage) \<and> list_all stage_name (map fst stage)"

definition contents :: "stage \<Rightarrow> (pystr, bytes) dict" where
  "contents stage = map (\<lambda>(name, data, mode). (name, data)) stage"

lemma fst_contents [simp]: "map fst (contents stage) = map fst stage"
  by (auto simp: contents_def)

lemma keys_contents [simp]: "keys (contents stage) = keys stage"
  by (simp add: keys_set_map)

lemma map_of_contents: "map_of (contents stage) n = map_option fst (map_of stage n)"
  by (induction stage) (auto simp: contents_def)

lemma writable_stage_files [simp]: "writable (stage_files stage) \<longleftrightarrow> writable stage"
  by (auto simp: writable_def stage_files_def distinct_sort_key list_all_iff)

lemma keys_stage_files [simp]: "keys (stage_files stage) = keys stage"
  by (simp add: keys_def stage_files_def)

lemma map_of_stage_files: "writable stage \<Longrightarrow> map_of (stage_files stage) = map_of stage"
  by (simp add: writable_def stage_files_def map_of_sort_key)

subsection \<open>Archives\<close>

lemma tar_entry_member:
  "stage_name n \<Longrightarrow> tar_entry (tar_member (n, d, m)) = Inr (Some (n, Inr (d, S_IMODE m)))"
  by (simp add: tar_entry_def tar_member_def stage_name_def)

lemma S_IMODE_take_bit: "S_IMODE m = take_bit 12 m"
  by (simp add: S_IMODE_def take_bit_eq_mask mask_eq_exp_minus_1)

lemma S_IMODE_idem [simp]: "S_IMODE (S_IMODE m) = S_IMODE m"
  by (simp add: S_IMODE_take_bit)

lemma zip_mode_member: "zip_mode (zip_member (n, d, m)) = 0x8000 OR S_IMODE m"
proof -
  let ?k = "0x8000 OR S_IMODE m"
  have k: "take_bit 16 ?k = ?k" by (simp add: S_IMODE_take_bit take_bit_or min_def)
  then have "?k < 2 ^ 16" using take_bit_nat_less_exp [of 16 ?k] by simp
  then have "unat (push_bit 16 (of_nat ?k :: 32 word)) = ?k * 65536"
    by (simp add: push_bit_eq_mult unat_word_ariths unat_of_nat)
  then have "unat (drop_bit 16 (push_bit 16 (of_nat ?k :: 32 word))) = ?k"
    by (simp only: unat_drop_bit_eq) (simp add: drop_bit_eq_div)
  moreover have "?k AND 0xFFFF = ?k" using k by (simp add: take_bit_eq_mask mask_eq_exp_minus_1)
  ultimately show ?thesis by (simp add: zip_mode_def zip_member_def)
qed

lemma S_IFMT_regular: "S_IFMT (0x8000 OR S_IMODE m) = 0x8000"
proof -
  have "(0x8000 OR x) AND c = (0x8000 AND c) OR (x AND c)" for x c :: nat
    by (rule bit_eqI) (auto simp: bit_and_iff bit_or_iff)
  moreover have "(m AND 0xFFF) AND 0xF000 = 0" by (simp add: and.assoc)
  ultimately show ?thesis by (simp add: S_IFMT_def S_IMODE_def)
qed

lemma zip_entry_member:
  "stage_name n \<Longrightarrow> zip_entry (zip_member (n, d, m)) = Inr (Some (n, Inr (d, 0x8000 OR S_IMODE m)))"
proof -
  assume "stage_name n"
  moreover have "zi_filename (zip_member (n, d, m)) = n" "zi_content (zip_member (n, d, m)) = Inr d"
    by (simp_all add: zip_member_def)
  ultimately show ?thesis
    by (simp add: zip_entry_def zip_mode_member zip_is_dir_def stage_name_def S_ISLNK_def S_ISREG_def S_IFMT_regular)
qed

text \<open>The permission bits a reader finds in an archive of a platform.\<close>

definition read_mode :: "bool \<Rightarrow> nat \<Rightarrow> nat" where
  "read_mode zipped mode = (if zipped then 0x8000 OR S_IMODE mode else S_IMODE mode)"

text \<open>
  The contract between a writer of members and the reader of the audit: the reader is a
  \<open>unique_collector\<close> whose entry for a written member is the staged file, with the mode the
  container carries. Then reading the members of a stage gives back the stage.
\<close>

locale member_codec = unique_collector entry dup loop
  for entry :: "'i \<Rightarrow> exc + (pystr \<times> (exc + bytes \<times> nat)) option" and dup :: "pystr \<Rightarrow> exc"
    and loop :: "(pystr \<times> bytes \<times> nat) list \<Rightarrow> 'i list \<Rightarrow> exc + (pystr \<times> bytes \<times> nat) list" +
  fixes member :: "pystr \<times> bytes \<times> nat \<Rightarrow> 'i" and carried :: "nat \<Rightarrow> nat"
  assumes entry_member: "stage_name n \<Longrightarrow> entry (member (n, d, m)) = Inr (Some (n, Inr (d, carried m)))"
begin

lemma read_stage:
  assumes "writable stage"
  shows "loop [] (map member stage) = Inr (map (\<lambda>(n, d, m). (n, d, carried m)) stage)"
proof -
  have e: "entry (member (n, d, m)) = Inr (Some (n, Inr (d, carried m)))" if "(n, d, m) \<in> set stage" for n d m
    using that assms by (intro entry_member) (auto simp: writable_def list_all_iff)
  then have "collected entry (map member stage) = map (\<lambda>(n, d, m). (n, d, carried m)) stage"
    by (intro collected_map_Some) (auto split: prod.splits)
  moreover have "distinct (map fst (map (\<lambda>(n, d, m). (n, d, carried m)) stage))"
    using assms by (simp add: writable_def o_def split_def)
  moreover have "entry_ok entry l" if "l \<in> set (map member stage)" for l
    using that e by (auto simp: entry_ok_def)
  ultimately show ?thesis unfolding loop_iff by simp
qed

end

interpretation tar_codec: member_codec tar_entry
  "\<lambda>k. AuditError ''archive member is not a unique regular file: {}'' [k]" tar_payloads tar_member "read_mode False"
  by unfold_locales (simp add: tar_entry_member read_mode_def)

interpretation zip_codec: member_codec zip_entry
  "\<lambda>k. AuditError ''duplicate archive member: {}'' [k]" zip_payloads zip_member "read_mode True"
  by unfold_locales (simp add: zip_entry_member read_mode_def)

text \<open>The container library gives back the members that were written.\<close>

definition reads_back :: "package_lib \<Rightarrow> container_lib \<Rightarrow> stage \<Rightarrow> bool" where
  "reads_back lib L stage \<longleftrightarrow>
     tar_getmembers L (write_deterministic_tar lib stage) = (map tar_member (stage_files stage), False) \<and>
     zip_infolist L (write_deterministic_zip lib stage) = Some (map zip_member (stage_files stage))"

lemma written_archive_read:
  assumes "writable stage" and "reads_back lib L stage"
  shows "archive_payloads L (written_archive lib version platform stage) =
    Inr (contents (stage_files stage),
      map (\<lambda>(n, d, m). (n, read_mode (is_windows platform) m)) (stage_files stage))"
proof -
  have "endswith (archive_name version platform) (U ''.zip'') \<longleftrightarrow> is_windows platform"
  proof -
    have w: "archive_name version platform = (U ''siano-ts-'' @ version @ U ''-'' @ platform) @ U ''.zip''" if "is_windows platform"
      using that by (simp add: archive_name_def U_Cons)
    have "archive_name version platform = (U ''siano-ts-'' @ version @ U ''-'' @ platform @ U ''.tar'') @ U ''.gz''"
      if "\<not> is_windows platform" using that by (simp add: archive_name_def U_Cons)
    then have "\<not> endswith (archive_name version platform) (U ''.zip'')" if "\<not> is_windows platform"
      using that by (simp add: endswith_iff U_Cons append_eq_append_conv_if del: append_assoc)
    with w show ?thesis by (metis endswith_append)
  qed
  then show ?thesis
    using assms(2) tar_codec.read_stage [of "stage_files stage"] zip_codec.read_stage [of "stage_files stage"] assms(1)
    by (auto simp: archive_payloads_def written_archive_def archive_members_def reads_back_def contents_def
        wrap_io_def split_def)
qed

subsection \<open>Checksums\<close>

lemma utf8_encode_ascii: "(\<And>c. c \<in> set s \<Longrightarrow> c < 128) \<Longrightarrow> utf8_encode s = ascii_encode s"
proof -
  assume "\<And>c. c \<in> set s \<Longrightarrow> c < 128"
  then have "concat (map utf8_char s) = s" by (induction s) (auto simp: utf8_char_def)
  then show ?thesis by (simp add: utf8_encode_def ascii_encode_def)
qed

lemma join_lines: "rows \<noteq> [] \<Longrightarrow> join [10] rows @ [10] = concat (map (\<lambda>l. l @ [10]) (rows :: pystr list))"
  by (induction rows rule: induct_list012) auto

text \<open>A stage whose files are the payload, none of them a list of checksums.\<close>

definition listable :: "stage \<Rightarrow> bool" where
  "listable stage \<longleftrightarrow> writable stage \<and> stage \<noteq> [] \<and>
     list_all (\<lambda>n. posix_name n \<noteq> U ''SHA256SUMS'') (map fst stage)"

lemma stage_name_sums: "stage_name (U ''SHA256SUMS'')" "posix_name (U ''SHA256SUMS'') = U ''SHA256SUMS''"
  "stage_name (U ''manifest.json'')" "posix_name (U ''manifest.json'') \<noteq> U ''SHA256SUMS''"
  by (simp_all add: stage_name_def res_simps posix_parts_def posix_name_def U_Cons is_linebreak_def startswith_def endswith_def)

lemma checksum_rows_eq:
  "listable stage \<Longrightarrow> checksum_rows stage = map sums_line (contents (stage_files stage))"
proof -
  assume "listable stage"
  then have "filter (\<lambda>m. posix_name (fst m) \<noteq> U ''SHA256SUMS'') (stage_files stage) = stage_files stage"
    by (auto simp: listable_def stage_files_def list_all_iff intro!: filter_True)
  then show ?thesis by (simp add: checksum_rows_def contents_def sums_line_def split_def)
qed

lemma write_checksums_eq:
  assumes "listable stage"
  shows "write_checksums stage =
    stage @ [(U ''SHA256SUMS'', utf8_encode (join [10] (checksum_rows stage) @ [10]), 0x1A4)]"
proof -
  have "U ''SHA256SUMS'' \<notin> keys stage"
    using assms stage_name_sums(2) by (auto simp: listable_def list_all_iff keys_def)
  then show ?thesis by (simp add: write_checksums_def write_text_def dict_set_fresh)
qed

lemma writable_write_checksums: "listable stage \<Longrightarrow> writable (write_checksums stage)"
  using stage_name_sums by (auto simp: write_checksums_eq listable_def writable_def list_all_iff)

lemma checksum_rows_lines:
  assumes "listable stage"
  shows "\<exists>body. ascii_decode (utf8_encode (join [10] (checksum_rows stage) @ [10])) = Inr body \<and>
    splitlines body = checksum_rows stage"
proof -
  let ?rows = "checksum_rows stage"
  have c: "\<not> is_linebreak c \<and> c < 128" if l: "l \<in> set ?rows" and cl: "c \<in> set l" for l c
  proof -
    obtain m where m: "m \<in> set (contents (stage_files stage))" "l = sums_line m"
      using l unfolding checksum_rows_eq [OF assms] by auto
    then have "fst m \<in> keys stage" using keys_mem [of "fst m" "snd m" "contents (stage_files stage)"] by simp
    then have "stage_name (fst m)"
      using assms by (auto simp: keys_def listable_def writable_def list_all_iff simp del: keys_simps)
    then show ?thesis using cl sums_line_chars [of c m] by (auto simp: m stage_name_def list_all_iff)
  qed
  have ne: "?rows \<noteq> []" using assms unfolding checksum_rows_eq [OF assms]
    by (simp add: contents_def stage_files_def listable_def flip: length_greater_0_conv)
  then have join: "join [10] ?rows @ [10] = concat (map (\<lambda>l. l @ [10]) ?rows)" by (rule join_lines)
  have a: "x < 128" if "x \<in> set (join [10] ?rows @ [10])" for x
    using that c unfolding join by (auto split: if_splits)
  have "ascii_decode (utf8_encode (join [10] ?rows @ [10])) = Inr (join [10] ?rows @ [10])"
    by (subst utf8_encode_ascii, erule a, rule ascii_decode_encode, erule a)
  moreover have "splitlines (join [10] ?rows @ [10]) = ?rows"
    using splitlines_concat_lines [of ?rows "[]"] c unfolding join by simp
  ultimately show ?thesis by blast
qed

lemma written_checksums_accepted:
  assumes s: "listable stage"
  shows "verify_checksums (contents (stage_files (write_checksums stage))) = Inr ()"
proof -
  let ?F = "write_checksums stage" and ?sums = "utf8_encode (join [10] (checksum_rows stage) @ [10])"
  let ?P = "contents (stage_files ?F)"
  have w: "writable ?F" using s by (rule writable_write_checksums)
  then have d: "distinct (map fst ?P)" by (metis fst_contents writable_def writable_stage_files)
  have no: "U ''SHA256SUMS'' \<notin> keys stage"
    using s stage_name_sums(2) by (auto simp: listable_def list_all_iff keys_def)
  have "map_of ?F (U ''SHA256SUMS'') = Some (?sums, 0x1A4)"
    using no by (auto simp: write_checksums_eq [OF s] keys_eq_dom map_add_def split: option.splits)
  then have data: "map_of ?P (U ''SHA256SUMS'') = Some ?sums"
    by (simp add: map_of_contents map_of_stage_files [OF w])
  obtain body where body: "ascii_decode ?sums = Inr body" "splitlines body = checksum_rows stage"
    using checksum_rows_lines [OF s] by blast
  have "mset (other_members ?P) = mset (filter (\<lambda>m. fst m \<noteq> U ''SHA256SUMS'') (contents ?F))"
    by (simp add: other_members_def contents_def stage_files_def mset_filter)
  also have "filter (\<lambda>m. fst m \<noteq> U ''SHA256SUMS'') (contents ?F) = contents stage"
    using no by (force simp: write_checksums_eq [OF s] contents_def keys_def intro!: filter_True)
  finally have o: "mset (other_members ?P) = mset (contents stage)" .
  have "filter (\<lambda>l. l \<noteq> []) (checksum_rows stage) = checksum_rows stage"
    unfolding checksum_rows_eq [OF s] by (simp add: filter_map o_def)
  then have "mset (filter (\<lambda>l. l \<noteq> []) (splitlines body)) = mset (map sums_line (other_members ?P))"
    unfolding mset_map o by (simp add: body(2) checksum_rows_eq [OF s]) (simp add: contents_def stage_files_def)
  moreover have "\<forall>n \<in> keys (other_members ?P). safe_member n = Inr ()"
    using w unfolding other_members_facts(2) keys_contents keys_stage_files
    by (auto simp: writable_def list_all_iff stage_name_def keys_def)
  ultimately show ?thesis using verify_checksums_complete [OF d data body(1)] by blast
qed

subsection \<open>Adding the manifest and the checksums\<close>

lemma listing_facts:
  fixes stage :: stage and doc :: bytes and mode :: nat
  assumes s: "listable stage" and m: "lname \<notin> keys stage"
    and n: "stage_name lname" "posix_name lname \<noteq> U ''SHA256SUMS''"
  defines "final \<equiv> write_checksums (dict_set stage lname (doc, mode))"
  shows "final = write_checksums (stage @ [(lname, doc, mode)])"
    and "listable (stage @ [(lname, doc, mode)])"
    and "keys final - {lname, U ''SHA256SUMS''} = keys stage"
    and "k \<in> keys stage \<Longrightarrow> map_of final k = map_of stage k"
    and "map_of final lname = Some (doc, mode)"
proof -
  let ?s = "stage @ [(lname, doc, mode)]"
  have sums: "U ''SHA256SUMS'' \<notin> keys stage"
    using s stage_name_sums(2) by (auto simp: listable_def list_all_iff keys_def)
  show f: "final = write_checksums ?s" using m by (simp add: final_def dict_set_fresh)
  show l: "listable ?s"
    using s m n by (auto simp: listable_def writable_def list_all_iff keys_def)
  note eq = write_checksums_eq [OF l]
  have "lname \<noteq> U ''SHA256SUMS''" using n stage_name_sums(2) by auto
  then show "keys final - {lname, U ''SHA256SUMS''} = keys stage" using m sums by (auto simp: f eq)
  show "map_of final k = map_of stage k" if "k \<in> keys stage"
    using that by (auto simp: f eq keys_iff_Some)
  have "map_of stage lname = None" using m by (auto simp: keys_eq_dom)
  then show "map_of final lname = Some (doc, mode)" by (simp add: f eq map_add_def)
qed

subsection \<open>Documents read back\<close>

lemma jget_sort_json:
  "distinct (map fst d) \<Longrightarrow> jget (obj_items (sort_json (JObj d))) k = sort_json (jget d k)"
proof -
  assume "distinct (map fst d)"
  then have "distinct (map fst (map (\<lambda>kv. (fst kv, sort_json (snd kv))) d))" by (simp add: o_def)
  then have "map_of (sort_key fst (map (\<lambda>kv. (fst kv, sort_json (snd kv))) d)) k =
      map_option sort_json (map_of d k)"
    by (simp add: map_of_sort_key) (simp add: map_of_map [unfolded split_def] split_def)
  then show ?thesis by (simp add: jget_def split: option.splits)
qed

lemma version_scalar: "version_re v \<Longrightarrow> list_all is_scalar v"
  by (auto simp: version_re_iff list_all_iff is_scalar_def is_digit_def; force)

lemma source_ref_scalar: "source_ref_re r \<Longrightarrow> list_all is_scalar r"
  by (auto simp: source_ref_re_def hex_id_def list_all_iff is_scalar_def is_lower_hex_def is_digit_def; force)

lemma pinned_scalar [simp]:
  "list_all is_scalar FIRMWARE_URL" "list_all is_scalar FIRMWARE_SHA256"
  "list_all is_scalar FIRMWARE_LICENSE_URL" "list_all is_scalar FIRMWARE_LICENSE_SHA256"
  "list_all is_scalar LIBUSB_VERSION" "list_all is_scalar LIBUSB_SOURCE_URL"
  "list_all is_scalar LIBUSB_SOURCE_SHA256" "list_all is_scalar WINDOWS_LIBUSB_PACKAGE_SHA256"
  by (simp_all add: FIRMWARE_URL_def FIRMWARE_SHA256_def FIRMWARE_LICENSE_URL_def FIRMWARE_LICENSE_SHA256_def
      LIBUSB_VERSION_def LIBUSB_SOURCE_URL_def LIBUSB_SOURCE_SHA256_def WINDOWS_LIBUSB_PACKAGE_SHA256_def)

text \<open>A stage whose files a manifest can describe; a file of \<open>10 ^ 4300\<close> bytes does not exist.\<close>

definition sized :: "stage \<Rightarrow> bool" where
  "sized stage \<longleftrightarrow> list_all (\<lambda>m. int (length (fst (snd m))) < int_limit) stage"

lemma plain_file_record: "int (length data) < int_limit \<Longrightarrow> json_all plain_node (file_record data)"
  by (simp add: file_record_def)

lemma plain_inventory: "writable stage \<Longrightarrow> sized stage \<Longrightarrow> json_all plain_node (inventory stage)"
proof -
  assume w: "writable stage" and s: "sized stage"
  have "is_scalar c" if "m \<in> set stage" "c \<in> set (fst m)" for m c
    using that w by (fastforce simp: writable_def stage_name_def list_all_iff is_scalar_def)
  moreover have "distinct (map fst (stage_files stage))"
    using w by (simp add: writable_def stage_files_def distinct_sort_key)
  ultimately show ?thesis using s
    by (auto simp: inventory_def sized_def list_all_iff stage_files_def o_def split_def intro: plain_file_record)
qed

lemma sort_file_record: "record_matches data (sort_json (file_record data))"
  by (simp add: record_matches_def file_record_def jget_def U_Cons insert_commute)

lemma jget_Cons: "jget ((k, v) # d) k' = (if k' = k then v else jget d k')" "jget [] k' = JNull"
  by (auto simp: jget_def)

lemma sort_str_obj:
  "sort_json (str_obj kvs) = JObj (obj_items (sort_json (str_obj kvs)))"
  "distinct (map fst kvs) \<Longrightarrow>
     jget (obj_items (sort_json (str_obj kvs))) k = sort_json (jget (map (\<lambda>(k, v). (U k, JStr v)) kvs) k)"
proof -
  assume "distinct (map fst kvs)"
  then have "distinct (map fst (map (\<lambda>(k, v). (U k, JStr v)) kvs))"
    by (auto simp: distinct_map o_def split_def inj_on_def)
  then show "jget (obj_items (sort_json (str_obj kvs))) k = sort_json (jget (map (\<lambda>(k, v). (U k, JStr v)) kvs) k)"
    unfolding str_obj_def by (rule jget_sort_json)
qed (simp add: str_obj_def)

text \<open>The records of an inventory that was written and read back.\<close>

lemma inventory_read:
  assumes w: "writable stage"
  shows "map_of (obj_items (sort_json (inventory stage))) n =
      map_option (\<lambda>f. sort_json (file_record (fst f))) (map_of stage n)"
    and "distinct (map fst (obj_items (sort_json (inventory stage))))"
proof -
  let ?e = "map (\<lambda>(name, data, mode). (name, sort_json (file_record data))) (stage_files stage)"
  have i: "obj_items (sort_json (inventory stage)) = sort_key fst ?e"
    by (simp add: inventory_def o_def split_def)
  have d: "distinct (map fst ?e)"
    using w by (simp add: writable_def stage_files_def distinct_sort_key o_def split_def)
  then show "distinct (map fst (obj_items (sort_json (inventory stage))))"
    unfolding i by (simp add: distinct_sort_key)
  have "map_of (map (\<lambda>(name, data, mode). (name, sort_json (file_record data))) xs) n =
      map_option (\<lambda>f. sort_json (file_record (fst f))) (map_of xs n)" for xs :: stage
    by (induction xs) auto
  then show "map_of (obj_items (sort_json (inventory stage))) n =
      map_option (\<lambda>f. sort_json (file_record (fst f))) (map_of stage n)"
    unfolding i map_of_sort_key [OF d] by (simp only: map_of_stage_files [OF w])
qed

lemma keys_inventory: "writable stage \<Longrightarrow> keys (obj_items (sort_json (inventory stage))) = keys stage"
  by (auto simp: keys_iff_Some inventory_read)

end
