(* ===== verification/PackagingFacts.thy ===== *)
theory PackagingFacts
  imports StageFacts BinaryFacts
begin

section \<open>The packager and the audit agree\<close>

text \<open>
  The manifest that \<open>package-artifact.py\<close> writes for a stage is the one that
  \<open>audit-artifact.py\<close> accepts, on every platform, and the stage of a platform holds exactly
  the members the audit expects.
\<close>

subsection \<open>Platforms\<close>

lemma drop_U: "drop n (U s) = U (drop n s)"
  by (simp add: U_def drop_map)

lemma package_platform_cases:
  assumes "platform \<in> PACKAGE_PLATFORMS"
  obtains "platform = U ''linux-x86_64''" | "platform = U ''linux-aarch64''" | "platform = U ''darwin-arm64''"
  | "platform = U ''android-aarch64''" | "platform = U ''android-armv7a''" | "platform = U ''android-x86_64''"
  | "platform = U ''windows-x64''"
  using assms by (auto simp: PACKAGE_PLATFORMS_def)

lemmas package_kind = is_linux_package_def is_linux_def is_android_def is_windows_def is_darwin_def
  LINUX_ARCHITECTURES_def startswith_def take_U

text \<open>The entries of the manifest that depend on the platform.\<close>

definition linux_entries :: "pystr \<Rightarrow> (pystr, json) dict" where
  "linux_entries architecture =
     [(U ''architecture'', JStr architecture), (U ''libc'', JStr (U ''none'')),
      (U ''build_libc'', JStr (U ''musl'')), (U ''linkage'', JStr (U ''static'')),
      (U ''libusb'', str_obj (libusb_entries (U ''static'') @ [(''udev'', U ''disabled''), (''backend'', U ''netlink'')]))]"

definition other_entries :: "pystr \<Rightarrow> pystr \<Rightarrow> pystr \<Rightarrow> (string \<times> pystr) list \<Rightarrow> (pystr, json) dict" where
  "other_entries architecture linkage libc extra =
     [(U ''architecture'', JStr architecture), (U ''linkage'', JStr linkage), (U ''libc'', JStr libc),
      (U ''libusb'', str_obj (libusb_entries linkage @ extra))]"

lemma platform_entries_eq:
  "platform_entries (U ''linux-x86_64'') = linux_entries (U ''x86_64'')"
  "platform_entries (U ''linux-aarch64'') = linux_entries (U ''aarch64'')"
  "platform_entries (U ''darwin-arm64'') = other_entries (U ''arm64'') (U ''static'') (U ''darwin'') [(''backend'', U ''darwin'')]"
  "platform_entries (U ''android-aarch64'') = other_entries (U ''aarch64'') (U ''static'') (U ''bionic'') []"
  "platform_entries (U ''android-armv7a'') = other_entries (U ''armv7a'') (U ''static'') (U ''bionic'') []"
  "platform_entries (U ''android-x86_64'') = other_entries (U ''x86_64'') (U ''static'') (U ''bionic'') []"
  "platform_entries (U ''windows-x64'') = other_entries (U ''x86_64'') (U ''dynamic'') (U ''windows'')
     [(''package_sha256'', WINDOWS_LIBUSB_PACKAGE_SHA256)]"
  by (simp_all add: platform_entries_def package_metadata_def package_kind removeprefix_def drop_U
      linux_entries_def other_entries_def)

subsection \<open>The manifest as a document\<close>

lemma plain_entries:
  "platform \<in> PACKAGE_PLATFORMS \<Longrightarrow> list_all (\<lambda>kv. json_all plain_node (snd kv)) (platform_entries platform)"
  by (erule package_platform_cases)
    (simp_all add: platform_entries_eq linux_entries_def other_entries_def libusb_entries_def)

definition manifest_keys :: "pystr list" where
  "manifest_keys = map U [''schema'', ''version'', ''platform'', ''source_ref'', ''programs'', ''files'', ''firmware'']"

lemma entries_keys:
  "platform \<in> PACKAGE_PLATFORMS \<Longrightarrow> distinct (manifest_keys @ map fst (platform_entries platform)) \<and>
     list_all (list_all is_scalar) (map fst (platform_entries platform))"
  by (erule package_platform_cases)
    (simp_all add: platform_entries_eq linux_entries_def other_entries_def manifest_keys_def)

text \<open>A stage before its manifest is written.\<close>

definition describable :: "stage \<Rightarrow> bool" where
  "describable stage \<longleftrightarrow> listable stage \<and> U ''manifest.json'' \<notin> keys stage \<and> sized stage"

lemma plain_manifest:
  assumes "platform \<in> PACKAGE_PLATFORMS" "version_re version" "source_ref_re source_ref" "describable stage"
  shows "json_all plain_node (package_manifest version platform source_ref stage)"
proof -
  have "list_all is_scalar platform" using assms(1) by (rule package_platform_cases) simp_all
  moreover have "list_all (list_all is_scalar) (program_names platform)"
    by (simp add: program_names_def Let_def)
  moreover have "json_all plain_node firmware_record" by (simp add: firmware_record_def)
  moreover have "distinct (map fst ([(U ''schema'', JInt 1), (U ''version'', JStr version), (U ''platform'', JStr platform),
      (U ''source_ref'', JStr source_ref), (U ''programs'', JArr (map JStr (program_names platform))),
      (U ''files'', inventory stage), (U ''firmware'', firmware_record)] @ platform_entries platform))"
    using entries_keys [OF assms(1)] by (simp add: manifest_keys_def)
  ultimately show ?thesis
    using entries_keys [OF assms(1)] plain_entries [OF assms(1)] plain_inventory [of stage]
      version_scalar [OF assms(2)] source_ref_scalar [OF assms(3)]
    assms(4)
    by (simp add: package_manifest_def list.pred_map o_def small_int [of 1, simplified] describable_def listable_def)
qed

subsection \<open>The manifest is accepted\<close>

lemma written_inventory_exact:
  assumes w: "writable stage"
    and k: "keys payloads - {U ''manifest.json'', U ''SHA256SUMS''} = keys stage"
    and m: "\<And>n. n \<in> keys stage \<Longrightarrow> map_of payloads n = map_option fst (map_of stage n)"
  shows "inventory_exact payloads (obj_items (sort_json (inventory stage)))"
proof -
  let ?i = "obj_items (sort_json (inventory stage))"
  have "\<exists>rec data. map_of ?i n = Some rec \<and> map_of payloads n = Some data \<and> record_matches data rec"
    if n: "n \<in> keys stage" for n
  proof -
    obtain data mode where "map_of stage n = Some (data, mode)" using n by (auto simp: keys_iff_Some)
    then show ?thesis using m [OF n] by (simp add: inventory_read [OF w] sort_file_record)
  qed
  then show ?thesis using k by (simp add: inventory_exact_def keys_inventory [OF w])
qed

lemma libusb_accepted:
  assumes "platform \<in> PACKAGE_PLATFORMS"
    and "\<And>k. k \<notin> set manifest_keys \<Longrightarrow> jget manifest k = sort_json (jget (platform_entries platform) k)"
  shows "verify_platform_libusb manifest platform = Inr () \<and>
    list_all (\<lambda>(k, v). jget manifest (U k) = JStr v) (linux_metadata platform)"
proof -
  have j: "jget manifest (U k) = sort_json (jget (platform_entries platform) (U k))"
    if "k \<in> {''architecture'', ''libc'', ''build_libc'', ''linkage'', ''libusb''}" for k
    using that by (intro assms(2)) (auto simp: manifest_keys_def)
  have o: "is_obj (sort_json (str_obj kvs))" for kvs by (simp add: str_obj_def)
  note facts = verify_platform_libusb_def package_kind linux_metadata_def platform_entries_eq linux_entries_def
    other_entries_def libusb_entries_def py_eq_sort_json jget_Cons res_simps sort_str_obj(2) ANDROID_ABI_METADATA_def
  show ?thesis using assms(1)
    by (rule package_platform_cases) (simp_all add: facts o Let_def j)
qed

lemma finish_facts:
  fixes version platform source_ref :: pystr and stage :: stage and lib :: package_lib
  assumes s: "listable stage" and m: "U ''manifest.json'' \<notin> keys stage"
  defines "doc \<equiv> write_json (package_manifest version platform source_ref stage)"
  defines "final \<equiv> package_finish lib version platform source_ref stage"
  shows "final = write_checksums (stage @ [(U ''manifest.json'', doc, created_mode lib)])"
    and "listable (stage @ [(U ''manifest.json'', doc, created_mode lib)])"
    and "keys final - {U ''manifest.json'', U ''SHA256SUMS''} = keys stage"
    and "n \<in> keys stage \<Longrightarrow> map_of final n = map_of stage n"
    and "map_of final (U ''manifest.json'') = Some (doc, created_mode lib)"
  using listing_facts [OF s m stage_name_sums(3,4), where doc = doc and mode = "created_mode lib"]
  by (simp_all add: final_def doc_def package_finish_def)

lemma finish_manifest:
  assumes p: "platform \<in> PACKAGE_PLATFORMS" and v: "version_re version" and r: "source_ref_re source_ref"
    and s: "describable stage"
  shows "verify_manifest (contents (stage_files (package_finish lib version platform source_ref stage))) platform =
    Inr (obj_items (sort_json (package_manifest version platform source_ref stage)))"
proof -
  let ?doc = "package_manifest version platform source_ref stage"
  let ?F = "package_finish lib version platform source_ref stage"
  let ?P = "contents (stage_files ?F)"
  have ls: "listable stage" "U ''manifest.json'' \<notin> keys stage" using s by (simp_all add: describable_def)
  note fin = finish_facts [OF ls, where version = version and platform = platform and source_ref = source_ref and lib = lib]
  have w: "writable ?F" using writable_write_checksums [OF fin(2)] fin(1) by simp
  have P: "map_of ?P n = map_option fst (map_of ?F n)" for n
    by (simp add: map_of_contents map_of_stage_files [OF w])
  have "parse_json (get_default ?P (U ''manifest.json'')) (U ''manifest.json'') = Inr (sort_json ?doc)"
    using parse_json_write [OF plain_manifest [OF p v r s]] by (simp add: get_default_def P fin(5))
  then have doc: "parse_json (get_default ?P (U ''manifest.json'')) (U ''manifest.json'') =
      Inr (JObj (obj_items (sort_json ?doc)))" by (simp add: package_manifest_def)
  define D where "D = [(U ''schema'', JInt 1), (U ''version'', JStr version), (U ''platform'', JStr platform),
      (U ''source_ref'', JStr source_ref), (U ''programs'', JArr (map JStr (program_names platform))),
      (U ''files'', inventory stage), (U ''firmware'', firmware_record)] @ platform_entries platform"
  have D: "distinct (map fst D)" "?doc = JObj D"
    using entries_keys [OF p] by (simp_all add: D_def manifest_keys_def package_manifest_def)
  have j: "jget (obj_items (sort_json ?doc)) k = sort_json (jget D k)" for k
    using jget_sort_json [OF D(1)] by (simp add: D(2))
  have "inventory_exact ?P (obj_items (sort_json (inventory stage)))"
    using fin(3) ls(1) by (intro written_inventory_exact) (simp_all add: P fin(4) listable_def)
  moreover have "sort_json (inventory stage) = JObj (obj_items (sort_json (inventory stage)))"
    by (simp add: inventory_def)
  moreover have "py_eq (sort_json firmware_record) firmware_record"
    by (rule py_eq_sort_json) (simp add: firmware_record_def)
  moreover have "verify_platform_libusb (obj_items (sort_json ?doc)) platform = Inr () \<and>
      list_all (\<lambda>(k, v). jget (obj_items (sort_json ?doc)) (U k) = JStr v) (linux_metadata platform)"
    by (rule libusb_accepted [OF p]) (simp add: j, simp add: D_def jget_Cons manifest_keys_def)
  moreover have "jget D (U ''programs'') = JArr (map JStr (program_names platform))"
    "jget D (U ''version'') = JStr version" "jget D (U ''source_ref'') = JStr source_ref"
    "jget D (U ''platform'') = JStr platform" "jget D (U ''schema'') = JInt 1"
    "jget D (U ''files'') = inventory stage" "jget D (U ''firmware'') = firmware_record"
    by (simp_all add: D_def jget_Cons)
  ultimately show ?thesis
    unfolding verify_manifest_iff using doc v r by (simp add: j numeric_def) blast
qed

subsection \<open>The files of the stage\<close>

lemma copy_regular_eq [res_simps]:
  "copy_regular st source d mode = Inr st' \<longleftrightarrow> f_is_file source \<and> \<not> f_is_symlink source \<and>
     st' = dict_set st d (f_data source, case mode of None \<Rightarrow> S_IMODE (f_mode source) | Some m \<Rightarrow> m)"
  by (auto simp: copy_regular_def fail_def)

definition destinations :: "(input_file \<times> pystr \<times> nat option) list \<Rightarrow> pystr set" where
  "destinations copies = set (map (\<lambda>(source, d, mode). d) copies)"

lemma destinations_simps [simp]:
  "destinations [] = {}" "destinations ((source, d, mode) # copies) = insert d (destinations copies)"
  "destinations (copies @ copies') = destinations copies \<union> destinations copies'"
  by (simp_all add: destinations_def)

text \<open>A step of the assembly that only adds the files \<open>names\<close>.\<close>

definition adds :: "stage \<Rightarrow> stage \<Rightarrow> pystr set \<Rightarrow> bool" where
  "adds st st' names \<longleftrightarrow> keys st' = keys st \<union> names \<and> (\<forall>n. n \<notin> names \<longrightarrow> map_of st' n = map_of st n) \<and>
     (distinct (map fst st) \<longrightarrow> distinct (map fst st'))"

lemma adds_refl [simp]: "adds st st {}"
  by (simp add: adds_def)

lemma adds_trans: "adds st st' a \<Longrightarrow> adds st' st'' b \<Longrightarrow> adds st st'' (a \<union> b)"
  by (auto simp: adds_def)

lemma adds_step: "adds st st' a \<Longrightarrow> adds st' st'' b \<Longrightarrow> c = a \<union> b \<Longrightarrow> adds st st'' c"
  using adds_trans by simp

lemma adds_dict_set: "adds st (dict_set st d v) {d}"
  by (simp add: adds_def distinct_dict_set)

lemma adds_write_text: "adds st (write_text st d body) {d}"
  by (simp add: write_text_def adds_dict_set)

lemma adds_copy: "copy_regular st source d mode = Inr st' \<Longrightarrow> adds st st' {d}"
  by (auto simp: res_simps adds_dict_set)

lemma adds_copy_all: "copy_all st copies = Inr st' \<Longrightarrow> adds st st' (destinations copies)"
proof (induction copies arbitrary: st)
  case Nil
  then show ?case by (simp add: copy_all_def)
next
  case (Cons c copies)
  obtain source d mode where c: "c = (source, d, mode)" by (cases c)
  then obtain st1 where "copy_regular st source d mode = Inr st1" "copy_all st1 copies = Inr st'"
    using Cons.prems by (auto simp: copy_all_def andThen_eq_Inr)
  then show ?case using adds_trans [OF adds_copy Cons.IH] by (simp add: c)
qed

lemma copy_all_get:
  assumes "copy_all st (pre @ (source, d, mode) # post) = Inr st'" and "d \<notin> destinations post"
  shows "map_of st' d = Some (f_data source, case mode of None \<Rightarrow> S_IMODE (f_mode source) | Some m \<Rightarrow> m)"
proof -
  obtain st1 st2 where "copy_regular st1 source d mode = Inr st2" "copy_all st2 post = Inr st'"
    using assms(1) by (auto simp: copy_all_def foldE_append andThen_eq_Inr)
  then show ?thesis using adds_copy_all [of st2 post st'] assms(2) by (auto simp: res_simps adds_def)
qed

lemma program_names_eq:
  "program_names platform = (if is_windows platform then map U [''sianod.exe'', ''sianoctl.exe'', ''siano-ts.exe'']
     else map U [''sianod'', ''sianoctl'', ''siano-ts''])"
  by (simp add: program_names_def U_append)

lemma evidence_names_eq:
  "binary_evidence_name (U ''sianod'') = U ''evidence/sianod-binary-audit.json''"
  "binary_evidence_name (U ''sianoctl'') = U ''evidence/sianoctl-binary-audit.json''"
  "binary_evidence_name (U ''siano-ts'') = U ''evidence/binary-audit.json''"
  "binary_evidence_name (U ''sianod.exe'') = U ''evidence/sianod-binary-audit.json''"
  "binary_evidence_name (U ''sianoctl.exe'') = U ''evidence/sianoctl-binary-audit.json''"
  "binary_evidence_name (U ''siano-ts.exe'') = U ''evidence/binary-audit.json''"
  by (simp_all add: binary_evidence_name_def removesuffix_def endswith_def take_U drop_U U_append)

lemma destinations_map [simp]: "destinations (map (\<lambda>x. (f x, g x, h x)) xs) = g ` set xs"
  by (auto simp: destinations_def)

lemma stage_programs_adds:
  assumes "stage_programs args = Inr st"
  shows "adds [] st ({U ''COPYING'', U ''LICENCE.siano'', U ''README.md'', U ''REBUILD.md'', U ''firmware/isdbt_rio.inp''}
    \<union> set (program_names (a_platform args)) \<union> binary_evidence_name ` set (program_names (a_platform args)))"
proof -
  from assms obtain st1 st2 where st: "copy_all [] (map (\<lambda>name. (a_repo args
         (if name = U ''REBUILD.md'' then U ''packaging/REBUILD.md'' else name), name, None))
       [U ''COPYING'', U ''LICENCE.siano'', U ''README.md'', U ''REBUILD.md'']) = Inr st1"
    "copy_all st1 (concat (map (\<lambda>binary_name.
         [(a_build args binary_name, binary_name, if is_windows (a_platform args) then None else Some 0x1ED),
          (a_build args (binary_evidence_name binary_name), binary_evidence_name binary_name, None)])
       (program_names (a_platform args)))) = Inr st2"
    "copy_regular st2 (a_firmware args) (U ''firmware/isdbt_rio.inp'') None = Inr st"
    by (auto simp: stage_programs_def andThen_eq_Inr)
  have "destinations (concat (map (\<lambda>b. [(f b, b, m), (g b, h b, m')]) bs)) = set bs \<union> h ` set bs"
    for f g h bs and m m' :: "nat option"
    by (induction bs) auto
  then show ?thesis
    using adds_trans [OF adds_trans [OF adds_copy_all [OF st(1)] adds_copy_all [OF st(2)]] adds_copy [OF st(3)]]
    by (simp only: destinations_map) (simp add: ac_simps insert_commute)
qed

lemma copy_all_content:
  assumes "copy_all st copies = Inr st'" and "distinct (map (\<lambda>(source, d, mode). d) copies)"
    and "(source, d, mode) \<in> set copies"
  shows "map_of st' d = Some (f_data source, case mode of None \<Rightarrow> S_IMODE (f_mode source) | Some m \<Rightarrow> m)"
proof -
  obtain pre post where c: "copies = pre @ (source, d, mode) # post" using split_list [OF assms(3)] by blast
  moreover have "d \<notin> destinations post" using assms(2) by (simp add: c destinations_def)
  ultimately show ?thesis using assms(1) copy_all_get by blast
qed

text \<open>The programs and their evidence are staged as the build left them.\<close>

definition programs_staged :: "package_args \<Rightarrow> stage \<Rightarrow> bool" where
  "programs_staged args st \<longleftrightarrow> (\<forall>b \<in> set (program_names (a_platform args)).
     (\<exists>mode. map_of st b = Some (f_data (a_build args b), mode) \<and> (\<not> is_windows (a_platform args) \<longrightarrow> mode = 0x1ED)) \<and>
     (\<exists>mode. map_of st (binary_evidence_name b) = Some (f_data (a_build args (binary_evidence_name b)), mode)))"

lemma stage_programs_staged:
  assumes "stage_programs args = Inr st"
  shows "programs_staged args st"
proof -
  let ?win = "is_windows (a_platform args)"
  let ?copies = "concat (map (\<lambda>binary_name.
         [(a_build args binary_name, binary_name, if ?win then None else Some 0x1ED),
          (a_build args (binary_evidence_name binary_name), binary_evidence_name binary_name, None)])
       (program_names (a_platform args)))"
  from assms obtain st1 st2 where c: "copy_all st1 ?copies = Inr st2"
    and f: "copy_regular st2 (a_firmware args) (U ''firmware/isdbt_rio.inp'') None = Inr st"
    by (auto simp: stage_programs_def andThen_eq_Inr)
  have "distinct (map (\<lambda>(source, d, mode). d) ?copies)"
    by (cases ?win) (simp_all add: program_names_eq evidence_names_eq)
  note get = copy_all_content [OF c this]
  have "map_of st d = map_of st2 d" if "d \<noteq> U ''firmware/isdbt_rio.inp''" for d
    using adds_copy [OF f] that by (simp add: adds_def)
  moreover have "b \<noteq> U ''firmware/isdbt_rio.inp'' \<and> binary_evidence_name b \<noteq> U ''firmware/isdbt_rio.inp''"
    if "b \<in> set (program_names (a_platform args))" for b
    using that by (cases ?win) (auto simp: program_names_eq evidence_names_eq)
  moreover have "map_of st2 b = Some (f_data (a_build args b), if ?win then S_IMODE (f_mode (a_build args b)) else 0x1ED)"
    if "b \<in> set (program_names (a_platform args))" for b
    using that by (subst get [of "a_build args b" b "if ?win then None else Some 0x1ED"]) auto
  moreover have "map_of st2 (binary_evidence_name b) = Some (f_data (a_build args (binary_evidence_name b)),
      S_IMODE (f_mode (a_build args (binary_evidence_name b))))"
    if "b \<in> set (program_names (a_platform args))" for b
    using that by (subst get [of "a_build args (binary_evidence_name b)" "binary_evidence_name b" None]) auto
  ultimately show ?thesis by (simp add: programs_staged_def)
qed

lemma programs_staged_adds:
  "programs_staged args st \<Longrightarrow> adds st st' names \<Longrightarrow>
   names \<inter> (set (program_names (a_platform args)) \<union> binary_evidence_name ` set (program_names (a_platform args))) = {} \<Longrightarrow>
   programs_staged args st'"
  unfolding programs_staged_def adds_def by (metis IntI UnCI empty_iff image_eqI)

subsection \<open>The platform's own files\<close>

lemma verify_source_adds:
  assumes "verify_source_archive lib st path d = Inr st'"
  shows "adds st st' {d @ U ''/COPYING''}"
proof -
  obtain copying where "(case utf8_decode copying of Inl _ \<Rightarrow> fail ''libusb COPYING is not UTF-8'' []
      | Inr body \<Rightarrow> Inr (write_text st (d @ U ''/COPYING'') body)) = Inr st'"
    using assms by (auto simp: verify_source_archive_def andThen_eq_Inr if_eq_Inr)
  then show ?thesis by (cases "utf8_decode copying") (auto simp: fail_def adds_write_text)
qed

definition libusb_files :: "pystr \<Rightarrow> pystr set" where
  "libusb_files platform = insert (U ''libusb/COPYING'')
     (if is_android platform then {U ''libusb/libusb-'' @ LIBUSB_VERSION @ U ''.tar.bz2''} else {})"

lemma stage_libusb_adds:
  assumes "stage_libusb lib args st = Inr st'" and "a_libusb args \<noteq> None"
  shows "adds st st' (libusb_files (a_platform args))"
proof -
  obtain archive st1 where v: "verify_source_archive lib st archive (U ''libusb'') = Inr st1"
    and c: "(if is_android (a_platform args)
         then copy_regular st1 archive (U ''libusb/'' @ libusb_root @ U ''.tar.bz2'') None else Inr st1) = Inr st'"
    using assms by (auto simp: stage_libusb_def andThen_eq_Inr)
  have v': "adds st st1 {U ''libusb/COPYING''}" using verify_source_adds [OF v] by (simp add: U_append)
  have n: "U ''libusb/'' @ libusb_root @ U ''.tar.bz2'' = U ''libusb/libusb-'' @ LIBUSB_VERSION @ U ''.tar.bz2''"
    by (simp add: libusb_root_def U_Cons)
  show ?thesis
  proof (cases "is_android (a_platform args)")
    case True
    with c have "copy_regular st1 archive (U ''libusb/libusb-'' @ LIBUSB_VERSION @ U ''.tar.bz2'') None = Inr st'"
      by (simp add: n)
    then show ?thesis using True by (auto simp: libusb_files_def intro: adds_step [OF v' adds_copy])
  next
    case False
    then show ?thesis using v' c by (simp add: libusb_files_def)
  qed
qed

definition android_files :: "pystr set" where
  "android_files = {U ''evidence/static-link-inventory.tsv'', U ''evidence/sianod-static-link-inventory.tsv'',
     U ''evidence/sianoctl-static-link-inventory.tsv'', U ''evidence/build.properties'',
     U ''evidence/ndk/source.properties'', U ''evidence/ndk/NOTICE'', U ''evidence/ndk/NOTICE.toolchain''}"

lemma stage_android_adds:
  assumes "stage_android args st = Inr (st', properties, hashes)"
  shows "adds st st' (if is_android (a_platform args) then android_files else {})"
proof (cases "is_android (a_platform args)")
  case True
  then obtain copies where "copy_all st copies = Inr st'" "destinations copies = android_files"
    using assms by (auto simp: stage_android_def andThen_eq_Inr android_files_def U_append)
  then show ?thesis using adds_copy_all [of st copies st'] True by simp
qed (use assms in \<open>simp add: stage_android_def\<close>)

lemma stage_properties_adds:
  assumes "stage_properties args st properties = Inr (st', properties')"
  shows "adds st st' (if is_linux_package (a_platform args) \<or> is_darwin (a_platform args)
    then {U ''evidence/build.properties''} else {})"
  using assms adds_copy by (fastforce simp: stage_properties_def andThen_eq_Inr split: if_splits)

definition linux_files :: "pystr set" where
  "linux_files = keys LINUX_RUNTIME_LICENSE_SHA256 \<union> LINUX_MDEV"

lemma stage_license_adds: "stage_license args st (member, digest) = Inr st' \<Longrightarrow> adds st st' {member}"
  by (auto simp: stage_license_def Let_def if_eq_Inr adds_copy)

lemma licenses_add: "foldE (stage_license args) st licenses = Inr st' \<Longrightarrow> adds st st' (keys licenses)"
proof (induction licenses arbitrary: st)
  case (Cons l licenses)
  obtain member digest where l: "l = (member, digest)" by (cases l)
  then obtain st1 where "stage_license args st (member, digest) = Inr st1" "foldE (stage_license args) st1 licenses = Inr st'"
    using Cons.prems by (auto simp: andThen_eq_Inr)
  then show ?case using adds_trans [OF stage_license_adds Cons.IH] by (simp add: l)
qed simp

lemma stage_linux_adds:
  assumes "stage_linux args st = Inr st'"
  shows "adds st st' (if is_linux_package (a_platform args) then linux_files else {})"
proof (cases "is_linux_package (a_platform args)")
  case True
  then obtain st1 copies where "foldE (stage_license args) st LINUX_RUNTIME_LICENSE_SHA256 = Inr st1"
    "copy_all st1 copies = Inr st'" "destinations copies = LINUX_MDEV"
    using assms by (auto simp: stage_linux_def andThen_eq_Inr LINUX_MDEV_def U_append)
  then show ?thesis using True by (auto simp: linux_files_def intro: adds_step [OF licenses_add adds_copy_all])
qed (use assms in \<open>simp add: stage_linux_def\<close>)

lemma stage_windows_adds:
  assumes "stage_windows args st = Inr st'"
  shows "adds st st' (if is_windows (a_platform args) then {U ''libusb-1.0.dll'', U ''libusb/NOTICE.txt''} else {})"
proof (cases "is_windows (a_platform args)")
  case True
  then obtain st1 source body where "copy_regular st source (U ''libusb-1.0.dll'') None = Inr st1"
    "st' = write_text st1 (U ''libusb/NOTICE.txt'') body"
    using assms by (auto simp: stage_windows_def andThen_eq_Inr Let_def if_eq_Inr split: option.splits)
  then show ?thesis using True by (auto intro: adds_step [OF adds_copy adds_write_text])
qed (use assms in \<open>simp add: stage_windows_def\<close>)

definition staged_names :: "pystr \<Rightarrow> pystr set" where
  "staged_names platform =
     {U ''COPYING'', U ''LICENCE.siano'', U ''README.md'', U ''REBUILD.md'', U ''firmware/isdbt_rio.inp''}
     \<union> set (program_names platform) \<union> binary_evidence_name ` set (program_names platform)
     \<union> libusb_files platform \<union> (if is_android platform then android_files else {})
     \<union> (if is_linux_package platform \<or> is_darwin platform then {U ''evidence/build.properties''} else {})
     \<union> (if is_linux_package platform then linux_files else {})
     \<union> (if is_windows platform then {U ''libusb-1.0.dll'', U ''libusb/NOTICE.txt''} else {})
     \<union> {U ''DEPENDENCY-NOTICE.txt''}"

lemma later_names_disjoint:
  "(libusb_files platform \<union> android_files \<union> {U ''evidence/build.properties''} \<union> linux_files
     \<union> {U ''libusb-1.0.dll'', U ''libusb/NOTICE.txt'', U ''DEPENDENCY-NOTICE.txt''})
   \<inter> (set (program_names platform) \<union> binary_evidence_name ` set (program_names platform)) = {}"
  by (cases "is_windows platform")
    (simp_all add: libusb_files_def android_files_def linux_files_def program_names_eq evidence_names_eq
      LINUX_RUNTIME_LICENSE_SHA256_def LINUX_MDEV_def LIBUSB_VERSION_def U_append)

lemma package_stage_facts:
  assumes "package_stage lib args = Inr st" and lib: "a_libusb args \<noteq> None"
  shows "adds [] st (staged_names (a_platform args))" and "programs_staged args st"
proof -
  let ?p = "a_platform args"
  from assms(1) obtain s1 s2 s3 s4 s5 s6 bp nh bp' notice where st:
    "stage_programs args = Inr s1" "stage_libusb lib args s1 = Inr s2"
    "stage_android args s2 = Inr (s3, bp, nh)" "stage_properties args s3 bp = Inr (s4, bp')"
    "stage_linux args s4 = Inr s5" "stage_windows args s5 = Inr s6"
    "st = write_text s6 (U ''DEPENDENCY-NOTICE.txt'') notice"
    by (auto simp: package_stage_def andThen_eq_Inr)
  note a = stage_libusb_adds [OF st(2) lib] stage_android_adds [OF st(3)] stage_properties_adds [OF st(4)]
    stage_linux_adds [OF st(5)] stage_windows_adds [OF st(6)] adds_write_text [of s6 "U ''DEPENDENCY-NOTICE.txt''" notice]
  note later = adds_trans [OF adds_trans [OF adds_trans [OF adds_trans [OF adds_trans [OF a(1) a(2)] a(3)] a(4)] a(5)]
      a(6), folded st(7)]
  show "adds [] st (staged_names ?p)"
    using adds_trans [OF stage_programs_adds [OF st(1)] later] by (simp only: staged_names_def Un_assoc)
  show "programs_staged args st"
    using stage_programs_staged [OF st(1)] later
    by (rule programs_staged_adds) (use later_names_disjoint [of ?p] in \<open>auto split: if_splits\<close>)
qed

lemma staged_expected:
  assumes "platform \<in> PACKAGE_PLATFORMS"
  shows "expected_members platform = Inr (staged_names platform \<union> {U ''manifest.json'', U ''SHA256SUMS''})"
proof -
  note defs = expected_members_def staged_names_def COMMON_def libusb_files_def android_files_def linux_files_def
    program_names_eq evidence_names_eq package_kind Let_def
  show ?thesis using assms
    by (rule package_platform_cases)
      (simp_all add: defs PACKAGE_PLATFORMS_def fail_def, blast+)
qed

text \<open>Every staged name, and that all of them are carried unchanged.\<close>

definition package_names :: "string list" where
  "package_names = [''COPYING'', ''LICENCE.siano'', ''README.md'', ''REBUILD.md'', ''firmware/isdbt_rio.inp'',
     ''sianod'', ''sianoctl'', ''siano-ts'', ''sianod.exe'', ''sianoctl.exe'', ''siano-ts.exe'',
     ''evidence/sianod-binary-audit.json'', ''evidence/sianoctl-binary-audit.json'', ''evidence/binary-audit.json'',
     ''libusb/COPYING'', ''libusb/libusb-1.0.30.tar.bz2'', ''evidence/static-link-inventory.tsv'',
     ''evidence/sianod-static-link-inventory.tsv'', ''evidence/sianoctl-static-link-inventory.tsv'',
     ''evidence/build.properties'', ''evidence/ndk/source.properties'', ''evidence/ndk/NOTICE'',
     ''evidence/ndk/NOTICE.toolchain'', ''toolchain/gcc-COPYING3'', ''toolchain/gcc-COPYING.RUNTIME'',
     ''toolchain/musl-1.2.5-COPYRIGHT'', ''mdev/siano-ts-mdev.conf'', ''mdev/siano-ts-mdev.sh'',
     ''mdev/siano-ts-mdev.start'', ''libusb-1.0.dll'', ''libusb/NOTICE.txt'', ''DEPENDENCY-NOTICE.txt'']"

lemma staged_names_listed: "staged_names platform \<subseteq> U ` set package_names"
  by (cases "is_windows platform")
    (simp_all add: staged_names_def package_names_def libusb_files_def android_files_def linux_files_def
      program_names_eq evidence_names_eq LINUX_RUNTIME_LICENSE_SHA256_def LINUX_MDEV_def LIBUSB_VERSION_def U_append)

definition plain_name :: "string \<Rightarrow> bool" where
  "plain_name s \<longleftrightarrow> stage_name (U s) \<and> posix_name (U s) \<noteq> U ''SHA256SUMS'' \<and> s \<noteq> ''manifest.json''"

lemma package_names_plain: "list_all plain_name package_names"
  unfolding package_names_def list.pred_inject
  by (intro conjI TrueI)
    (simp_all add: plain_name_def stage_name_def res_simps posix_parts_def posix_name_def U_Cons is_linebreak_def
      startswith_def endswith_def)

lemma package_stage_listable:
  assumes "adds [] st (staged_names platform)"
  shows "listable st" and "U ''manifest.json'' \<notin> keys st"
proof -
  have k: "keys st = staged_names platform" and d: "distinct (map fst st)" using assms by (auto simp: adds_def)
  have n: "\<exists>s. n = U s \<and> plain_name s" if "n \<in> keys st" for n
    using that staged_names_listed [of platform] package_names_plain by (auto simp: k list_all_iff)
  then show "U ''manifest.json'' \<notin> keys st" by (force simp: plain_name_def)
  have "st \<noteq> []" using k by (auto simp: staged_names_def)
  then show "listable st" using d n
    by (auto simp: listable_def writable_def list_all_iff plain_name_def keys_def) (metis fst_conv image_eqI)+
qed

subsection \<open>Evidence and modes\<close>

lemma parse_json_name: "parse_json data name = Inr v \<Longrightarrow> parse_json data name' = Inr v"
  by (auto simp: parse_json_def fail_def split: sum.splits exc.splits)

lemma check_inputs_facts:
  assumes "check_inputs args = Inr u" and "a_platform args \<in> PACKAGE_PLATFORMS"
  shows "version_re (a_version args)" "source_ref_re (a_source_ref args)" "a_libusb args \<noteq> None"
    "\<And>b. b \<in> set (program_names (a_platform args)) \<Longrightarrow> \<exists>evidence.
       parse_json (f_data (a_build args (binary_evidence_name b))) name = Inr evidence \<and>
       py_eq evidence (evidence_record (JStr (a_platform args)) (JStr (a_source_ref args)) b (f_data (a_build args b)))"
proof -
  have c: "version_re (a_version args)" "source_ref_re (a_source_ref args)"
    "\<not> ((is_android (a_platform args) \<or> is_linux_package (a_platform args) \<or> is_darwin (a_platform args)) \<and> a_libusb args = None)"
    "\<not> (is_windows (a_platform args) \<and> (a_windows args = None \<or> a_libusb args = None))"
    "\<forall>b \<in> set (program_names (a_platform args)). check_build_output args b = Inr ()"
    using assms(1) by (auto simp: check_inputs_def Let_def andThen_eq_Inr if_eq_Inr validate_eq_Inr forE_eq_Inr)
  show "version_re (a_version args)" "source_ref_re (a_source_ref args)" by (rule c(1), rule c(2))
  show "a_libusb args \<noteq> None"
    using assms(2) c(3,4) by (rule_tac package_platform_cases [OF assms(2)]) (auto simp: package_kind)
  fix b assume "b \<in> set (program_names (a_platform args))"
  then have "check_build_output args b = Inr ()" using c(5) by blast
  then show "\<exists>evidence. parse_json (f_data (a_build args (binary_evidence_name b))) name = Inr evidence \<and>
       py_eq evidence (evidence_record (JStr (a_platform args)) (JStr (a_source_ref args)) b (f_data (a_build args b)))"
    by (auto simp: check_build_output_def Let_def andThen_eq_Inr if_eq_Inr fail_eq intro: parse_json_name)
qed

lemma final_lookup:
  fixes version platform source_ref :: pystr and stage :: stage and lib :: package_lib
  assumes ls: "listable stage" "U ''manifest.json'' \<notin> keys stage" and n: "map_of stage n = Some (data, mode)"
  defines "final \<equiv> package_finish lib version platform source_ref stage"
  shows "map_of (contents (stage_files final)) n = Some data"
    and "map_of (map (\<lambda>(n, d, m). (n, read_mode zipped m)) (stage_files final)) n = Some (read_mode zipped mode)"
proof -
  note fin = finish_facts [OF ls, where lib = lib and version = version and platform = platform and source_ref = source_ref]
  have w: "writable final" using writable_write_checksums [OF fin(2)] fin(1) by (simp add: final_def)
  have "map_of final n = Some (data, mode)" using fin(4) n by (auto simp: final_def keys_iff_Some)
  then have f: "map_of (stage_files final) n = Some (data, mode)" by (simp add: map_of_stage_files [OF w])
  then show "map_of (contents (stage_files final)) n = Some data" by (simp add: map_of_contents)
  have "map_of (map (\<lambda>(n, d, m). (n, read_mode zipped m)) xs) n = map_option (\<lambda>f. read_mode zipped (snd f)) (map_of xs n)"
    for xs :: stage by (induction xs) auto
  then show "map_of (map (\<lambda>(n, d, m). (n, read_mode zipped m)) (stage_files final)) n = Some (read_mode zipped mode)"
    using f by simp
qed

lemma manifest_identity:
  fixes version platform source_ref :: pystr and stage :: stage
  assumes "platform \<in> PACKAGE_PLATFORMS"
  defines "m \<equiv> obj_items (sort_json (package_manifest version platform source_ref stage))"
  shows "map_of m (U ''platform'') = Some (JStr platform)" "map_of m (U ''source_ref'') = Some (JStr source_ref)"
proof -
  let ?D = "obj_items (package_manifest version platform source_ref stage)"
  let ?e = "map (\<lambda>kv. (fst kv, sort_json (snd kv))) ?D"
  have "distinct (map fst ?e)"
    using entries_keys [OF assms(1)] by (simp add: package_manifest_def manifest_keys_def o_def)
  then have "map_of (sort_key fst ?e) = map_of ?e" by (rule map_of_sort_key)
  moreover have "m = sort_key fst ?e"
    unfolding m_def package_manifest_def sort_json.simps obj_items.simps ..
  ultimately show "map_of m (U ''platform'') = Some (JStr platform)" "map_of m (U ''source_ref'') = Some (JStr source_ref)"
    by (simp_all add: package_manifest_def)
qed

lemma staged_program_audited:
  assumes c: "check_inputs args = Inr ()" and st: "package_stage lib args = Inr stage"
    and p: "a_platform args \<in> PACKAGE_PLATFORMS" and b: "b \<in> set (program_names (a_platform args))"
  defines "final \<equiv> package_finish lib (a_version args) (a_platform args) (a_source_ref args) stage"
  shows "verify_binary_evidence (contents (stage_files final)) (obj_items (sort_json
      (package_manifest (a_version args) (a_platform args) (a_source_ref args) stage))) b = Inr ()"
    and "verify_binary_archive_mode (map (\<lambda>(n, d, m). (n, read_mode (is_windows (a_platform args)) m)) (stage_files final))
      b (a_platform args) = Inr ()"
proof -
  note inputs = check_inputs_facts [OF c p]
  note facts = package_stage_facts [OF st inputs(3)]
  note ls = package_stage_listable [OF facts(1)]
  obtain mode mode' where m: "map_of stage b = Some (f_data (a_build args b), mode)"
      "\<not> is_windows (a_platform args) \<longrightarrow> mode = 0x1ED"
    "map_of stage (binary_evidence_name b) = Some (f_data (a_build args (binary_evidence_name b)), mode')"
    using facts(2) b unfolding programs_staged_def by blast
  obtain evidence where "parse_json (f_data (a_build args (binary_evidence_name b))) (binary_evidence_name b) = Inr evidence"
    "py_eq evidence (evidence_record (JStr (a_platform args)) (JStr (a_source_ref args)) b (f_data (a_build args b)))"
    using inputs(4) [OF b] by blast
  then show "verify_binary_evidence (contents (stage_files final)) (obj_items (sort_json
      (package_manifest (a_version args) (a_platform args) (a_source_ref args) stage))) b = Inr ()"
    using final_lookup(1) [OF ls m(1)] final_lookup(1) [OF ls m(3)] manifest_identity [OF p]
    by (simp add: verify_binary_evidence_def get_item_def get_default_def final_def Let_def)
  show "verify_binary_archive_mode (map (\<lambda>(n, d, m). (n, read_mode (is_windows (a_platform args)) m)) (stage_files final))
      b (a_platform args) = Inr ()"
  proof (cases "is_windows (a_platform args)")
    case False
    then have "read_mode False mode = 0x1ED" using m(2) by (simp add: read_mode_def S_IMODE_def)
    then show ?thesis using final_lookup(2) [OF ls m(1), where zipped = False] False
      by (simp add: verify_binary_archive_mode_def final_def)
  qed (simp add: verify_binary_archive_mode_def)
qed

subsection \<open>Properties\<close>

text \<open>C9. What the packager writes, the audit reads and accepts: from any stage of distinct, safe, ASCII
  names, for any platform, strict version and canonical source reference, the archive that is
  written gives back the staged files, with their permission bits; \<open>verify_manifest\<close> accepts
  the manifest and returns it with sorted keys, and \<open>verify_checksums\<close> accepts \<open>SHA256SUMS\<close>.
  The container library is assumed to read back the members that were written.\<close>

theorem package_archive_accepted:
  assumes "platform \<in> PACKAGE_PLATFORMS" and "version_re version" and "source_ref_re source_ref"
    and "describable stage"
    and "final = package_finish lib version platform source_ref stage"
    and "reads_back lib L final"
    and "payloads = contents (stage_files final)"
  shows "archive_payloads L (written_archive lib version platform final) =
      Inr (payloads, map (\<lambda>(n, d, m). (n, read_mode (is_windows platform) m)) (stage_files final)) \<and>
    verify_manifest payloads platform =
      Inr (obj_items (sort_json (package_manifest version platform source_ref stage))) \<and>
    verify_checksums payloads = Inr ()"
proof -
  have ls: "listable stage" "U ''manifest.json'' \<notin> keys stage" using assms(4) by (simp_all add: describable_def)
  note fin = finish_facts [OF ls, where lib = lib and version = version and platform = platform and source_ref = source_ref]
  have "writable final" using writable_write_checksums [OF fin(2)] fin(1) by (simp add: assms(5))
  then show ?thesis
    using written_archive_read [OF _ assms(6)] finish_manifest [OF assms(1-4)] written_checksums_accepted [OF fin(2)]
    by (simp add: assms(5,7) fin(1) [symmetric])
qed

definition sample_stage :: stage where
  "sample_stage = [(U ''README.md'', B ''text'', 0x1A4)]"

definition sample_package_lib :: package_lib where
  "sample_package_lib = \<lparr>bz2_members = \<lambda>_. ([], False), tar_gz = \<lambda>_. [], zip_bytes = \<lambda>_. [], created_mode = 0x1B4\<rparr>"

definition sample_final :: stage where
  "sample_final = package_finish sample_package_lib (U ''1.2.3'') (U ''linux-x86_64'') (replicate 40 97) sample_stage"

definition sample_reader :: container_lib where
  "sample_reader = \<lparr>zip_infolist = \<lambda>_. Some (map zip_member (stage_files sample_final)),
     tar_getmembers = \<lambda>_. (map tar_member (stage_files sample_final), False)\<rparr>"

theorem package_archive_accepted_witness:
  "verify_checksums (contents (stage_files sample_final)) = Inr () \<and>
   verify_manifest (contents (stage_files sample_final)) (U ''linux-x86_64'') =
     Inr (obj_items (sort_json (package_manifest (U ''1.2.3'') (U ''linux-x86_64'') (replicate 40 97) sample_stage)))"
proof -
  have "describable sample_stage"
    by (simp add: describable_def sized_def listable_def writable_def sample_stage_def stage_name_def res_simps posix_parts_def
        posix_name_def U_Cons is_linebreak_def startswith_def endswith_def B_def small_int [of 4, simplified])
  moreover have "version_re (U ''1.2.3'')" "source_ref_re (replicate 40 97)"
    by (simp_all add: version_re_def source_ref_re_def hex_id_def list_all_iff is_digit_def is_lower_hex_def U_Cons)
  moreover have "reads_back sample_package_lib sample_reader sample_final"
    by (simp add: reads_back_def sample_reader_def)
  moreover have "U ''linux-x86_64'' \<in> PACKAGE_PLATFORMS" by (simp add: PACKAGE_PLATFORMS_def)
  ultimately show ?thesis
    using package_archive_accepted [OF _ _ _ _ sample_final_def _ refl] by blast
qed

text \<open>C10. When the checks on the inputs and the assembly succeed, the package has exactly the members the
  audit expects of the platform, and the audit accepts its checksums, the evidence of every
  program against the packaged program, and the mode of every program.\<close>

theorem package_stage_audited:
  "case andThen (check_inputs args) (\<lambda>_. package_stage lib args) of
     Inl e \<Rightarrow> True
   | Inr stage \<Rightarrow>
       if a_platform args \<notin> PACKAGE_PLATFORMS then True
       else
       (let final = package_finish lib (a_version args) (a_platform args) (a_source_ref args) stage;
            payloads = contents (stage_files final);
            modes = map (\<lambda>(n, d, m). (n, read_mode (is_windows (a_platform args)) m)) (stage_files final);
            manifest = obj_items (sort_json (package_manifest (a_version args) (a_platform args) (a_source_ref args) stage))
        in expected_members (a_platform args) = Inr (keys payloads) \<and>
           verify_checksums payloads = Inr () \<and>
           forE (verify_binary_evidence payloads manifest) (program_names (a_platform args)) = Inr () \<and>
           forE (\<lambda>program. verify_binary_archive_mode modes program (a_platform args))
             (program_names (a_platform args)) = Inr ())"
proof (cases "andThen (check_inputs args) (\<lambda>_. package_stage lib args)")
  case (Inr stage)
  then have c: "check_inputs args = Inr ()" and st: "package_stage lib args = Inr stage"
    by (auto simp: andThen_eq_Inr)
  show ?thesis
  proof (cases "a_platform args \<in> PACKAGE_PLATFORMS")
    case p: True
    note facts = package_stage_facts [OF st check_inputs_facts(3) [OF c p]]
    note ls = package_stage_listable [OF facts(1)]
    note fin = finish_facts [OF ls, where lib = lib and version = "a_version args" and platform = "a_platform args"
        and source_ref = "a_source_ref args"]
    have "keys stage = staged_names (a_platform args)" using facts(1) by (simp add: adds_def)
    then have "expected_members (a_platform args) = Inr (keys (package_finish lib (a_version args) (a_platform args)
        (a_source_ref args) stage))"
      using staged_expected [OF p] by (simp add: fin(1) write_checksums_eq [OF fin(2)] insert_commute)
    then show ?thesis using Inr p written_checksums_accepted [OF fin(2)] staged_program_audited [OF c st p]
      by (simp add: fin(1) [symmetric] Let_def forE_eq_Inr)
  qed (simp add: Inr)
qed simp

end
