(* ===== verification/PackageSource.thy ===== *)
theory PackageSource
  imports Packaging AuditSource
begin

unbundle bit_operations_syntax

section \<open>Assembling the source archive\<close>

text \<open>
  \<open>package-source.py\<close>: the snapshot of the repository and of the two pinned dependencies taken
  from Git, the pinned libusb archive, the dependency notice, the source manifest, the
  checksums, and \<open>main\<close>, which audits what it wrote. \<open>sha256\<close>, \<open>write_text\<close>,
  \<open>write_checksums\<close> and the tar writer are the same code as in \<open>package-artifact.py\<close> and
  are taken from \<open>Packaging\<close>.

  Parameters: Git, of which \<open>git_out\<close> gives the exit status and the output of a command and
  \<open>git_archive\<close> the members of the tar file of a commit, with a flag for a file that cannot be
  read to its end. In the tree of a commit no path lies below a file, so creating the parent
  directory of a member does not fail.
\<close>

subsection \<open>Git\<close>

record git_root =
  git_out :: "pystr list \<Rightarrow> (nat \<times> bytes) option"
  git_archive :: "pystr \<Rightarrow> (tree_info list \<times> bool) option"

definition run_git :: "git_root \<Rightarrow> pystr list \<Rightarrow> bytes res" where
  "run_git repo arguments = (case git_out repo arguments of
       None \<Rightarrow> fail ''git command failed'' []
     | Some (status, stdout) \<Rightarrow> if status \<noteq> 0 then fail ''git command failed'' [] else Inr stdout)"

definition run_git_text :: "git_root \<Rightarrow> pystr list \<Rightarrow> pystr res" where
  "run_git_text repo arguments = andThen (run_git repo arguments) (\<lambda>stdout.
     andThen (utf8_decode stdout) (\<lambda>body. Inr (strip body)))"

definition run_git_archive :: "git_root \<Rightarrow> pystr \<Rightarrow> tree_info list res" where
  "run_git_archive repo commit = (case git_archive repo commit of
       None \<Rightarrow> fail ''git command failed'' []
     | Some (members, broken) \<Rightarrow> if broken then Inl (OSError ''TarError'' []) else Inr members)"

definition verify_object :: "git_root \<Rightarrow> pystr \<Rightarrow> string \<Rightarrow> pystr res" where
  "verify_object repo name kind = run_git_text repo [U ''rev-parse'', U ''--verify'', name @ U ''^{'' @ U kind @ U ''}'']"

subsection \<open>Snapshots\<close>

text \<open>\<open>str(PurePosixPath(name))\<close> of a relative path.\<close>

definition posix_str :: "pystr \<Rightarrow> pystr" where
  "posix_str name = (if posix_parts name = [] then [46] else join [47] (posix_parts name))"

definition escapes :: "pystr \<Rightarrow> bool" where
  "escapes name \<longleftrightarrow> startswith name [47] \<or> U ''..'' \<in> set (posix_parts name)"

definition repository_member :: "stage \<Rightarrow> tree_info \<Rightarrow> stage res" where
  "repository_member stage member =
     (let name = tr_name member; isfile = (tr_kind member = Regular_file) in
      if escapes name then fail ''unsafe source tree member: {}'' [name]
      else if \<not> (isfile \<or> tr_kind member = Directory)
      then fail ''source tree contains non-regular member: {}'' [name]
      else if isfile \<and> re_search SOURCE_FORBIDDEN name \<noteq> None
      then fail ''forbidden source tree member: {}'' [name]
      else if \<not> isfile then Inr stage
      else
      andThen (tr_content member) (\<lambda>payload. case payload of
          None \<Rightarrow> fail ''cannot read source tree member: {}'' [name]
        | Some data \<Rightarrow>
            if posix_parts name = [] then Inl (OSError ''cannot write {}'' [name])
            else Inr (dict_set stage (U ''repository/'' @ posix_str name) (data, S_IMODE (tr_mode member)))))"

text \<open>\<open>except (OSError, tarfile.TarError)\<close>\<close>

definition inspect_snapshot :: "'a res \<Rightarrow> 'a res" where
  "inspect_snapshot m = (case m of
       Inl (OSError _ _) \<Rightarrow> fail ''cannot inspect Git source snapshot'' []
     | _ \<Rightarrow> m)"

definition snapshot_repository :: "git_root \<Rightarrow> pystr \<Rightarrow> stage \<Rightarrow> (stage \<times> pystr \<times> pystr) res" where
  "snapshot_repository repo source_ref stage =
     andThen (verify_object repo source_ref ''commit'') (\<lambda>commit.
     andThen (verify_object repo commit ''tree'') (\<lambda>tree.
     andThen (run_git repo [U ''show'', commit @ U '':VERSION'']) (\<lambda>version_data.
     if version_data = [] \<or> \<not> endswith version_data [10]
     then fail ''VERSION at --source-ref must end with one newline'' []
     else (case ascii_decode version_data of
         Inl _ \<Rightarrow> fail ''VERSION at --source-ref is not ASCII'' []
       | Inr _ \<Rightarrow>
           andThen (inspect_snapshot (andThen (run_git_archive repo commit) (foldE repository_member stage))) (\<lambda>stage.
           Inr (stage, commit, tree))))))"

definition dependency_member :: "pystr \<Rightarrow> stage \<Rightarrow> tree_info \<Rightarrow> stage res" where
  "dependency_member name stage member =
     (let isfile = (tr_kind member = Regular_file);
          destination_name = U ''third_party/'' @ name @ [47] @ posix_str (tr_name member) in
      if escapes (tr_name member) \<or> \<not> (isfile \<or> tr_kind member = Directory)
      then fail ''unsafe dependency source member: {}'' [tr_name member]
      else if \<not> isfile then Inr stage
      else if forbidden_source_member destination_name
      then fail ''forbidden dependency source member: {}'' [destination_name]
      else
      andThen (tr_content member) (\<lambda>source. case source of
          None \<Rightarrow> fail ''cannot read dependency member: {}'' [tr_name member]
        | Some data \<Rightarrow>
            if posix_parts (tr_name member) = [] then Inl (OSError ''cannot write {}'' [tr_name member])
            else Inr (dict_set stage destination_name (data, S_IMODE (tr_mode member)))))"

record dependency =
  d_commit :: pystr
  d_tree :: pystr

definition snapshot_dependency ::
  "git_root \<Rightarrow> pystr \<Rightarrow> stage \<Rightarrow> pystr \<Rightarrow> (stage \<times> dependency) res" where
  "snapshot_dependency repo revision stage name =
     (if \<not> hex_id 40 revision then fail ''invalid {} dependency revision'' [name]
      else
      andThen (verify_object repo revision ''commit'') (\<lambda>commit.
      if commit \<noteq> revision then fail ''{} dependency did not resolve to the pinned commit'' [name]
      else
      andThen (verify_object repo commit ''tree'') (\<lambda>tree.
      andThen (run_git_archive repo commit) (\<lambda>members.
      andThen (foldE (dependency_member name) stage members) (\<lambda>stage.
      Inr (stage, \<lparr>d_commit = commit, d_tree = tree\<rparr>))))))"

subsection \<open>The libusb archive\<close>

fun libusb_copying_loop :: "pystr list \<Rightarrow> bool \<Rightarrow> tree_info list \<Rightarrow> bool res" where
  "libusb_copying_loop names has_copying [] = Inr has_copying"
| "libusb_copying_loop names has_copying (member # members) =
     (if tr_name member \<in> set names then fail ''duplicate libusb source member: {}'' [tr_name member]
      else if tr_name member \<noteq> libusb_root \<and> \<not> startswith (tr_name member) (libusb_root @ [47])
      then fail ''unexpected libusb source member: {}'' [tr_name member]
      else if \<not> (tr_kind member = Regular_file \<or> tr_kind member = Directory)
      then fail ''libusb source member is not regular: {}'' [tr_name member]
      else libusb_copying_loop (tr_name member # names)
        (has_copying \<or> tr_name member = libusb_root @ U ''/COPYING'') members)"

definition verify_libusb_archive :: "package_lib \<Rightarrow> input_file \<Rightarrow> unit res" where
  "verify_libusb_archive lib path =
     (if f_name path \<noteq> libusb_root @ U ''.tar.bz2'' then fail ''libusb source is not the pinned archive'' []
      else
      andThen (sha256_path path) (\<lambda>digest.
      if digest \<noteq> LIBUSB_SOURCE_SHA256 then fail ''libusb source is not the pinned archive'' []
      else (case bz2_members lib (f_data path) of (members, broken) \<Rightarrow>
        if broken then fail ''cannot inspect libusb source archive'' []
        else andThen (libusb_copying_loop [] False members) (\<lambda>has_copying.
          if \<not> has_copying then fail ''libusb source archive has no COPYING'' [] else Inr ()))))"

subsection \<open>Notice and manifest\<close>

definition source_notice_fields :: "pystr \<Rightarrow> pystr \<Rightarrow> pystr \<Rightarrow> (pystr \<times> dependency) list \<Rightarrow> (pystr \<times> pystr) list" where
  "source_notice_fields source_ref commit tree dependencies =
     [(U ''source.ref'', source_ref), (U ''source.resolved_commit'', commit), (U ''source.tree'', tree),
      (U ''dependency.libusb.version'', LIBUSB_VERSION),
      (U ''dependency.libusb.license'', U ''LGPL-2.1-or-later''),
      (U ''corresponding-source'', source_libusb),
      (U ''corresponding-source.sha256'', LIBUSB_SOURCE_SHA256),
      (U ''libusb.source.url'', LIBUSB_SOURCE_URL),
      (U ''firmware.url'', FIRMWARE_URL), (U ''firmware.sha256'', FIRMWARE_SHA256),
      (U ''firmware.license.url'', FIRMWARE_LICENSE_URL),
      (U ''firmware.license.sha256'', FIRMWARE_LICENSE_SHA256),
      (U ''firmware'', U ''excluded-from-source-archive''),
      (U ''vendor-blobs'', U ''excluded-from-source-archive''),
      (U ''dependency.dtv-userland-core.license'', U ''MIT-and-GPL-2.0-only-adapters''),
      (U ''dependency.px4-userland.license'', U ''GPL-2.0-only'')]
     @ concat (map (\<lambda>(name, provenance).
         [(U ''dependency.'' @ name @ U ''.commit'', d_commit provenance),
          (U ''dependency.'' @ name @ U ''.tree'', d_tree provenance),
          (U ''dependency.'' @ name @ U ''.source'', U ''third_party/'' @ name @ [47])]) dependencies)"

definition source_notice :: "pystr \<Rightarrow> pystr \<Rightarrow> pystr \<Rightarrow> (pystr \<times> dependency) list \<Rightarrow> pystr" where
  "source_notice source_ref commit tree dependencies =
     concat (map (\<lambda>(key, value). key @ [61] @ value @ [10]) (source_notice_fields source_ref commit tree dependencies))"

definition dependency_record :: "dependency \<Rightarrow> json" where
  "dependency_record d = str_obj [(''commit'', d_commit d), (''tree'', d_tree d)]"

definition source_manifest ::
  "pystr \<Rightarrow> pystr \<Rightarrow> pystr \<Rightarrow> pystr \<Rightarrow> (pystr \<times> dependency) list \<Rightarrow> stage \<Rightarrow> json" where
  "source_manifest version source_ref commit tree dependencies stage = JObj
     [(U ''schema'', JInt 1), (U ''version'', JStr version), (U ''source_ref'', JStr source_ref),
      (U ''dependencies'', JObj (map (\<lambda>(name, d). (name, dependency_record d)) dependencies)),
      (U ''resolved_commit'', JStr commit), (U ''tree'', JStr tree),
      (U ''libusb_version'', JStr LIBUSB_VERSION), (U ''libusb_source_url'', JStr LIBUSB_SOURCE_URL),
      (U ''libusb_source_sha256'', JStr LIBUSB_SOURCE_SHA256),
      (U ''libusb_license'', JStr (U ''LGPL-2.1-or-later'')), (U ''linux_linkage'', JStr (U ''static'')),
      (U ''linux_libusb_backend'', JStr (U ''netlink'')), (U ''darwin_linkage'', JStr (U ''static'')),
      (U ''darwin_libusb_backend'', JStr (U ''darwin'')), (U ''firmware_url'', JStr FIRMWARE_URL),
      (U ''firmware_sha256'', JStr FIRMWARE_SHA256), (U ''firmware_license_url'', JStr FIRMWARE_LICENSE_URL),
      (U ''firmware_license_sha256'', JStr FIRMWARE_LICENSE_SHA256), (U ''files'', inventory stage)]"

definition source_finish ::
  "package_lib \<Rightarrow> pystr \<Rightarrow> pystr \<Rightarrow> pystr \<Rightarrow> pystr \<Rightarrow> (pystr \<times> dependency) list \<Rightarrow> stage \<Rightarrow> stage" where
  "source_finish lib version source_ref commit tree dependencies stage =
     write_checksums (dict_set stage (U ''source-manifest.json'')
       (write_json (source_manifest version source_ref commit tree dependencies stage), created_mode lib))"

subsection \<open>The program\<close>

text \<open>
  The arguments of the normal mode, which \<open>argparse\<close> requires all; \<open>s_core_root\<close> and
  \<open>s_px4_root\<close> are the given dependency roots or those below \<open>third_party\<close>.
\<close>

record source_args =
  s_version :: pystr
  s_source_ref :: pystr
  s_root :: git_root
  s_core_root :: git_root
  s_px4_root :: git_root
  s_libusb :: input_file
  s_output_exists :: bool
  s_output_symlink :: bool

text \<open>\<open>copy_regular\<close> with its source inside the stage, where every file is an ordinary one.\<close>

definition copy_staged :: "stage \<Rightarrow> pystr \<Rightarrow> pystr \<Rightarrow> stage res" where
  "copy_staged stage source destination = (case map_of stage source of
       None \<Rightarrow> fail ''source input must be an ordinary file: {}'' [source]
     | Some (data, mode) \<Rightarrow> Inr (dict_set stage destination (data, S_IMODE mode)))"

definition copy_input :: "stage \<Rightarrow> input_file \<Rightarrow> pystr \<Rightarrow> stage res" where
  "copy_input stage source destination =
     (if f_is_symlink source \<or> \<not> f_is_file source
      then fail ''source input must be an ordinary file: {}'' [f_name source]
      else Inr (dict_set stage destination (f_data source, S_IMODE (f_mode source))))"

definition add_dependency ::
  "stage \<times> (pystr \<times> dependency) list \<Rightarrow> pystr \<times> git_root \<Rightarrow> (stage \<times> (pystr \<times> dependency) list) res" where
  "add_dependency state source = (case (state, source) of ((stage, dependencies), name, repo) \<Rightarrow>
     andThen (staged stage (U ''repository/cmake/'' @ name @ U ''.revision'')) (\<lambda>data.
     andThen (ascii_decode data) (\<lambda>body.
     andThen (snapshot_dependency repo (strip (universal_newlines body)) stage name) (\<lambda>(stage, d).
     Inr (stage, dependencies @ [(name, d)])))))"

definition source_stage ::
  "source_args \<Rightarrow> (stage \<times> pystr \<times> pystr \<times> (pystr \<times> dependency) list) res" where
  "source_stage args =
     andThen (snapshot_repository (s_root args) (s_source_ref args) []) (\<lambda>(stage, commit, tree).
     andThen (foldE add_dependency (stage, [])
       [(U ''dtv-userland-core'', s_core_root args), (U ''px4-userland'', s_px4_root args)]) (\<lambda>(stage, dependencies).
     andThen (staged stage (U ''repository/VERSION'')) (\<lambda>version_data.
     if version_data \<noteq> ascii_encode (s_version args @ [10])
     then fail ''--version does not match VERSION at --source-ref'' []
     else
     andThen (foldE (\<lambda>stage name. copy_staged stage (U ''repository/'' @ name) name) stage
       [U ''COPYING'', U ''LICENCE.siano'', U ''README.md'']) (\<lambda>stage.
     andThen (copy_staged stage (U ''repository/packaging/REBUILD.md'') (U ''BUILD-RELINK.md'')) (\<lambda>stage.
     andThen (staged stage (U ''LICENCE.siano'')) (\<lambda>licence.
     if sha256_bytes licence \<noteq> FIRMWARE_LICENSE_SHA256
     then fail ''repository LICENCE.siano does not match the pinned firmware license'' []
     else
     andThen (copy_input stage (s_libusb args) source_libusb) (\<lambda>stage.
     Inr (write_text stage (U ''DEPENDENCY-NOTICE.txt'')
         (source_notice (s_source_ref args) commit tree dependencies), commit, tree, dependencies))))))))"

definition source_output :: "package_lib \<Rightarrow> pystr \<Rightarrow> stage \<Rightarrow> disk_file" where
  "source_output lib version stage = \<lparr>f_name = source_archive_name version, f_is_file = True, f_is_symlink = False,
     f_data = write_deterministic_tar lib stage\<rparr>"

definition source_main :: "package_lib \<Rightarrow> container_lib \<Rightarrow> source_args \<Rightarrow> disk_file res" where
  "source_main lib L args =
     (if \<not> version_re (s_version args) then fail ''version must be strict N.N.N'' []
      else if s_output_exists args \<or> s_output_symlink args
      then fail ''refusing to overwrite existing archive: {}'' [source_archive_name (s_version args)]
      else
      andThen (verify_libusb_archive lib (s_libusb args)) (\<lambda>_.
      andThen (source_stage args) (\<lambda>(stage, commit, tree, dependencies).
      let output = source_output lib (s_version args)
            (source_finish lib (s_version args) (s_source_ref args) commit tree dependencies stage) in
      andThen (audit_source_archive L output) (\<lambda>_. Inr output))))"

text \<open>
  \<open>--prepare-dependencies\<close>: \<open>existing\<close> is the repository found at the target, and \<open>fresh\<close> the
  one that \<open>git init\<close> is run in when there is none; the lines that are printed.
\<close>

definition prepare_dependency ::
  "(pystr \<Rightarrow> input_file) \<Rightarrow> (pystr \<Rightarrow> git_root option) \<Rightarrow> (pystr \<Rightarrow> git_root) \<Rightarrow> pystr \<Rightarrow> pystr res" where
  "prepare_dependency repo existing fresh name =
     andThen (read_revision repo name) (\<lambda>revision.
     if \<not> hex_id 40 revision then fail ''invalid {} revision'' [name]
     else
     andThen (case existing name of
         Some target \<Rightarrow>
           andThen (run_git_text target [U ''rev-parse'', U ''HEAD'']) (\<lambda>current.
           if current \<noteq> revision
           then fail ''refusing to overwrite a different/dirty dependency: {}'' [name]
           else andThen (run_git_text target [U ''status'', U ''--porcelain'']) (\<lambda>status.
             if status \<noteq> [] then fail ''refusing to overwrite a different/dirty dependency: {}'' [name]
             else Inr ()))
       | None \<Rightarrow>
           forE (\<lambda>arguments. andThen (run_git_text (fresh name) arguments) (\<lambda>_. Inr ()))
             [[U ''init'', U ''-q''],
              [U ''fetch'', U ''--depth=1'', U ''https://github.com/Khronos31/'' @ name @ U ''.git'', revision],
              [U ''checkout'', U ''--detach'', U ''-q'', U ''FETCH_HEAD'']]) (\<lambda>_.
     Inr (name @ [61] @ revision)))"

definition prepare_dependencies ::
  "(pystr \<Rightarrow> input_file) \<Rightarrow> (pystr \<Rightarrow> git_root option) \<Rightarrow> (pystr \<Rightarrow> git_root) \<Rightarrow> pystr list res" where
  "prepare_dependencies repo existing fresh =
     mapE (prepare_dependency repo existing fresh) [U ''dtv-userland-core'', U ''px4-userland'']"

end
