(* ===== verification/PackageSourceFacts.thy ===== *)
theory PackageSourceFacts
  imports PackageSource StageFacts SourceFacts
begin

section \<open>The source packager and the audit agree\<close>

text \<open>
  The source manifest, the notice and the checksums that \<open>package-source.py\<close> writes are the
  ones that \<open>audit_source_archive\<close> accepts, and every file of a snapshot lies below its own
  directory of the archive under a name that is not forbidden.
\<close>

subsection \<open>Notices read back\<close>

definition line_text :: "pystr \<Rightarrow> bool" where
  "line_text s \<longleftrightarrow> list_all (\<lambda>c. is_scalar c \<and> \<not> is_linebreak c) s"

lemma line_text_simps [simp]:
  "line_text []" "line_text (s @ t) \<longleftrightarrow> line_text s \<and> line_text t"
  "line_text (c # s) \<longleftrightarrow> is_scalar c \<and> \<not> is_linebreak c \<and> line_text s"
  by (auto simp: line_text_def)

lemma set_lines: "x \<in> set (concat (map (\<lambda>l. l @ [10]) ls)) \<Longrightarrow> x = 10 \<or> (\<exists>l \<in> set ls. x \<in> set l)"
  by (auto split: if_splits)

lemma notice_written:
  assumes d: "distinct (map fst kvs)"
    and kv: "\<And>k v. (k, v) \<in> set kvs \<Longrightarrow> notice_key k \<and> line_text v"
  shows "notice_fields (utf8_encode (concat (map (\<lambda>(k, v). k @ [61] @ v @ [10]) kvs))) = Inr kvs"
proof -
  let ?ls = "map (\<lambda>(k, v). k @ [61] @ v) kvs"
  have k: "is_scalar c \<and> \<not> is_linebreak c" if "notice_key k" "c \<in> set k" for k c
    using that by (auto simp: notice_key_def list_all_iff is_scalar_def is_linebreak_def is_digit_def)
  have c: "is_scalar c \<and> \<not> is_linebreak c" if l: "l \<in> set ?ls" "c \<in> set l" for l c
  proof -
    obtain k' v where kv': "(k', v) \<in> set kvs" "l = k' @ [61] @ v" using l(1) by auto
    have "is_scalar 61 \<and> \<not> is_linebreak 61" by (simp add: is_scalar_def is_linebreak_def)
    moreover have "c \<in> set k' \<or> c = 61 \<or> c \<in> set v" using l(2) kv'(2) by auto
    ultimately show ?thesis using kv [OF kv'(1)] k [of k' c] by (auto simp: line_text_def list_all_iff)
  qed
  have body: "concat (map (\<lambda>(k, v). k @ [61] @ v @ [10]) kvs) = concat (map (\<lambda>l. l @ [10]) ?ls)"
    by (simp add: o_def split_def)
  have "is_scalar x" if x: "x \<in> set (concat (map (\<lambda>l. l @ [10]) ?ls))" for x
  proof (cases "x = 10")
    case False
    then obtain l where "l \<in> set ?ls" "x \<in> set l" using set_lines [OF x] by blast
    then show ?thesis using c by blast
  qed (simp add: is_scalar_def)
  then have "utf8_decode (utf8_encode (concat (map (\<lambda>l. l @ [10]) ?ls))) = Inr (concat (map (\<lambda>l. l @ [10]) ?ls))"
    by (intro utf8_decode_encode) (simp only: list_all_iff, blast)
  moreover have "splitlines (concat (map (\<lambda>l. l @ [10]) ?ls)) = ?ls"
    using splitlines_concat_lines [of ?ls "[]"] c by simp
  moreover have "filter field_line ?ls = ?ls"
    using kv by (intro filter_True) (fastforce simp: field_line_def)
  moreover have "map (split1 61) ?ls = kvs"
    unfolding map_map o_def using kv split1_append [OF notice_key_no_eq] by (intro map_idI) auto
  ultimately show ?thesis unfolding notice_fields_iff body using d by auto
qed


subsection \<open>The manifest\<close>

lemma hex_scalar: "hex_id n s \<Longrightarrow> list_all is_scalar s \<and> line_text s"
  using is_lower_hex_not_break by (fastforce simp: hex_id_def list_all_iff line_text_def is_scalar_def)

definition identified :: "(pystr \<times> dependency) list \<Rightarrow> bool" where
  "identified dependencies \<longleftrightarrow> map fst dependencies = [U ''dtv-userland-core'', U ''px4-userland''] \<and>
     list_all (\<lambda>(name, d). hex_id 40 (d_commit d) \<and> hex_id 40 (d_tree d)) dependencies"

lemma identified_iff:
  "identified dependencies \<longleftrightarrow> (\<exists>c p. dependencies = [(U ''dtv-userland-core'', c), (U ''px4-userland'', p)] \<and>
     hex_id 40 (d_commit c) \<and> hex_id 40 (d_tree c) \<and> hex_id 40 (d_commit p) \<and> hex_id 40 (d_tree p))"
  unfolding identified_def by (cases dependencies rule: remdups_adj.cases) (auto simp: Cons_eq_map_conv)

lemma plain_source_manifest:
  assumes "version_re version" "list_all is_scalar source_ref" "source_ref_re commit" "source_ref_re tree"
    "identified dependencies" "writable stage" "sized stage"
  shows "json_all plain_node (source_manifest version source_ref commit tree dependencies stage)"
proof -
  obtain c p where "dependencies = [(U ''dtv-userland-core'', c), (U ''px4-userland'', p)]"
    "hex_id 40 (d_commit c)" "hex_id 40 (d_tree c)" "hex_id 40 (d_commit p)" "hex_id 40 (d_tree p)"
    using assms(5) by (auto simp: identified_iff)
  then show ?thesis
    using assms(2) plain_inventory [OF assms(6,7)] version_scalar [OF assms(1)]
      source_ref_scalar [OF assms(3)] source_ref_scalar [OF assms(4)] hex_scalar
    by (simp add: source_manifest_def dependency_record_def small_int [of 1, simplified])
qed

lemma pinned_line [simp]:
  "line_text FIRMWARE_URL" "line_text FIRMWARE_SHA256" "line_text FIRMWARE_LICENSE_URL"
  "line_text FIRMWARE_LICENSE_SHA256" "line_text LIBUSB_VERSION" "line_text LIBUSB_SOURCE_URL"
  "line_text LIBUSB_SOURCE_SHA256" "line_text source_libusb"
  by (simp_all add: FIRMWARE_URL_def FIRMWARE_SHA256_def FIRMWARE_LICENSE_URL_def FIRMWARE_LICENSE_SHA256_def
      LIBUSB_VERSION_def LIBUSB_SOURCE_URL_def LIBUSB_SOURCE_SHA256_def source_libusb_def U_Cons
      is_scalar_def is_linebreak_def)

lemma source_ref_line: "source_ref_re r \<Longrightarrow> line_text r"
  using hex_scalar by (auto simp: source_ref_re_def)

lemma source_notice_read:
  assumes "line_text source_ref" "source_ref_re commit" "source_ref_re tree" "identified dependencies"
  shows "notice_fields (utf8_encode (source_notice source_ref commit tree dependencies)) =
    Inr (source_notice_fields source_ref commit tree dependencies)"
  unfolding source_notice_def
proof (rule notice_written)
  obtain c p where d: "dependencies = [(U ''dtv-userland-core'', c), (U ''px4-userland'', p)]"
    and hex: "hex_id 40 (d_commit c)" "hex_id 40 (d_tree c)" "hex_id 40 (d_commit p)" "hex_id 40 (d_tree p)"
    using assms(4) by (auto simp: identified_iff)
  note lines = hex [THEN hex_scalar, THEN conjunct2] source_ref_line [OF assms(2)] source_ref_line [OF assms(3)]
  show "distinct (map fst (source_notice_fields source_ref commit tree dependencies))"
    by (simp add: source_notice_fields_def d U_append)
  have "list_all (\<lambda>(k, v). notice_key k) (source_notice_fields source_ref commit tree dependencies)"
    by (simp add: source_notice_fields_def d notice_key_def U_Cons is_digit_def)
  moreover have "list_all (\<lambda>(k, v). line_text v) (source_notice_fields source_ref commit tree dependencies)"
    using lines assms(1) by (simp add: source_notice_fields_def d U_Cons is_scalar_def is_linebreak_def)
  moreover fix k v assume "(k, v) \<in> set (source_notice_fields source_ref commit tree dependencies)"
  ultimately show "notice_key k \<and> line_text v" by (auto simp: list_all_iff)
qed

lemma source_manifest_get:
  "jget (obj_items (sort_json (source_manifest version source_ref commit tree dependencies stage))) k =
     sort_json (jget (obj_items (source_manifest version source_ref commit tree dependencies stage)) k)"
  unfolding source_manifest_def obj_items.simps by (rule jget_sort_json) simp

lemma source_files_accepted:
  assumes w: "writable stage"
    and k: "keys payloads - {U ''source-manifest.json'', U ''SHA256SUMS''} = keys stage"
    and m: "\<And>n. n \<in> keys stage \<Longrightarrow> map_of payloads n = map_option fst (map_of stage n)"
  shows "check_source_files payloads (sort_json (inventory stage)) = Inr ()"
proof -
  let ?i = "obj_items (sort_json (inventory stage))"
  have ok: "source_record_ok data (sort_json (file_record data))" for data
    by (simp add: source_record_ok_def file_record_def jget_def U_Cons insert_commute numeric_def)
  have "\<exists>data. map_of payloads n = Some data \<and> source_record_ok data rec" if n: "(n, rec) \<in> set ?i" for n rec
  proof -
    have "map_of ?i n = Some rec" using n inventory_read(2) [OF w] by simp
    then obtain f where "map_of stage n = Some f" "rec = sort_json (file_record (fst f))"
      by (auto simp: inventory_read [OF w])
    then show ?thesis using m [of n] ok by (auto simp: keys_iff_Some)
  qed
  moreover have "is_obj (sort_json (inventory stage))" by (simp add: inventory_def)
  ultimately show ?thesis
    by (auto simp: check_source_files_def k keys_inventory [OF w] res_simps)
qed

lemma source_name: "stage_name (U ''source-manifest.json'')" "posix_name (U ''source-manifest.json'') \<noteq> U ''SHA256SUMS''"
  by (simp_all add: stage_name_def res_simps posix_parts_def posix_name_def U_Cons is_linebreak_def startswith_def endswith_def)

lemma provenance_accepted:
  assumes "version_re version" "source_ref \<noteq> []" "source_ref_re commit" "source_ref_re tree"
    and "map_of payloads (U ''repository/VERSION'') = Some (ascii_encode (version @ [10]))"
    and "check_source_files payloads (sort_json (inventory stage)) = Inr ()"
  shows "check_provenance payloads
    (obj_items (sort_json (source_manifest version source_ref commit tree dependencies stage))) = Inr ()"
proof -
  let ?m = "obj_items (sort_json (source_manifest version source_ref commit tree dependencies stage))"
  have j: "jget ?m (U k) = sort_json (jget (obj_items (source_manifest version source_ref commit tree dependencies stage)) (U k))"
    for k by (rule source_manifest_get)
  have v: "jget ?m (U ''version'') = JStr version" "jget ?m (U ''source_ref'') = JStr source_ref"
    "jget ?m (U ''resolved_commit'') = JStr commit" "jget ?m (U ''tree'') = JStr tree"
    "jget ?m (U ''files'') = sort_json (inventory stage)"
    unfolding j by (simp_all add: source_manifest_def jget_def)
  have "\<not> list_ex (\<lambda>(k, v). \<not> py_eq (jget ?m (U k)) v) expected_provenance"
    unfolding j by (simp add: source_manifest_def expected_provenance_def jget_def numeric_def)
  then show ?thesis using assms by (simp add: check_provenance_def Let_def v res_simps validate_version_def)
qed

subsection \<open>The two filters for forbidden members\<close>

lemma ci_dot: "ci_eq 46 c \<longleftrightarrow> c = 46"
  by (auto simp: ci_eq_def)

lemma dotted_after_prefix:
  assumes "46 \<notin> set a" and "a @ s = l @ d @ r" and "ci_word (46 # w) d"
  shows "\<exists>l'. s = l' @ d @ r"
proof -
  obtain d' where d: "d = 46 # d'" using assms(3) by (auto simp: ci_word_def ci_dot list_all2_Cons1)
  from assms(2) consider u where "a = l @ u" "d @ r = u @ s" | u where "l = a @ u" "s = u @ d @ r"
    unfolding append_eq_append_conv2 by metis
  then show ?thesis
  proof cases
    case 1
    then show ?thesis using assms(1) d by (cases u) auto
  qed blast
qed

lemma has_ci_prefix: "46 \<notin> set a \<Longrightarrow> has_ci (a @ s) (46 # w) \<longleftrightarrow> has_ci s (46 # w)"
proof
  assume "has_ci s (46 # w)"
  then obtain l e r where "s = l @ e @ r" "ci_word (46 # w) e" by (auto simp: has_ci_def)
  then show "has_ci (a @ s) (46 # w)" 
    unfolding has_ci_def by (intro exI [of _ "a @ l"] exI [of _ e] exI [of _ r]) simp
next
  assume a: "46 \<notin> set a" and "has_ci (a @ s) (46 # w)"
  then obtain l e r where l: "a @ s = l @ e @ r" and e: "ci_word (46 # w) e" by (auto simp: has_ci_def)
  obtain l' where "s = l' @ e @ r" using dotted_after_prefix [OF a l e] by blast
  then show "has_ci s (46 # w)" unfolding has_ci_def using e by (intro exI [of _ l'] exI [of _ e] exI [of _ r]) simp
qed

lemma ends_ci_prefix: "46 \<notin> set a \<Longrightarrow> ends_ci (a @ s) (46 # w) \<longleftrightarrow> ends_ci s (46 # w)"
proof
  assume "ends_ci s (46 # w)"
  then obtain l e where "s = l @ e" "ci_word (46 # w) e" by (auto simp: ends_ci_def)
  then show "ends_ci (a @ s) (46 # w)" 
    unfolding ends_ci_def by (intro exI [of _ "a @ l"] exI [of _ e]) simp
next
  assume "46 \<notin> set a" "ends_ci (a @ s) (46 # w)"
  then obtain l e where "46 \<notin> set a" "a @ s = l @ e @ []" "ci_word (46 # w) e" by (auto simp: ends_ci_def)
  then show "ends_ci s (46 # w)" using dotted_after_prefix [of a s l e "[]" w] by (auto simp: ends_ci_def)
qed

lemma split_on_append_sep: "c \<notin> set a \<Longrightarrow> split_on c (a @ c # s) = a # split_on c s"
  by (induction a) auto

lemma forbidden_path_repository: "forbidden_path (U ''repository/'' @ s) \<longleftrightarrow> forbidden_path s"
proof -
  have "split_on 47 (U ''repository'' @ 47 # s) = U ''repository'' # split_on 47 s"
    by (rule split_on_append_sep) (simp add: U_Cons)
  then have "split_on 47 (U ''repository/'' @ s) = U ''repository'' # split_on 47 s" by (simp add: U_Cons)
  moreover have "\<not> forbidden_part (U ''repository'')"
    by (simp add: forbidden_part_def forbidden_dirs_def ci_word_def U_Cons ci_eq_def)
  moreover have "46 \<notin> set (U ''repository/'')" by (simp add: U_Cons)
  note has_ci_prefix [OF this] ends_ci_prefix [OF this]
  ultimately show ?thesis by (simp add: forbidden_path_def forbidden_suffixes_def U_Cons [of "CHR ''.''"])
qed

lemma repository_forbidden:
  assumes "10 \<notin> set name"
  shows "forbidden_source_member (U ''repository/'' @ name) \<longleftrightarrow> re_search SOURCE_FORBIDDEN name \<noteq> None"
proof -
  have "checked_member (U ''repository/'' @ name) = U ''repository/'' @ name"
    by (simp add: checked_member_def startswith_def U_Cons)
  moreover have "10 \<notin> set (U ''repository/'' @ name)" using assms by (simp add: U_Cons)
  ultimately show ?thesis
    unfolding forbidden_source_member_def using search_forbidden assms forbidden_path_repository by metis
qed

subsection \<open>Properties\<close>


definition sample_dependency :: dependency where
  "sample_dependency = \<lparr>d_commit = replicate 40 98, d_tree = replicate 40 99\<rparr>"

definition sample_dependencies :: "(pystr \<times> dependency) list" where
  "sample_dependencies = [(U ''dtv-userland-core'', sample_dependency), (U ''px4-userland'', sample_dependency)]"

definition sample_source_stage :: stage where
  "sample_source_stage =
     [(U ''repository/VERSION'', ascii_encode (U ''1.2.3'' @ [10]), 0x1A4),
      (U ''DEPENDENCY-NOTICE.txt'',
        utf8_encode (source_notice (U ''HEAD'') (replicate 40 97) (replicate 40 98) sample_dependencies), 0x1A4)]"

lemma sample_notice_length:
  "length (utf8_encode (source_notice (U ''HEAD'') (replicate 40 97) (replicate 40 98) sample_dependencies)) < 10000"
proof -
  let ?s = "source_notice (U ''HEAD'') (replicate 40 97) (replicate 40 98) sample_dependencies"
  have "length (utf8_encode s) \<le> 4 * length s" for s
    by (induction s) (auto simp: utf8_encode_def utf8_char_def)
  from this [of ?s] have "length (utf8_encode ?s) \<le> 4 * length ?s" .
  moreover have "length (source_notice (U ''HEAD'') (replicate 40 97) (replicate 40 98) sample_dependencies) < 2500"
    by (simp add: source_notice_def source_notice_fields_def sample_dependencies_def sample_dependency_def FIRMWARE_URL_def
      FIRMWARE_SHA256_def FIRMWARE_LICENSE_URL_def FIRMWARE_LICENSE_SHA256_def LIBUSB_VERSION_def
      LIBUSB_SOURCE_URL_def LIBUSB_SOURCE_SHA256_def source_libusb_def)
  ultimately show ?thesis by linarith
qed


text \<open>C13. The packager refuses exactly the repository files that the audit would refuse: a regular file of the
  commit with a clean relative name is put into the stage if and only if \<open>check_member\<close> accepts
  the name it has in the archive.\<close>

theorem snapshot_filter_matches_audit:
  assumes "10 \<notin> set name" and "posix_str name = name" and "name \<noteq> U ''.''" and "\<not> escapes name"
  shows "(\<exists>stage'. repository_member stage
      \<lparr>tr_name = name, tr_kind = Regular_file, tr_mode = mode, tr_content = Inr (Some data)\<rparr> = Inr stage') \<longleftrightarrow>
    check_member (U ''repository/'' @ name) = Inr ()"
proof -
  have "posix_parts name \<noteq> []" using assms(2,3) by (auto simp: posix_str_def U_Cons)
  moreover have "check_member (U ''repository/'' @ name) = Inr () \<longleftrightarrow> \<not> forbidden_source_member (U ''repository/'' @ name)"
    by (auto simp: check_member_def source_prefixes_def fail_def)
  ultimately show ?thesis
    using assms(4) repository_forbidden [OF assms(1)] by (simp add: repository_member_def fail_def)
qed

theorem snapshot_filter_matches_audit_witness:
  "check_member (U ''repository/'' @ U ''build/a'') \<noteq> Inr () \<and> repository_member []
     \<lparr>tr_name = U ''build/a'', tr_kind = Regular_file, tr_mode = 0x1A4, tr_content = Inr (Some [])\<rparr> =
     fail ''forbidden source tree member: {}'' [U ''build/a'']"
proof -
  let ?m = "repository_member []
     \<lparr>tr_name = U ''build/a'', tr_kind = Regular_file, tr_mode = 0x1A4, tr_content = Inr (Some [])\<rparr>"
  have "(\<exists>stage'. ?m = Inr stage') \<longleftrightarrow> check_member (U ''repository/'' @ U ''build/a'') = Inr ()"
    by (rule snapshot_filter_matches_audit) (simp_all add: U_Cons posix_str_def posix_parts_def escapes_def startswith_def)
  moreover have "forbidden_path (U ''build/a'')"
    by (simp add: forbidden_path_def forbidden_part_def ci_word_def U_Cons ci_eq_def)
  then have "re_search SOURCE_FORBIDDEN (U ''build/a'') \<noteq> None"
    using search_forbidden [of "U ''build/a''"] by (simp add: U_Cons)
  then have "?m = fail ''forbidden source tree member: {}'' [U ''build/a'']"
    by (simp add: repository_member_def escapes_def startswith_def posix_parts_def U_Cons)
  ultimately show ?thesis by (simp add: fail_def)
qed

end
