(* ===== verification/NoticeFacts.thy ===== *)
theory NoticeFacts
  imports PackagingFacts PackageSourceFacts
begin

section \<open>The dependency notice and the audit agree\<close>

text \<open>
  The notice that \<open>package-artifact.py\<close> fills into the template of the repository is read back by
  \<open>notice_fields\<close> as its fields, and these are the ones that the audit of the platform demands.
\<close>

subsection \<open>The template\<close>

definition NOTICE_TAIL :: "string list" where
  "NOTICE_TAIL = [
     ''Linux packages contain the exact musl copyright and GCC GPL/runtime exception'',
     ''under toolchain/. build.properties identifies the compiler, libc, libgcc and'',
     ''libstdc++ static archive versions, package owners and hashes used by this build.'',
     '''',
     ''The application source is GPL-2.0-or-later; see COPYING.'',
     ''The linked PX4 host facade and Core host adapters are GPL-2.0-only.'',
     ''The Core engine library is MIT. Corresponding source, full license texts and'',
     ''provenance are in third_party/px4-userland/ and third_party/dtv-userland-core/'',
     ''inside the matching project source archive. This package is not MIT-only.'',
     ''The Siano firmware is separately licensed; see LICENCE.siano.'',
     ''Firmware provenance is recorded in the archive manifest and SHA256SUMS.'']"

definition lines_text :: "pystr list \<Rightarrow> pystr" where
  "lines_text ls = concat (map (\<lambda>l. l @ [10]) ls)"

definition NOTICE_TEMPLATE :: pystr where
  "NOTICE_TEMPLATE = lines_text ([U ''Siano userland dependency notice'', U ''version=@VERSION@'',
     U ''platform=@PLATFORM@'', [], U ''@DEPENDENCY_TEXT@'', []] @ map U NOTICE_TAIL)"

lemma lines_text_simps [simp]:
  "lines_text [] = []" "lines_text (l # ls) = l @ 10 # lines_text ls"
  "lines_text (ls @ ms) = lines_text ls @ lines_text ms"
  by (simp_all add: lines_text_def)

lemma join_lines_text: "ls \<noteq> [] \<Longrightarrow> join [10] ls @ [10] = lines_text ls"
  by (induction "[10 :: nat]" ls rule: join.induct) auto

lemma replace_skip:
  "64 \<notin> set s \<Longrightarrow> replace_text (64 # old) new (s @ t) = s @ replace_text (64 # old) new t"
  by (induction s) (auto simp: startswith_def)

lemma replace_none: "64 \<notin> set s \<Longrightarrow> replace_text (64 # old) new s = s"
  using replace_skip [of s old new "[]"] by simp

lemma replace_cons: "c \<noteq> 64 \<Longrightarrow> replace_text (64 # old) new (c # t) = c # replace_text (64 # old) new t"
  by (simp add: startswith_def)

lemma replace_hit: "replace_text (c # d # old) new (c # d # old @ t) = new @ replace_text (c # d # old) new t"
  by (simp add: startswith_def)

lemma replace_miss:
  "x \<noteq> y \<Longrightarrow> replace_text (64 # y # old) new (64 # x # t) = 64 # replace_text (64 # y # old) new (x # t)"
  by (simp add: startswith_def)

lemmas replace_rules = replace_cons replace_skip replace_hit replace_miss replace_none

lemma no_at [simp]: "64 \<in> set (U s) \<longleftrightarrow> CHR ''@'' \<in> set s"
proof -
  have "(64 :: nat) = of_char (CHR ''@'')" by simp
  then show ?thesis unfolding U_def set_map image_iff by (simp only: of_char_eq_iff) blast
qed

lemma tail_no_at: "64 \<notin> set (lines_text (map U NOTICE_TAIL))"
  by (simp add: NOTICE_TAIL_def)

lemma rstrip_line: "c \<noteq> 10 \<Longrightarrow> rstrip_newlines (s @ [c, 10]) = s @ [c]"
  by (simp add: rstrip_newlines_def)

lemma tail_end: "\<exists>s. lines_text (map U NOTICE_TAIL) = s @ [46, 10]"
proof -
  have "lines_text (map U NOTICE_TAIL) = lines_text (map U (butlast NOTICE_TAIL)) @ U (last NOTICE_TAIL) @ [10]"
    by (simp add: NOTICE_TAIL_def)
  moreover have "U (last NOTICE_TAIL) = U (butlast (last NOTICE_TAIL)) @ [46]"
    by (simp add: NOTICE_TAIL_def U_Cons)
  ultimately show ?thesis by simp
qed

text \<open>The filled template, line by line.\<close>

definition filled_lines :: "pystr \<Rightarrow> pystr \<Rightarrow> pystr list \<Rightarrow> pystr list" where
  "filled_lines version platform flds = [U ''Siano userland dependency notice'', fld ''version'' version,
     fld ''platform'' platform, []] @ flds @ [[], explanation platform, []] @ map U NOTICE_TAIL"

lemma fill_template_lines:
  assumes "64 \<notin> set version" "64 \<notin> set platform" "flds \<noteq> []"
  shows "fill_template NOTICE_TEMPLATE version platform flds = lines_text (filled_lines version platform flds)"
proof -
  define A where "A = U ''Siano userland dependency notice'' @ 10 # U ''version=''"
  define tail where "tail = lines_text (map U NOTICE_TAIL)"
  define x where "x = join [10] flds @ [10, 10] @ explanation platform"
  note at = assms(1,2) tail_no_at [folded tail_def]
  have names: "U ''@VERSION@'' = 64 # 86 # U ''ERSION@''" "U ''@PLATFORM@'' = 64 # 80 # U ''LATFORM@''"
      "U ''@DEPENDENCY_TEXT@'' = 64 # 68 # U ''EPENDENCY_TEXT@''"
      "U ''ERSION@'' = U ''ERSION'' @ [64]" "U ''LATFORM@'' = U ''LATFORM'' @ [64]"
      "U ''EPENDENCY_TEXT@'' = U ''EPENDENCY_TEXT'' @ [64]"
    by (simp_all add: U_Cons)
  have split: "U ''version=@VERSION@'' = U ''version='' @ U ''@VERSION@''"
      "U ''platform=@PLATFORM@'' = U ''platform='' @ U ''@PLATFORM@''"
    by (simp_all add: U_append)
  have A: "64 \<notin> set A" by (simp add: A_def)
  have t: "NOTICE_TEMPLATE = A @ (64 # 86 # U ''ERSION@'' @ 10 # U ''platform='' @ 64 # 80 # U ''LATFORM'' @
      64 # 10 # 10 # 64 # 68 # U ''EPENDENCY_TEXT'' @ 64 # 10 # 10 # tail)"
    by (simp add: NOTICE_TEMPLATE_def A_def tail_def split names)
  have "replace_text (U ''@VERSION@'') version NOTICE_TEMPLATE = A @ version @ 10 # U ''platform='' @ 64 # 80 #
      U ''LATFORM'' @ 64 # 10 # 10 # 64 # 68 # U ''EPENDENCY_TEXT'' @ 64 # 10 # 10 # tail"
    unfolding t names(1) using at A by (simp add: replace_rules del: replace_text.simps)
  also have "\<dots> = A @ version @ 10 # U ''platform='' @ 64 # 80 # U ''LATFORM@'' @ 10 # 10 # 64 # 68 #
      U ''EPENDENCY_TEXT'' @ 64 # 10 # 10 # tail"
    by (simp add: names)
  finally have "replace_text (U ''@PLATFORM@'') platform (replace_text (U ''@VERSION@'') version NOTICE_TEMPLATE) =
      A @ version @ 10 # U ''platform='' @ platform @ 10 # 10 # 64 # 68 # U ''EPENDENCY_TEXT'' @ 64 # 10 # 10 # tail"
    unfolding names(2) using at A by (simp add: replace_rules del: replace_text.simps)
  also have "\<dots> = A @ version @ 10 # U ''platform='' @ platform @ 10 # 10 # 64 # 68 # U ''EPENDENCY_TEXT@'' @ 10 # 10 # tail"
    by (simp add: names)
  finally have r: "replace_text (U ''@DEPENDENCY_TEXT@'') x (replace_text (U ''@PLATFORM@'') platform
      (replace_text (U ''@VERSION@'') version NOTICE_TEMPLATE)) =
      A @ version @ 10 # U ''platform='' @ platform @ 10 # 10 # x @ 10 # 10 # tail"
    unfolding names(3) using at A by (simp add: replace_rules del: replace_text.simps)
  obtain e where e: "tail = e @ [46, 10]" using tail_end tail_def by blast
  have "rstrip_newlines (A @ version @ 10 # U ''platform='' @ platform @ 10 # 10 # x @ 10 # 10 # tail) @ [10] =
      A @ version @ 10 # U ''platform='' @ platform @ 10 # 10 # x @ 10 # 10 # tail"
    using rstrip_line [of 46 "A @ version @ 10 # U ''platform='' @ platform @ 10 # 10 # x @ 10 # 10 # e"] by (simp add: e)
  also have "\<dots> = lines_text (filled_lines version platform flds)"
    using join_lines_text [OF assms(3)]
    by (simp add: filled_lines_def x_def A_def tail_def fld_def U_Cons flip: append.assoc)
  finally show ?thesis unfolding fill_template_def x_def [symmetric] r .
qed

subsection \<open>Reading it back\<close>

text \<open>The prose of the notice holds no field, so its fields are the version, the platform and the given ones.\<close>

definition field_text :: "pystr \<times> pystr \<Rightarrow> pystr" where
  "field_text kv = fst kv @ [61] @ snd kv"

definition prose :: "pystr \<Rightarrow> bool" where
  "prose l \<longleftrightarrow> line_text l \<and> 61 \<notin> set l"

lemma prose_not_field: "prose l \<Longrightarrow> \<not> field_line l"
  by (auto simp: prose_def field_line_def)

lemma lines_read:
  assumes "list_all line_text ls"
  shows "notice_fields (utf8_encode (lines_text ls)) = Inr d \<longleftrightarrow>
    d = map (split1 61) (filter field_line ls) \<and> distinct (map fst d)"
proof -
  have c: "is_scalar c \<and> \<not> is_linebreak c" if "l \<in> set ls" "c \<in> set l" for l c
    using assms that by (auto simp: list_all_iff line_text_def)
  have "is_scalar x" if x: "x \<in> set (lines_text ls)" for x
  proof (cases "x = 10")
    case False
    then show ?thesis using set_lines [of x ls] x c unfolding lines_text_def by blast
  qed (simp add: is_scalar_def)
  then have "utf8_decode (utf8_encode (lines_text ls)) = Inr (lines_text ls)"
    by (intro utf8_decode_encode) (simp only: list_all_iff, blast)
  moreover have "splitlines (lines_text ls) = ls"
    using splitlines_concat_lines [of ls "[]"] c by (simp add: lines_text_def)
  ultimately show ?thesis unfolding notice_fields_iff by auto
qed

lemma fields_kept:
  assumes "list_all (\<lambda>(k, v). notice_key k) kvs"
  shows "filter field_line (map field_text kvs) = map field_text kvs"
    and "map (split1 61) (map field_text kvs) = kvs"
proof -
  show "filter field_line (map field_text kvs) = map field_text kvs"
    using assms by (intro filter_True) (fastforce simp: field_line_def field_text_def list_all_iff)
  show "map (split1 61) (map field_text kvs) = kvs"
    unfolding map_map o_def using assms split1_append [OF notice_key_no_eq]
    by (intro map_idI) (auto simp: field_text_def list_all_iff)
qed

lemma prose_texts:
  "list_all prose (map U NOTICE_TAIL)" "prose (U ''Siano userland dependency notice'')" "prose []"
  by (simp_all add: NOTICE_TAIL_def prose_def U_Cons is_scalar_def is_linebreak_def)

lemma prose_explanation: "prose (explanation platform)"
  by (simp add: explanation_def prose_def LIBUSB_VERSION_def U_Cons is_scalar_def is_linebreak_def)

lemma notice_read:
  assumes "line_text version" "line_text platform" "list_all (\<lambda>(k, v). notice_key k \<and> line_text v) kvs"
    and "distinct (U ''version'' # U ''platform'' # map fst kvs)"
  shows "notice_fields (utf8_encode (lines_text (filled_lines version platform (map field_text kvs)))) =
    Inr ((U ''version'', version) # (U ''platform'', platform) # kvs)"
proof -
  let ?kvs = "(U ''version'', version) # (U ''platform'', platform) # kvs"
  have keys: "notice_key (U ''version'')" "notice_key (U ''platform'')"
    by (simp_all add: notice_key_def U_Cons is_digit_def)
  then have all: "list_all (\<lambda>(k, v). notice_key k \<and> line_text v) ?kvs" using assms by simp
  have k: "list_all (\<lambda>(k, v). notice_key k) ?kvs" using all by (auto simp: list_all_iff)
  have "line_text (field_text kv)" if "kv \<in> set ?kvs" for kv
  proof -
    have "notice_key (fst kv)" "line_text (snd kv)" using all that by (auto simp: list_all_iff)
    moreover have "line_text key" if "notice_key key" for key
      using that by (auto simp: notice_key_def line_text_def list_all_iff is_scalar_def is_linebreak_def is_digit_def)
    ultimately show ?thesis by (simp add: field_text_def is_scalar_def is_linebreak_def)
  qed
  then have ft: "list_all line_text (map field_text ?kvs)" unfolding list_all_iff set_map by blast
  have lines: "filled_lines version platform (map field_text kvs) = [U ''Siano userland dependency notice'',
      field_text (U ''version'', version), field_text (U ''platform'', platform), []] @ map field_text kvs @
      [[], explanation platform, []] @ map U NOTICE_TAIL"
    by (simp add: filled_lines_def field_text_def fld_def)
  have pl: "list_all line_text (map U NOTICE_TAIL)" "line_text (U ''Siano userland dependency notice'')"
      "line_text (explanation platform)"
    using prose_texts prose_explanation [of platform] by (auto simp: prose_def list_all_iff)
  have lt: "list_all line_text (filled_lines version platform (map field_text kvs))"
    unfolding lines using ft pl by (simp del: list.pred_map)
  have "filter field_line (map U NOTICE_TAIL) = []"
    using prose_texts(1) prose_not_field by (auto simp: list_all_iff filter_empty_conv)
  then have "filter field_line (filled_lines version platform (map field_text kvs)) =
      filter field_line (map field_text ?kvs)"
    unfolding lines using prose_texts(2,3) [THEN prose_not_field] prose_explanation [THEN prose_not_field] by simp
  then show ?thesis unfolding lines_read [OF lt] using fields_kept [OF k] assms(4) by simp
qed

subsection \<open>The fields of each platform\<close>

definition pin_kvs :: "pystr \<Rightarrow> pystr \<Rightarrow> (pystr, pystr) dict" where
  "pin_kvs core px4 =
     [(U ''dependency.dtv-userland-core.commit'', core),
      (U ''dependency.dtv-userland-core.source'', U ''third_party/dtv-userland-core/''),
      (U ''dependency.px4-userland.commit'', px4), (U ''dependency.px4-userland.source'', U ''third_party/px4-userland/'')]"

definition common_kvs :: "pystr \<Rightarrow> pystr \<Rightarrow> (pystr, pystr) dict" where
  "common_kvs version source_ref =
     [(U ''source.ref'', source_ref), (U ''source.archive'', source_archive_name version),
      (U ''firmware.url'', FIRMWARE_URL), (U ''firmware.sha256'', FIRMWARE_SHA256),
      (U ''firmware.license.url'', FIRMWARE_LICENSE_URL),
      (U ''firmware.license.sha256'', FIRMWARE_LICENSE_SHA256)]"

lemma common_fields_kvs: "common_fields version source_ref = map field_text (common_kvs version source_ref)"
  by (simp add: common_fields_def common_kvs_def fld_def field_text_def)

lemma equals_U: "[61] = U ''=''"
  by (simp add: U_Cons)

lemma pin_fields_kvs:
  assumes "pin_fields repo_root = Inr pins"
  shows "\<exists>core px4. hex_id 40 core \<and> hex_id 40 px4 \<and> pins = map field_text (pin_kvs core px4)"
proof -
  have slash: "[47] = U ''/''" by (simp add: U_Cons)
  show ?thesis
    using assms
    by (auto simp: pin_fields_def res_simps pin_kvs_def field_text_def equals_U slash U_append simp flip: append.assoc)
qed

text \<open>What the audit of each platform demands of the notice.\<close>

definition audited_fields :: "pystr \<Rightarrow> pystr \<Rightarrow> (string \<times> pystr) list" where
  "audited_fields version platform =
     (if is_linux platform then
        [(''dependency.libusb.version'', LIBUSB_VERSION), (''dependency.libusb.linkage'', U ''static''),
         (''dependency.libusb.license'', U ''LGPL-2.1-or-later''),
         (''dependency.libusb.backend'', U ''netlink''), (''dependency.libusb.udev'', U ''disabled''),
         (''corresponding-source'', source_archive_name version),
         (''corresponding-source.path'', U ''third_party/libusb-'' @ LIBUSB_VERSION @ U ''.tar.bz2''),
         (''libusb.source.url'', LIBUSB_SOURCE_URL), (''libusb.source.sha256'', LIBUSB_SOURCE_SHA256)]
      else if is_android platform then
        [(''dependency.libusb.version'', LIBUSB_VERSION), (''dependency.libusb.linkage'', U ''static''),
         (''dependency.libusb.license'', U ''LGPL-2.1-or-later''),
         (''corresponding-source'', U ''libusb/libusb-'' @ LIBUSB_VERSION @ U ''.tar.bz2''),
         (''corresponding-source.sha256'', LIBUSB_SOURCE_SHA256)]
      else if is_windows platform then
        [(''dependency.libusb.version'', LIBUSB_VERSION), (''dependency.libusb.linkage'', U ''dynamic''),
         (''dependency.libusb.provider'', U ''bundled''), (''libusb.package.url'', WINDOWS_LIBUSB_PACKAGE_URL),
         (''libusb.package.sha256'', WINDOWS_LIBUSB_PACKAGE_SHA256),
         (''corresponding-source.sha256'', LIBUSB_SOURCE_SHA256)]
      else
        [(''dependency.libusb.version'', LIBUSB_VERSION), (''dependency.libusb.linkage'', U ''static''),
         (''dependency.libusb.license'', U ''LGPL-2.1-or-later''), (''dependency.libusb.backend'', U ''darwin''),
         (''corresponding-source'', source_archive_name version),
         (''corresponding-source.path'', U ''third_party/libusb-'' @ LIBUSB_VERSION @ U ''.tar.bz2''),
         (''libusb.source.url'', LIBUSB_SOURCE_URL), (''libusb.source.sha256'', LIBUSB_SOURCE_SHA256)])"

lemma platform_records_fields:
  "\<exists>g. \<forall>payloads modes fs. platform_records payloads modes fs version platform =
     andThen (check_fields ''dependency notice field mismatch: {}'' (audited_fields version platform) fs)
       (\<lambda>_. g payloads modes fs)"
proof -
  note defs = platform_records_def audited_fields_def linux_records_def android_records_def windows_records_def
    darwin_records_def Let_def
  consider "is_linux platform" | "\<not> is_linux platform" "is_android platform"
    | "\<not> is_linux platform" "\<not> is_android platform" "is_windows platform"
    | "\<not> is_linux platform" "\<not> is_android platform" "\<not> is_windows platform" by blast
  then show ?thesis
    by cases (simp only: defs if_True if_False simp_thms; intro exI allI; rule refl)+
qed

definition reserved_keys :: "pystr list" where
  "reserved_keys = map U [''version'', ''platform'', ''source.ref'', ''source.archive'', ''firmware.url'',
     ''firmware.sha256'', ''firmware.license.url'', ''firmware.license.sha256'',
     ''dependency.dtv-userland-core.commit'', ''dependency.dtv-userland-core.source'',
     ''dependency.px4-userland.commit'', ''dependency.px4-userland.source'']"

definition supplies :: "(string \<times> pystr) list \<Rightarrow> pystr \<Rightarrow> pystr \<Rightarrow> bool" where
  "supplies kvs version platform \<longleftrightarrow> list_all (\<lambda>(k, v). notice_key (U k)) kvs \<and> list_all (\<lambda>(k, v). line_text v) kvs \<and>
     distinct (reserved_keys @ map (\<lambda>kv. U (fst kv)) kvs) \<and>
     list_all (\<lambda>(k, v). map_of (map (\<lambda>(k, v). (U k, v)) kvs) (U k) = Some v) (audited_fields version platform)"

lemma suppliesI:
  assumes "list_all (\<lambda>k. notice_key (U k)) (map fst kvs)" "list_all line_text (map snd kvs)"
    "distinct (reserved_keys @ map U (map fst kvs))"
    "list_all (\<lambda>(k, v). map_of kvs k = Some v) (audited_fields version platform)"
  shows "supplies kvs version platform"
proof -
  have "map_of (map (\<lambda>(k, v). (U k, v)) kvs) (U k) = map_of kvs k" for k by (induction kvs) auto
  then show ?thesis using assms by (simp add: supplies_def list_all_iff split_def o_def)
qed

definition windows_kvs :: "(string \<times> pystr) list" where
  "windows_kvs =
     [(''dependency.libusb.version'', LIBUSB_VERSION), (''dependency.libusb.linkage'', U ''dynamic''),
      (''dependency.libusb.provider'', U ''bundled''), (''libusb.package.url'', WINDOWS_LIBUSB_PACKAGE_URL),
      (''libusb.package.sha256'', WINDOWS_LIBUSB_PACKAGE_SHA256),
      (''corresponding-source.sha256'', LIBUSB_SOURCE_SHA256)]"

definition darwin_kvs :: "pystr \<Rightarrow> (string \<times> pystr) list" where
  "darwin_kvs version =
     [(''dependency.libusb.version'', LIBUSB_VERSION), (''dependency.libusb.linkage'', U ''static''),
      (''dependency.libusb.license'', U ''LGPL-2.1-or-later''), (''dependency.libusb.backend'', U ''darwin''),
      (''corresponding-source'', source_archive_name version),
      (''corresponding-source.path'', U ''third_party/libusb-'' @ LIBUSB_VERSION @ U ''.tar.bz2''),
      (''libusb.source.url'', LIBUSB_SOURCE_URL), (''libusb.source.sha256'', LIBUSB_SOURCE_SHA256)]"

definition linux_kvs :: "pystr \<Rightarrow> (pystr, pystr) dict \<Rightarrow> (string \<times> pystr) list" where
  "linux_kvs version property_map =
     [(''dependency.libusb.version'', LIBUSB_VERSION), (''dependency.libusb.linkage'', U ''static''),
      (''dependency.libusb.license'', U ''LGPL-2.1-or-later''), (''dependency.libusb.backend'', U ''netlink''),
      (''dependency.libusb.udev'', U ''disabled''), (''corresponding-source'', source_archive_name version),
      (''corresponding-source.path'', U ''third_party/libusb-'' @ LIBUSB_VERSION @ U ''.tar.bz2''),
      (''libusb.source.url'', LIBUSB_SOURCE_URL), (''libusb.source.sha256'', LIBUSB_SOURCE_SHA256),
      (''dependency.libc.version'', dict_get property_map ''musl_package'' ''unknown''),
      (''dependency.compiler.version'', dict_get property_map ''compiler_version'' ''unknown''),
      (''dependency.compiler.target'', dict_get property_map ''compiler_target'' ''unknown''),
      (''dependency.runtime'', U ''libgcc''),
      (''dependency.runtime.version'', dict_get property_map ''libgcc_archive_owner'' ''unknown''),
      (''dependency.libstdcxx'', U ''static''),
      (''dependency.libstdcxx.version'', dict_get property_map ''libstdcxx_archive_owner'' ''unknown''),
      (''runtime-license-members'', join [44] (sort (map fst LINUX_RUNTIME_LICENSE_SHA256)))]"

definition android_kvs :: "(pystr, pystr) dict \<Rightarrow> (pystr, pystr) dict \<Rightarrow> (string \<times> pystr) list" where
  "android_kvs property_map hashes =
     [(''ndk_revision'', dict_get property_map ''ndk_revision'' ''''),
      (''ndk.source_properties.sha256'', dict_get hashes ''source_properties'' ''''),
      (''ndk.notice.sha256'', dict_get hashes ''notice'' ''''),
      (''ndk.notice_toolchain.sha256'', dict_get hashes ''notice_toolchain'' ''''),
      (''dependency.libusb.version'', LIBUSB_VERSION), (''dependency.libusb.linkage'', U ''static''),
      (''dependency.libusb.license'', U ''LGPL-2.1-or-later''),
      (''corresponding-source'', U ''libusb/libusb-'' @ LIBUSB_VERSION @ U ''.tar.bz2''),
      (''corresponding-source.sha256'', LIBUSB_SOURCE_SHA256)]"

definition fields_of :: "(string \<times> pystr) list \<Rightarrow> pystr list" where
  "fields_of kvs = map (\<lambda>(k, v). fld k v) kvs"

lemma literal_field: "fld k (U v) = U (k @ ''='' @ v)"
  by (simp add: fld_def equals_U U_append)

lemma windows_fields_kvs: "windows_fields = fields_of windows_kvs"
  and darwin_fields_kvs: "darwin_fields version = fields_of (darwin_kvs version)"
  by (simp_all add: windows_fields_def windows_kvs_def darwin_fields_def darwin_kvs_def fields_of_def literal_field)

lemma linux_fields_kvs:
  "linux_fields version bp = Inr flds \<longleftrightarrow> (\<exists>m. parse_properties (case bp of None \<Rightarrow> [] | Some s \<Rightarrow> s) = Inr m \<and>
     flds = fields_of (linux_kvs version m))"
  by (auto simp: linux_fields_def linux_kvs_def fields_of_def literal_field res_simps)

lemma android_fields_kvs:
  "android_fields bp hashes = Inr flds \<Longrightarrow> \<exists>m h. hashes = Some h \<and>
     parse_properties (case bp of None \<Rightarrow> [] | Some s \<Rightarrow> s) = Inr m \<and> flds = fields_of (android_kvs m h)"
  by (auto simp: android_fields_def android_kvs_def fields_of_def literal_field res_simps split: option.splits)

subsection \<open>The values are single lines\<close>

lemma property_values:
  assumes "parse_properties s = Inr m" "list_all is_scalar s"
  shows "line_text (dict_get m key (''unknown''))" "line_text (dict_get m key [])"
proof -
  have loop: "v \<in> snd ` set m \<Longrightarrow> parse_properties_loop r ls = Inr m \<Longrightarrow>
      v \<in> snd ` set r \<or> (\<exists>l \<in> set ls. set v \<subseteq> set l)" for v r ls
  proof (induction ls arbitrary: r)
    case (Cons l ls)
    have "set (snd (split1 61 l)) \<subseteq> set l"
      by (auto simp: split1_def dest!: in_set_dropD set_dropWhileD)
    moreover have "parse_properties_loop (r @ [split1 61 l]) ls = Inr m"
      using Cons.prems(2) by (auto simp: fail_def Let_def split: prod.splits if_splits)
    then have "v \<in> snd ` set (r @ [split1 61 l]) \<or> (\<exists>l \<in> set ls. set v \<subseteq> set l)"
      by (rule Cons.IH [OF Cons.prems(1)])
    ultimately show ?case by auto
  qed simp
  have v: "line_text v" if vm: "v \<in> snd ` set m" for v
  proof -
    obtain l where l: "l \<in> set (splitlines s)" "set v \<subseteq> set l"
      using loop [OF vm, of "[]" "splitlines s"] assms(1) by (auto simp: parse_properties_def)
    then show ?thesis
      using splitlines_no_break [OF l(1)] splitlines_set [OF l(1)] assms(2) by (auto simp: line_text_def list_all_iff)
  qed
  have "line_text (U ''unknown'')" by (simp add: U_Cons is_scalar_def is_linebreak_def)
  moreover have "line_text w" if "map_of m k = Some w" for k w
    using v [of w] map_of_SomeD [OF that] by force
  ultimately show "line_text (dict_get m key (''unknown''))" "line_text (dict_get m key [])"
    by (simp_all add: dict_get_def split: option.splits)
qed

lemma more_pinned_line [simp]:
  "line_text WINDOWS_LIBUSB_PACKAGE_URL" "line_text WINDOWS_LIBUSB_PACKAGE_SHA256"
  "line_text (join [44] (sort (map fst LINUX_RUNTIME_LICENSE_SHA256)))"
proof -
  have "line_text x" if "x \<in> set (map fst LINUX_RUNTIME_LICENSE_SHA256)" for x
    using that by (auto simp: LINUX_RUNTIME_LICENSE_SHA256_def U_Cons is_scalar_def is_linebreak_def)
  moreover have "line_text (join [44] xs)" if "\<And>x. x \<in> set xs \<Longrightarrow> line_text x" for xs
    using that by (induction "[44 :: nat]" xs rule: join.induct) (simp_all add: is_scalar_def is_linebreak_def)
  ultimately show "line_text (join [44] (sort (map fst LINUX_RUNTIME_LICENSE_SHA256)))" by (metis set_sort)
qed (simp_all add: WINDOWS_LIBUSB_PACKAGE_URL_def WINDOWS_LIBUSB_PACKAGE_SHA256_def U_Cons is_scalar_def is_linebreak_def)

lemma version_line: "version_re v \<Longrightarrow> line_text v \<and> 64 \<notin> set v"
  by (auto simp: version_re_iff line_text_def list_all_iff is_scalar_def is_linebreak_def is_digit_def; force)

lemma source_name_line: "version_re v \<Longrightarrow> line_text (source_archive_name v)"
  using version_line [of v] by (simp add: source_archive_name_def U_Cons is_scalar_def is_linebreak_def)

lemma literal_line:
  "list_all (\<lambda>s. line_text (U s)) [''static'', ''dynamic'', ''bundled'', ''LGPL-2.1-or-later'', ''darwin'', ''netlink'',
     ''disabled'', ''libgcc'', ''third_party/libusb-'', ''.tar.bz2'', ''libusb/libusb-'', ''third_party/dtv-userland-core/'',
     ''third_party/px4-userland/'']"
  by (simp add: U_Cons is_scalar_def is_linebreak_def)

lemmas literal_lines = literal_line [unfolded list.pred_inject, simplified]

lemma windows_supplies: "is_windows platform \<Longrightarrow> supplies windows_kvs version platform"
proof -
  assume "is_windows platform"
  then have p: "platform = U ''windows-x64''" by (simp add: is_windows_def)
  show ?thesis
  proof (rule suppliesI)
    show "list_all (\<lambda>k. notice_key (U k)) (map fst windows_kvs)"
      by (simp add: windows_kvs_def notice_key_def U_Cons is_digit_def)
    show "list_all line_text (map snd windows_kvs)" using literal_lines by (simp add: windows_kvs_def)
    show "distinct (reserved_keys @ map U (map fst windows_kvs))" by (simp add: windows_kvs_def reserved_keys_def)
    show "list_all (\<lambda>(k, v). map_of windows_kvs k = Some v) (audited_fields version platform)"
      by (simp add: p windows_kvs_def audited_fields_def package_kind)
  qed
qed

lemma darwin_supplies:
  assumes "platform = U ''darwin-arm64''" "version_re version"
  shows "supplies (darwin_kvs version) version platform"
proof (rule suppliesI)
  show "list_all (\<lambda>k. notice_key (U k)) (map fst (darwin_kvs version))"
    by (simp add: darwin_kvs_def notice_key_def U_Cons is_digit_def)
  show "list_all line_text (map snd (darwin_kvs version))"
    using literal_lines source_name_line [OF assms(2)] by (simp add: darwin_kvs_def)
  show "distinct (reserved_keys @ map U (map fst (darwin_kvs version)))" by (simp add: darwin_kvs_def reserved_keys_def)
  show "list_all (\<lambda>(k, v). map_of (darwin_kvs version) k = Some v) (audited_fields version platform)"
    by (simp add: assms(1) darwin_kvs_def audited_fields_def package_kind)
qed

lemma linux_supplies:
  assumes "is_linux platform" "version_re version" "\<And>key. line_text (dict_get m key (''unknown''))"
  shows "supplies (linux_kvs version m) version platform"
proof (rule suppliesI)
  show "list_all (\<lambda>k. notice_key (U k)) (map fst (linux_kvs version m))"
    by (simp add: linux_kvs_def notice_key_def U_Cons is_digit_def)
  show "list_all line_text (map snd (linux_kvs version m))"
    using literal_lines source_name_line [OF assms(2)] assms(3) by (simp add: linux_kvs_def)
  show "distinct (reserved_keys @ map U (map fst (linux_kvs version m)))" by (simp add: linux_kvs_def reserved_keys_def)
  show "list_all (\<lambda>(k, v). map_of (linux_kvs version m) k = Some v) (audited_fields version platform)"
    using assms(1) by (simp add: linux_kvs_def audited_fields_def)
qed

lemma android_supplies:
  assumes "is_android platform" "\<not> is_linux platform" "\<And>key. line_text (dict_get m key [])" "\<And>key. line_text (dict_get h key [])"
  shows "supplies (android_kvs m h) version platform"
proof (rule suppliesI)
  show "list_all (\<lambda>k. notice_key (U k)) (map fst (android_kvs m h))"
    by (simp add: android_kvs_def notice_key_def U_Cons is_digit_def)
  show "list_all line_text (map snd (android_kvs m h))"
    using literal_lines assms(3,4) by (simp add: android_kvs_def)
  show "distinct (reserved_keys @ map U (map fst (android_kvs m h)))" by (simp add: android_kvs_def reserved_keys_def)
  show "list_all (\<lambda>(k, v). map_of (android_kvs m h) k = Some v) (audited_fields version platform)"
    using assms(1,2) by (simp add: android_kvs_def audited_fields_def)
qed

text \<open>What the stage passes to the notice: decoded text and digests.\<close>

definition notice_inputs :: "pystr option \<Rightarrow> (pystr, pystr) dict option \<Rightarrow> bool" where
  "notice_inputs build_properties ndk_hashes \<longleftrightarrow>
     list_all is_scalar (case build_properties of None \<Rightarrow> [] | Some s \<Rightarrow> s) \<and>
     list_all (\<lambda>(k, v). hex_id 64 v) (case ndk_hashes of None \<Rightarrow> [] | Some h \<Rightarrow> h)"

lemma hash_line:
  assumes "list_all (\<lambda>(k, v). hex_id 64 v) h"
  shows "line_text (dict_get h key [])"
proof (cases "map_of h (U key)")
  case (Some v)
  then have "hex_id 64 v" using assms map_of_SomeD [OF Some] by (auto simp: list_all_iff)
  then show ?thesis using hex_scalar Some by (simp add: dict_get_def)
qed (simp add: dict_get_def)

lemma platform_fields_supplied:
  assumes "platform \<in> PACKAGE_PLATFORMS" "version_re version" "notice_inputs bp hashes"
    and "dependency_fields repo_root version platform source_ref bp hashes = Inr flds"
  shows "\<exists>core px4 kvs. hex_id 40 core \<and> hex_id 40 px4 \<and> supplies kvs version platform \<and>
    flds = common_fields version source_ref @ map field_text (pin_kvs core px4) @ fields_of kvs"
proof -
  obtain pins core px4 fs where pins: "pin_fields repo_root = Inr pins" "flds = common_fields version source_ref @ pins @ fs"
      "hex_id 40 core" "hex_id 40 px4" "pins = map field_text (pin_kvs core px4)"
    and fs: "(if is_android platform then android_fields bp hashes else if is_windows platform then Inr windows_fields
      else if is_linux_package platform then linux_fields version bp else Inr (darwin_fields version)) = Inr fs"
    using assms(4) pin_fields_kvs [of repo_root] by (fastforce simp: dependency_fields_def res_simps)
  have kind: "is_android platform \<and> \<not> is_linux platform \<or> \<not> is_android platform \<and> is_windows platform \<or>
      \<not> is_android platform \<and> \<not> is_windows platform \<and> is_linux_package platform \<and> is_linux platform \<or>
      \<not> is_android platform \<and> \<not> is_windows platform \<and> \<not> is_linux_package platform \<and> platform = U ''darwin-arm64''"
    using assms(1) by (rule package_platform_cases) (simp_all add: package_kind)
  have "\<exists>kvs. fs = fields_of kvs \<and> supplies kvs version platform"
    using kind
  proof (elim disjE conjE)
    assume k: "is_android platform" "\<not> is_linux platform"
    then obtain m h where mh: "hashes = Some h" "parse_properties (case bp of None \<Rightarrow> [] | Some s \<Rightarrow> s) = Inr m"
        "fs = fields_of (android_kvs m h)"
      using fs android_fields_kvs by fastforce
    then have "supplies (android_kvs m h) version platform"
      using k assms(3) by (intro android_supplies property_values(2) [OF mh(2)] hash_line) (auto simp: notice_inputs_def)
    then show ?thesis using mh(3) by blast
  next
    assume k: "\<not> is_android platform" "is_windows platform"
    then show ?thesis using fs windows_fields_kvs windows_supplies by auto
  next
    assume k: "\<not> is_android platform" "\<not> is_windows platform" "is_linux_package platform" "is_linux platform"
    then obtain m where m: "parse_properties (case bp of None \<Rightarrow> [] | Some s \<Rightarrow> s) = Inr m" "fs = fields_of (linux_kvs version m)"
      using fs by (auto simp: linux_fields_kvs)
    then have "supplies (linux_kvs version m) version platform"
      using k assms(2,3) by (intro linux_supplies property_values(1) [OF m(1)]) (auto simp: notice_inputs_def)
    then show ?thesis using m(2) by blast
  next
    assume k: "\<not> is_android platform" "\<not> is_windows platform" "\<not> is_linux_package platform" "platform = U ''darwin-arm64''"
    then have "fs = fields_of (darwin_kvs version)" using fs by (simp add: darwin_fields_kvs)
    then show ?thesis using darwin_supplies [OF k(4) assms(2)] by blast
  qed
  then show ?thesis using pins by blast
qed

subsection \<open>The notice passes the audit\<close>

definition notice_accepted :: "pystr \<Rightarrow> pystr \<Rightarrow> pystr \<Rightarrow> bytes \<Rightarrow> bool" where
  "notice_accepted version platform source_ref notice = (case notice_fields notice of
     Inl e \<Rightarrow> False
   | Inr fs \<Rightarrow> exact_firmware_fields fs = Inr () \<and>
       map_of fs (U ''source.archive'') = Some (source_archive_name version) \<and>
       check_fields ''dependency notice field mismatch: {}'' (audited_fields version platform) fs = Inr () \<and>
       map_of fs (U ''source.ref'') = Some source_ref \<and> map_of fs (U ''version'') = Some version \<and>
       map_of fs (U ''platform'') = Some platform)"

lemma template_decoded: "utf8_decode (utf8_encode NOTICE_TEMPLATE) = Inr NOTICE_TEMPLATE"
  by (rule utf8_decode_encode)
    (simp add: NOTICE_TEMPLATE_def NOTICE_TAIL_def U_Cons is_scalar_def)

lemma platform_line:
  "platform \<in> PACKAGE_PLATFORMS \<Longrightarrow> line_text platform \<and> 64 \<notin> set platform"
  by (erule package_platform_cases) (simp_all add: U_Cons is_scalar_def is_linebreak_def)

lemma supplied_notice:
  assumes "platform \<in> PACKAGE_PLATFORMS" "version_re version" "line_text source_ref"
    "hex_id 40 core" "hex_id 40 px4" "supplies kvs version platform"
  shows "notice_accepted version platform source_ref (utf8_encode (fill_template NOTICE_TEMPLATE version platform
    (common_fields version source_ref @ map field_text (pin_kvs core px4) @ fields_of kvs)))"
proof -
  define ps where "ps = map (\<lambda>(k, v). (U k, v)) kvs"
  define all where "all = common_kvs version source_ref @ pin_kvs core px4 @ ps"
  have flds: "common_fields version source_ref @ map field_text (pin_kvs core px4) @ fields_of kvs = map field_text all"
    by (auto simp: all_def ps_def common_fields_kvs fields_of_def field_text_def fld_def)
  have "list_all (\<lambda>(k, v). notice_key k \<and> line_text v) ps"
    using assms(6) by (auto simp: ps_def supplies_def list_all_iff)
  moreover have "list_all (\<lambda>(k, v). line_text v) (common_kvs version source_ref @ pin_kvs core px4)"
    using assms(3) assms(4,5) [THEN hex_scalar] literal_lines source_name_line [OF assms(2)]
    by (simp add: common_kvs_def pin_kvs_def)
  moreover have "list_all (\<lambda>(k, v). notice_key k) (common_kvs version source_ref @ pin_kvs core px4)"
    by (simp add: common_kvs_def pin_kvs_def notice_key_def U_Cons is_digit_def)
  ultimately have ok: "list_all (\<lambda>(k, v). notice_key k \<and> line_text v) all" by (auto simp: all_def list_all_iff)
  have "U ''version'' # U ''platform'' # map fst all = reserved_keys @ map fst ps"
    by (simp add: all_def common_kvs_def pin_kvs_def reserved_keys_def)
  moreover have "distinct (reserved_keys @ map fst ps)" using assms(6) by (simp add: supplies_def ps_def o_def split_def)
  ultimately have d: "distinct (U ''version'' # U ''platform'' # map fst all)" by (simp only:)
  define fs where "fs = (U ''version'', version) # (U ''platform'', platform) # all"
  have "notice_fields (utf8_encode (lines_text (filled_lines version platform (map field_text all)))) = Inr fs"
    unfolding fs_def using version_line [OF assms(2)] platform_line [OF assms(1)] ok d by (intro notice_read) auto
  moreover have "map field_text all \<noteq> []" by (simp add: all_def common_kvs_def)
  ultimately have read: "notice_fields (utf8_encode (fill_template NOTICE_TEMPLATE version platform (map field_text all))) = Inr fs"
    using version_line [OF assms(2)] platform_line [OF assms(1)] by (simp add: fill_template_lines)
  have get: "map_of fs k = Some v" if "(k, v) \<in> set fs" for k v
    using d that by (intro map_of_is_SomeI) (simp_all add: fs_def)
  have audited: "map_of fs (U k) = Some v" if "(k, v) \<in> set (audited_fields version platform)" for k v
  proof (rule get)
    have "map_of ps (U k) = Some v" using assms(6) that by (auto simp: supplies_def ps_def list_all_iff)
    then show "(U k, v) \<in> set fs" using map_of_SomeD [of ps "U k" v] by (simp add: fs_def all_def)
  qed
  have "list_all (\<lambda>(k, v). map_of fs k = Some v) ((U ''version'', version) # (U ''platform'', platform) # common_kvs version source_ref)"
    unfolding list_all_iff using get by (auto simp: fs_def all_def)
  note common = this [unfolded common_kvs_def list.pred_inject prod.case]
  show ?thesis
    unfolding notice_accepted_def flds read sum.case exact_firmware_fields_def check_fields_iff
    using audited common by (auto simp: list_all_iff)
qed

lemma notice_from_template:
  assumes "platform \<in> PACKAGE_PLATFORMS" "version_re version" "line_text source_ref"
    and "notice_inputs build_properties ndk_hashes"
    and "f_data (repo_root (U ''packaging/DEPENDENCY-NOTICE.txt.in'')) = utf8_encode NOTICE_TEMPLATE"
    and "dependency_notice repo_root version platform source_ref build_properties ndk_hashes = Inr notice"
  shows "notice_accepted version platform source_ref (utf8_encode notice)"
proof -
  obtain flds where flds: "dependency_fields repo_root version platform source_ref build_properties ndk_hashes = Inr flds"
      "notice = fill_template NOTICE_TEMPLATE version platform flds"
    using assms(5,6) by (auto simp: dependency_notice_def Let_def res_simps template_decoded)
  then show ?thesis
    using platform_fields_supplied [OF assms(1,2,4) flds(1)] supplied_notice [OF assms(1-3)] by blast
qed

text \<open>What the stages before the notice pass on to it, and so the notice of the stage.\<close>

lemma staged_text_scalar: "staged_text stage name = Inr s \<Longrightarrow> list_all is_scalar s"
  using read_text_scalar by (auto simp: staged_text_def res_simps)

lemma stage_inputs:
  assumes "stage_android args stage = Inr (stage', bp, hashes)" "stage_properties args stage' bp = Inr (stage'', bp')"
  shows "notice_inputs bp' hashes"
proof -
  have "list_all is_scalar (case bp of None \<Rightarrow> [] | Some s \<Rightarrow> s) \<and>
      list_all (\<lambda>(k, v). hex_id 64 v) (case hashes of None \<Rightarrow> [] | Some h \<Rightarrow> h)"
    using assms(1) sha256_hex_id staged_text_scalar
    by (auto simp: stage_android_def res_simps split: if_splits)
  then show ?thesis
    using assms(2) staged_text_scalar by (auto simp: stage_properties_def notice_inputs_def res_simps split: if_splits)
qed

lemma package_notice_staged:
  assumes "a_platform args \<in> PACKAGE_PLATFORMS" "version_re (a_version args)" "line_text (a_source_ref args)"
    and "f_data (a_repo args (U ''packaging/DEPENDENCY-NOTICE.txt.in'')) = utf8_encode NOTICE_TEMPLATE"
    and "package_stage lib args = Inr stage"
  shows "\<exists>data mode. map_of stage (U ''DEPENDENCY-NOTICE.txt'') = Some (data, mode) \<and>
    notice_accepted (a_version args) (a_platform args) (a_source_ref args) data"
proof -
  obtain s1 s2 s3 s4 bp hashes bp' notice where
    st: "stage_android args s1 = Inr (s2, bp, hashes)" "stage_properties args s2 bp = Inr (s3, bp')" and
    n: "dependency_notice (a_repo args) (a_version args) (a_platform args) (a_source_ref args) bp' hashes = Inr notice" and
    "stage = write_text s4 (U ''DEPENDENCY-NOTICE.txt'') notice"
    using assms(5) by (auto simp: package_stage_def res_simps split: prod.splits)
  then show ?thesis
    using notice_from_template [OF assms(1-3) stage_inputs [OF st], where repo_root = "a_repo args", OF assms(4) n]
    by (auto simp: write_text_def)
qed


definition example_repo :: "pystr \<Rightarrow> input_file" where
  "example_repo name = \<lparr>f_name = name, f_is_file = True, f_is_symlink = False,
     f_data = (if name = U ''packaging/DEPENDENCY-NOTICE.txt.in'' then utf8_encode NOTICE_TEMPLATE
       else ascii_encode (replicate 40 97)), f_mode = 0\<rparr>"


end
