(* ===== verification/Workflow.thy ===== *)
theory Workflow
  imports Regex DarwinText
begin

section \<open>Invariants of the release workflows\<close>

text \<open>
  \<open>check-workflow-invariants.py\<close>: the check of the two workflow files, the Windows makefile, the
  Windows baseline and the macOS build script that runs before every build. The files are texts;
  the checks cut a job out of a workflow, look for the commands it must hold, and report every
  missing one.

  A message is its fixed text with \<open>{}\<close> where the source interpolates, and the interpolated
  strings. The files are a function from path to content. The class of word characters outside
  ASCII, on which \<open>\b\<close> depends, and the iteration order of the two sets of job names are inputs.
\<close>

type_synonym message = "string \<times> pystr list"

subsection \<open>Searching in a text\<close>

text \<open>\<open>str.find\<close>, \<open>str.count\<close> for a non-empty substring, and \<open>str.split(sep, 1)\<close>.\<close>

fun find_at :: "'a list \<Rightarrow> 'a list \<Rightarrow> nat option" where
  "find_at [] p = (if p = [] then Some 0 else None)"
| "find_at (c # s) p = (if startswith (c # s) p then Some 0 else map_option Suc (find_at s p))"

definition str_find :: "'a list \<Rightarrow> 'a list \<Rightarrow> int" where
  "str_find s p = (case find_at s p of None \<Rightarrow> -1 | Some n \<Rightarrow> int n)"

function str_count :: "'a list \<Rightarrow> 'a list \<Rightarrow> nat" where
  "str_count [] p = 0"
| "str_count (c # s) p =
     (if startswith (c # s) p then Suc (str_count (drop (length p - 1) s) p) else str_count s p)"
  by pat_completeness auto
termination
  by (relation "measure (\<lambda>(s, p). length s)") auto

definition split_once :: "'a list \<Rightarrow> 'a list \<Rightarrow> 'a list list" where
  "split_once s sep = (case find_at s sep of None \<Rightarrow> [s]
     | Some n \<Rightarrow> [take n s, drop (n + length sep) s])"

definition replace_char :: "nat \<Rightarrow> nat \<Rightarrow> pystr \<Rightarrow> pystr" where
  "replace_char old new = map (\<lambda>c. if c = old then new else c)"

definition flag :: "bool \<Rightarrow> string \<Rightarrow> pystr list \<Rightarrow> message list" where
  "flag c m args = (if c then [(m, args)] else [])"

definition lacks :: "pystr \<Rightarrow> string \<Rightarrow> bool" where
  "lacks s w \<longleftrightarrow> \<not> contains s (U w)"

subsection \<open>Jobs and container blocks\<close>

text \<open>\<open>(?ms)^  JOB:\n.*?(?=^  [^ \n][^:]*:|\Z)\<close>\<close>

definition any :: re where
  "any = One (\<lambda>_. True)"

definition job_header :: "pystr \<Rightarrow> pystr" where
  "job_header job_id = U ''  '' @ job_id @ [58, 10]"

definition next_job :: re where
  "next_job = Seq Bol (Seq (lit ''  '') (Seq (One (\<lambda>c. c \<noteq> 32 \<and> c \<noteq> 10))
     (Seq (Star (One (\<lambda>c. c \<noteq> 58))) (lit '':''))))"

definition job_re :: "pystr \<Rightarrow> re" where
  "job_re job_id = Group 0 (Seq Bol (Seq (lit_re (job_header job_id))
     (Seq (LazyStar any) (Ahead (Alt next_job AtEnd)))))"

definition workflow_job :: "pystr \<Rightarrow> pystr \<Rightarrow> pystr res" where
  "workflow_job body job_id = (case re_search (job_re job_id) body of
     None \<Rightarrow> Inl (ValueError ''missing workflow job: {}'' [job_id])
   | Some found \<Rightarrow> Inr (group 0 found))"

definition job_failed :: "pystr \<Rightarrow> exc \<Rightarrow> message list" where
  "job_failed path e = (case e of ValueError m args \<Rightarrow> [(''{}: '' @ m, path # args)] | _ \<Rightarrow> [])"

text \<open>\<open>(?m)^[ \t]+docker run --rm[^\n]*\<close>\<close>

definition docker_run :: re where
  "docker_run = Group 0 (Seq Bol (Seq (plus (One (\<lambda>c. c = 32 \<or> c = 9)))
     (Seq (lit ''docker run --rm'') (Star dot))))"

definition match_start :: "pystr \<Rightarrow> re_state \<Rightarrow> nat" where
  "match_start body found = length body - length (rest found) - length (group 0 found)"

fun slices :: "'a list \<Rightarrow> nat list \<Rightarrow> 'a list list" where
  "slices body [] = []"
| "slices body [a] = [drop a body]"
| "slices body (a # b # bs) = take (b - a) (drop a body) # slices body (b # bs)"

definition build_container_blocks :: "pystr \<Rightarrow> pystr list" where
  "build_container_blocks body =
     slices body (map (match_start body) (re_findall docker_run body))"

subsection \<open>The Windows build\<close>

definition check_windows :: "pystr \<Rightarrow> pystr \<Rightarrow> message list" where
  "check_windows body path = (case workflow_job body (U ''windows'') of
     Inl e \<Rightarrow> job_failed path e
   | Inr job \<Rightarrow>
      (let helper_at = str_find job (U ''reproducible-windows-build.ps1'');
           help_at = str_find job (U ''siano-ts.exe --help'');
           audit_at = str_find job (U ''audit-artifact.py --platform windows-x64'');
           upload_at = str_find job (U ''uses: actions/upload-artifact@'') in
       flag (lacks job ''runs-on: windows-2022'') ''{}: Windows job must use windows-2022'' [path] @
       flag (lacks job ''reproducible-windows-build.ps1'')
         ''{}: Windows job must run the reproducibility helper'' [path] @
       flag (lacks job ''siano-ts.exe --help'') ''{}: Windows job must smoke-test the second build'' [path] @
       flag (lacks job ''nmake /f Makefile.win test'')
         ''{}: Windows job must execute the MSVC C unit tests'' [path] @
       flag (lacks job ''audit-artifact.py --platform windows-x64'')
         ''{}: Windows job must audit the second build'' [path] @
       flag (lacks job ''uses: actions/upload-artifact@'' \<or> lacks job ''name: bin-windows-x64'')
         ''{}: Windows job must upload the audited binary artifact'' [path] @
       flag (\<not> (0 \<le> helper_at \<and> helper_at < help_at \<and> help_at < audit_at \<and> audit_at < upload_at))
         ''{}: Windows reproducibility, smoke test, audit, and upload must be ordered'' [path] @
       flag (lacks job ''libusb-1.0.30.7z'')
         ''{}: Windows job must fetch pinned libusb 1.0.30 package'' [path]))"

definition check_release_version_guard :: "pystr \<Rightarrow> message list" where
  "check_release_version_guard release = (case workflow_job release (U ''preflight'') of
     Inl e \<Rightarrow> job_failed (U ''release.yml'') e
   | Inr preflight \<Rightarrow>
       flag (lacks preflight ''git fetch --force --tags origin'')
         ''release.yml: preflight must fetch authoritative tags'' [] @
       flag (lacks preflight ''scripts/check-release-version.py'' \<or> lacks preflight ''GITHUB_SHA'')
         ''release.yml: preflight must compare VERSION tag with source commit'' [] @
       flag (lacks preflight ''actions/checkout@'' \<or> lacks preflight ''fetch-depth: 0'')
         ''release.yml: preflight must checkout source with complete history'' [])"

text \<open>The word characters of \<open>\b\<close>: ASCII letters, digits and the underscore, then a given class.\<close>

definition word_char :: "(nat \<Rightarrow> bool) \<Rightarrow> nat \<Rightarrow> bool" where
  "word_char alnum c = (if c < 128 then is_digit c \<or> 65 \<le> c \<and> c \<le> 90 \<or> c = 95 \<or> 97 \<le> c \<and> c \<le> 122
     else alnum c)"

text \<open>\<open>(?m)^CFLAGS\s*=.*\s/Brepro(?:\s|$)\<close>\<close>

definition cflags_re :: re where
  "cflags_re = Seq Bol (Seq (lit ''CFLAGS'') (Seq (Star ws) (Seq (lit ''='') (Seq (Star dot)
     (Seq ws (Seq (lit ''/Brepro'') (Alt ws Eol)))))))"

text \<open>\<open>(?m)^test:.*\bPROGRAM\b\<close> and \<open>(?m)^\s*\.\\PROGRAM\s*$\<close>\<close>

definition builds_re :: "(nat \<Rightarrow> bool) \<Rightarrow> string \<Rightarrow> re" where
  "builds_re alnum program = Seq Bol (Seq (lit ''test:'') (Seq (Star dot)
     (Seq (WordB (word_char alnum)) (Seq (lit program) (WordB (word_char alnum))))))"

definition runs_re :: "string \<Rightarrow> re" where
  "runs_re program = Seq Bol (Seq (Star ws) (Seq (lit ''.'') (Seq (One (\<lambda>c. c = 92))
     (Seq (lit program) (Seq (Star ws) Eol)))))"

definition check_windows_makefile :: "(nat \<Rightarrow> bool) \<Rightarrow> pystr \<Rightarrow> message list" where
  "check_windows_makefile alnum body =
     flag (re_search cflags_re body = None) ''Makefile.win: CFLAGS must enable /Brepro'' [] @
     flag (lacks body ''-DCMAKE_EXE_LINKER_FLAGS=\"/Brepro\"'' \<or>
           lacks body ''--target sianod sianoctl siano_wire_ts'')
       ''Makefile.win: all three CMake programs must link with /Brepro'' [] @
     flag (re_search (builds_re alnum ''test-control-input.exe'') body = None)
       ''Makefile.win: Windows test target must build control-input pipe tests'' [] @
     flag (re_search (runs_re ''test-control-input.exe'') body = None)
       ''Makefile.win: Windows test target must run control-input pipe tests'' [] @
     flag (re_search (builds_re alnum ''test-write-policy.exe'') body = None)
       ''Makefile.win: Windows test target must build write boundary tests'' [] @
     flag (re_search (runs_re ''test-write-policy.exe'') body = None)
       ''Makefile.win: Windows test target must run write boundary tests'' []"

text \<open>\<open>re.fullmatch(r"[0-9a-f]{64}  siano-ts\.exe\n?", s)\<close>\<close>

definition baseline_re :: re where
  "baseline_re = Seq (foldr Seq (replicate 64 (One is_lower_hex)) Eps)
     (Seq (lit ''  siano-ts.exe'') (Alt (One (\<lambda>c. c = 10)) Eps))"

definition helper_conditions :: "string list" where
  "helper_conditions = [''git -C $root ls-files'', ''git -C $inputRoot ls-files'',
     ''@('sianod.exe', 'sianoctl.exe', 'siano-ts.exe')'', ''foreach ($program in $programs)'',
     ''$firstBytes[$index] -ne $secondBytes[$index]'', ''$firstBytes.Length -ne $secondBytes.Length'',
     ''actualHash'']"

text \<open>Only an \<open>OSError\<close> of a read is reported; a decoding error leaves the function.\<close>

definition check_windows_baseline :: "(pystr \<Rightarrow> file_read) \<Rightarrow> pystr \<Rightarrow> pystr \<Rightarrow> message list res" where
  "check_windows_baseline files baseline helper = (case read_text (files baseline) of
     Inl (OSError m args) \<Rightarrow> Inr [(''{}: cannot read Windows baseline: '' @ m, baseline # args)]
   | Inl e \<Rightarrow> Inl e
   | Inr baseline_text \<Rightarrow>
      (let errors = flag (re_fullmatch baseline_re baseline_text = None)
             ''{}: must contain one lowercase SHA-256 line for siano-ts.exe'' [baseline] in
       case read_text (files helper) of
         Inl (OSError m args) \<Rightarrow>
           Inr (errors @ [(''{}: cannot read Windows reproducibility helper: '' @ m, helper # args)])
       | Inl e \<Rightarrow> Inl e
       | Inr helper_text \<Rightarrow> Inr (errors @
           flag (lacks (replace_char 92 47 helper_text) ''packaging/windows-baseline.sha256'')
             ''{}: must reference the Windows baseline file'' [helper] @
           flag (lacks helper_text ''Get-FileHash'' \<or> lacks helper_text ''-Algorithm SHA256'')
             ''{}: must hash the generated EXE with SHA-256'' [helper] @
           flag (lacks helper_text ''legacyBaselineHash'')
             ''{}: must retain the historical standalone baseline'' [helper] @
           concat (map (\<lambda>condition. flag (lacks helper_text condition)
             ''{}: missing three-program exact-input reproducibility condition: {}'' [helper, U condition])
             helper_conditions))))"

subsection \<open>The macOS build\<close>

text \<open>\<open>strip_bin"[^\n]*\s-N\b\<close>\<close>

definition strip_N_re :: "(nat \<Rightarrow> bool) \<Rightarrow> re" where
  "strip_N_re alnum = Seq (lit ''strip_bin\"'') (Seq (Star dot) (Seq ws (Seq (lit ''-N'')
     (WordB (word_char alnum)))))"

definition check_macos_strip :: "(nat \<Rightarrow> bool) \<Rightarrow> pystr \<Rightarrow> pystr \<Rightarrow> pystr \<Rightarrow> message list" where
  "check_macos_strip alnum body path build_script = (case workflow_job body (U ''macos'') of
     Inl e \<Rightarrow> job_failed path e
   | Inr job \<Rightarrow>
       flag (lacks job ''scripts/build-macos-static.sh'')
         ''{}: macOS job must build with scripts/build-macos-static.sh'' [path] @
       flag (\<not> lacks job ''brew install'') ''{}: macOS job must not install Homebrew libusb'' [path] @
       flag (lacks job ''otool -L build/darwin-arm64/siano-ts'')
         ''{}: macOS job must print the release binary's dylib load commands'' [path] @
       flag (lacks job ''command -v otool'' \<or> lacks job ''command -v lipo'' \<or> lacks job ''command -v nm'')
         ''{}: macOS job must verify native otool/lipo/nm availability'' [path] @
       flag (lacks build_script ''xcrun --find strip'' \<or>
             lacks build_script ''-S -x \"$build_root/$program\"'' \<or>
             lacks build_script ''for program in sianod sianoctl siano-ts; do'')
         ''build-macos-static.sh: must use Apple strip -S -x'' [] @
       flag (re_search (strip_N_re alnum) build_script \<noteq> None)
         ''build-macos-static.sh: must not use Apple strip -N'' [] @
       flag (lacks build_script ''\"$build_root/$program\" --help'')
         ''build-macos-static.sh: must smoke-test all stripped binaries'' [] @
       flag (lacks build_script ''audit-artifact.sh\" --platform darwin-arm64'')
         ''build-macos-static.sh: must audit the stripped binary'' [])"

text \<open>\<open>job.split("needs:", 1)[-1].split("runs-on:", 1)[0]\<close>\<close>

definition needs_part :: "pystr \<Rightarrow> pystr" where
  "needs_part job = hd (split_once (last (split_once job (U ''needs:''))) (U ''runs-on:''))"

definition check_macos_release :: "pystr \<Rightarrow> message list" where
  "check_macos_release release =
     (case andThen (workflow_job release (U ''source-relink-darwin-arm64'')) (\<lambda>relink_job.
           andThen (workflow_job release (U ''package'')) (\<lambda>package_job. Inr (relink_job, package_job))) of
     Inl e \<Rightarrow> job_failed (U ''release.yml'') e
   | Inr (relink_job, package_job) \<Rightarrow>
      (let darwin_lines = filter (\<lambda>line. \<not> lacks line ''scripts/package-artifact.sh --platform darwin-arm64'')
             (splitlines package_job) in
       flag (lacks relink_job ''runs-on: macos-14'' \<or> lacks relink_job ''test-static-relink.sh'' \<or>
             lacks relink_job ''--arch arm64'')
         ''release.yml: macOS relink job must run test-static-relink.sh --arch arm64 on macos-14'' [] @
       flag (lacks (needs_part package_job) ''source-relink-darwin-arm64'')
         ''release.yml: package job must depend on the macOS relink job'' [] @
       flag (length darwin_lines \<noteq> 1 \<or> lacks (hd darwin_lines) ''--libusb-source-archive'')
         ''release.yml: macOS package must carry the libusb source archive'' []))"

subsection \<open>The packaged programs\<close>

definition check_packaged_runtime :: "pystr \<Rightarrow> pystr \<Rightarrow> pystr \<Rightarrow> pystr \<Rightarrow> message list" where
  "check_packaged_runtime body path job_id artifact_name = (case workflow_job body job_id of
     Inl e \<Rightarrow> job_failed path e
   | Inr job \<Rightarrow>
      (let checkout_at = str_find job (U ''actions/checkout@'');
           download_at = str_find job (U ''actions/download-artifact@'') in
       flag (lacks job ''actions/download-artifact@'' \<or> \<not> contains job (U ''name: '' @ artifact_name))
         ''{}: {} must download {}'' [path, job_id, artifact_name] @
       flag (checkout_at < 0 \<or> download_at < 0 \<or> checkout_at > download_at)
         ''{}: {} must checkout before downloading its archive'' [path, job_id] @
       flag (lacks job ''scripts/test-packaged-linux.sh'')
         ''{}: {} must use the final-archive runtime helper'' [path, job_id] @
       flag (lacks job ''Ubuntu glibc'') ''{}: {} lacks Ubuntu glibc archive smoke'' [path, job_id] @
       flag (lacks job ''Alpine musl'') ''{}: {} lacks Alpine musl archive smoke'' [path, job_id] @
       flag (lacks job ''alpine:3.22'') ''{}: {} must pin Alpine runtime to alpine:3.22'' [path, job_id] @
       (if endswith job_id (U ''aarch64'') then
          flag (lacks job ''runs-on: ubuntu-24.04-arm'')
            ''{}: {} must use the native arm64 runner'' [path, job_id] @
          flag (lacks job ''native arm64'')
            ''{}: {} must identify native arm64 runtime smoke'' [path, job_id] @
          flag (\<not> lacks (lower job) ''qemu'') ''{}: {} must not use QEMU'' [path, job_id]
        else flag (lacks job ''runs-on: ubuntu-24.04'')
            ''{}: {} must use the x86_64 Ubuntu runner'' [path, job_id]) @
       flag (\<not> lacks job ''HAOS'' \<or> \<not> lacks (lower job) ''hardware'')
         ''{}: {} must not claim HAOS hardware validation'' [path, job_id]))"

definition CI_PACKAGING_JOB_ID :: pystr where
  "CI_PACKAGING_JOB_ID = U ''package-linux''"

definition check_ci_packaging :: "pystr \<Rightarrow> pystr \<Rightarrow> message list" where
  "check_ci_packaging body path = (case workflow_job body CI_PACKAGING_JOB_ID of
     Inl e \<Rightarrow> job_failed path e
   | Inr job \<Rightarrow>
      (let checkout_at = str_find job (U ''actions/checkout@'');
           download_at = str_find job (U ''actions/download-artifact@'') in
       flag (lacks job ''pattern: bin-linux-*'')
         ''{}: {} must download both Linux build artifacts'' [path, CI_PACKAGING_JOB_ID] @
       flag (checkout_at < 0 \<or> download_at < 0 \<or> checkout_at > download_at)
         ''{}: {} must checkout before downloading build artifacts'' [path, CI_PACKAGING_JOB_ID] @
       flag (str_count job (U ''scripts/package-artifact.sh --platform linux-'') \<noteq> 2)
         ''{}: {} must assemble both Linux archives'' [path, CI_PACKAGING_JOB_ID] @
       flag (lacks job ''apt-get install'' \<or> lacks job ''binutils'')
         ''{}: {} lacks archive audit binutils'' [path, CI_PACKAGING_JOB_ID] @
       flag (lacks job ''name: packaged-linux'')
         ''{}: {} must upload packaged-linux'' [path, CI_PACKAGING_JOB_ID]))"

subsection \<open>The Android build\<close>

text \<open>\<open>(?ms)^\s*- abi: x86_64\s*\n\s*packageable: true\s*$\<close> and \<open>abi:\s*\[aarch64, armv7a, x86_64\]\<close>\<close>

definition packageable_re :: re where
  "packageable_re = Seq Bol (Seq (Star ws) (Seq (lit ''- abi: x86_64'') (Seq (Star ws)
     (Seq (One (\<lambda>c. c = 10)) (Seq (Star ws) (Seq (lit ''packageable: true'') (Seq (Star ws) Eol)))))))"

definition abi_list_re :: re where
  "abi_list_re = Seq (lit ''abi:'') (Seq (Star ws) (lit ''[aarch64, armv7a, x86_64]''))"

definition check_android_ci :: "pystr \<Rightarrow> message list" where
  "check_android_ci ci_job =
     (let upload_at = find_at ci_job (U ''uses: actions/upload-artifact@'') in
      flag (re_search packageable_re ci_job = None)
        ''ci.yml: Android x86_64 matrix entry must be packageable'' [] @
      flag (lacks ci_job ''scripts/build-android.sh'' \<or>
            lacks ci_job ''scripts/audit-artifact.sh --platform android-${{ matrix.abi }}'')
        ''ci.yml: Android matrix must build and run the full artifact audit'' [] @
      flag (case upload_at of None \<Rightarrow> True
            | Some n \<Rightarrow> lacks (drop (n - 160) (take n ci_job)) ''if: matrix.packageable'')
        ''ci.yml: Android artifact upload must be conditional on packageable'' [] @
      flag (\<not> lacks ci_job ''packageable: false'')
        ''ci.yml: Android matrix must not retain a build-only ABI'' [])"

definition check_android_release :: "pystr \<Rightarrow> message list" where
  "check_android_release release_job =
     (let release_upload_at = find_at release_job (U ''uses: actions/upload-artifact@'') in
      flag (re_search abi_list_re release_job = None)
        ''release.yml: Android release matrix must include all three ABIs'' [] @
      flag (lacks release_job ''scripts/build-android.sh'' \<or>
            lacks release_job ''scripts/audit-artifact.sh --platform android-${{ matrix.abi }}'')
        ''release.yml: Android release matrix must build and run the full artifact audit'' [] @
      flag (case release_upload_at of None \<Rightarrow> True
            | Some n \<Rightarrow> lacks (drop n release_job) ''name: bin-android-${{ matrix.abi }}'')
        ''release.yml: Android release matrix must upload each audited artifact'' [])"

definition check_android_package_job :: "pystr \<Rightarrow> message list" where
  "check_android_package_job package_job =
     flag (lacks (needs_part package_job) ''android'')
       ''release.yml: package job must depend on the Android artifact job'' [] @
     flag (lacks package_job ''actions/download-artifact@'' \<or> lacks package_job ''pattern: bin-*'')
       ''release.yml: package job must download the Android build artifacts'' [] @
     flag (str_count package_job (U ''scripts/package-artifact.sh --platform android-'') \<noteq> 3)
       ''release.yml: package job must assemble all three Android archives'' [] @
     flag (lacks package_job ''scripts/package-artifact.sh --platform android-x86_64'')
       ''release.yml: package job must assemble android-x86_64'' [] @
     flag (lacks package_job ''siano-ts-$version-android-x86_64.tar.gz'')
       ''release.yml: expected asset list must include android-x86_64'' [] @
     flag (lacks package_job ''-eq 8'' \<or> lacks package_job ''wc -l < candidate/SHA256SUMS)\" -eq 8'')
       ''release.yml: release candidate and SHA256SUMS must each contain eight assets'' [] @
     flag (lacks package_job ''scripts/audit-artifact.sh --source-archive'' \<or> lacks package_job ''cmp -s'')
       ''release.yml: package job must audit source and compare deterministic archives'' []"

definition check_android_packageable :: "pystr \<Rightarrow> pystr \<Rightarrow> pystr \<Rightarrow> pystr \<Rightarrow> message list" where
  "check_android_packageable ci release audit package = (case workflow_job ci (U ''android'') of
     Inl e \<Rightarrow> job_failed (U ''ci.yml'') e
   | Inr ci_job \<Rightarrow> (case workflow_job release (U ''android'') of
       Inl e \<Rightarrow> job_failed (U ''release.yml'') e
     | Inr release_job \<Rightarrow> (case workflow_job release (U ''package'') of
         Inl e \<Rightarrow> job_failed (U ''release.yml'') e
       | Inr package_job \<Rightarrow>
           check_android_ci ci_job @ check_android_release release_job @
           check_android_package_job package_job @
           flag (lacks audit ''android-x86_64'')
             ''audit-artifact.py: Android x86_64 mapping/package support is missing'' [] @
           flag (lacks package ''android-x86_64'')
             ''package-artifact.py: Android x86_64 metadata/package support is missing'' [])))"

subsection \<open>The static Linux build\<close>

definition EXPECTED_BUILD_CONTAINERS :: "(pystr, nat) dict" where
  "EXPECTED_BUILD_CONTAINERS = [(U ''ci.yml'', 2), (U ''release.yml'', 4)]"

definition STATIC_JOB_IDS :: "(pystr, pystr) dict" where
  "STATIC_JOB_IDS = [(U ''ci.yml'', U ''linux-static-x86_64''), (U ''release.yml'', U ''linux-static'')]"

text \<open>\<open>(?m)^\s*apk add[^\n]*\<close>\<close>

definition apk_add_re :: re where
  "apk_add_re = Group 0 (Seq Bol (Seq (Star ws) (Seq (lit ''apk add'') (Star dot))))"

definition check_block :: "pystr \<Rightarrow> nat \<Rightarrow> pystr \<Rightarrow> message list" where
  "check_block path index block =
     (let apk_lines = map (group 0) (re_findall apk_add_re block) in
      flag (\<not> list_ex (\<lambda>line. U ''linux-headers'' \<in> set (words line)) apk_lines)
        ''{}: Alpine build container {} lacks linux-headers'' [path, str_nat index] @
      flag (\<not> list_ex (\<lambda>line. U ''binutils'' \<in> set (words line)) apk_lines)
        ''{}: Alpine build container {} lacks binutils (readelf/strip)'' [path, str_nat index] @
      flag (lacks block ''alpine:3.22'')
        ''{}: Alpine build container {} is not pinned to alpine:3.22'' [path, str_nat index])"

definition check_containers :: "pystr \<Rightarrow> nat \<Rightarrow> pystr \<Rightarrow> message list" where
  "check_containers path expected body =
     (let blocks = filter (\<lambda>block. \<not> lacks block ''scripts/build-linux-static.sh'' \<or>
             \<not> lacks block ''test-static-relink.sh'') (build_container_blocks body) in
      flag (length blocks \<noteq> expected) ''{}: expected {} Alpine build containers, found {}''
        [path, str_nat expected, str_nat (length blocks)] @
      concat (map (\<lambda>(index, block). check_block path index block) (enumerate 1 blocks)))"

definition check_workflow :: "(pystr \<Rightarrow> file_read) \<Rightarrow> pystr \<Rightarrow> message list res" where
  "check_workflow files path =
     andThen (read_text (files path)) (\<lambda>body.
     andThen (get_item STATIC_JOB_IDS (posix_name path) (KeyError (posix_name path))) (\<lambda>job_id.
     case workflow_job body job_id of
       Inl e \<Rightarrow> Inr (job_failed path e)
     | Inr job \<Rightarrow>
         andThen (get_item EXPECTED_BUILD_CONTAINERS (posix_name path) (KeyError (posix_name path)))
           (\<lambda>expected. Inr (
             flag (\<not> lacks job ''container: alpine:3.22'')
               ''{}: {} must not use a job-level Alpine container'' [path, job_id] @
             check_containers path expected body))))"

subsection \<open>The gate of a tagged release\<close>

text \<open>
  \<open>(?ms)^on:\n(.*?)(?=^permissions:)\<close>, \<open>(?ms)^  push:\n\s+tags:\n\s+- ['"]v\*['"]\<close> and
  \<open>(?ms)^permissions:\n(.*?)(?=^\S)\<close>
\<close>

definition on_re :: re where
  "on_re = Seq Bol (Seq (lit_re (U ''on:'' @ [10])) (Seq (Group 1 (LazyStar any))
     (Ahead (Seq Bol (lit ''permissions:'')))))"

definition push_re :: re where
  "push_re = (let quote = One (\<lambda>c. c = 39 \<or> c = 34) in
     Seq Bol (Seq (lit_re (U ''  push:'' @ [10])) (Seq (plus ws) (Seq (lit_re (U ''tags:'' @ [10]))
       (Seq (plus ws) (Seq (lit ''- '') (Seq quote (Seq (lit ''v*'') quote))))))))"

definition permissions_re :: re where
  "permissions_re = Seq Bol (Seq (lit_re (U ''permissions:'' @ [10])) (Seq (Group 1 (LazyStar any))
     (Ahead (Seq Bol (One (\<lambda>c. \<not> is_space c))))))"

definition on_push :: string where
  "on_push = ''if: github.event_name == 'push'' @ [CHR 0x27]"

definition check_triggers :: "pystr \<Rightarrow> message list" where
  "check_triggers release =
     flag (case re_search on_re release of None \<Rightarrow> True
           | Some triggers \<Rightarrow> lacks (group 1 triggers) ''workflow_dispatch:'' \<or>
               re_search push_re (group 1 triggers) = None)
       ''release.yml: candidate dispatch and v* tag push triggers are required'' [] @
     flag (case re_search permissions_re release of None \<Rightarrow> True
           | Some top_permissions \<Rightarrow> lacks (group 1 top_permissions) ''contents: read'' \<or>
               \<not> lacks (group 1 top_permissions) ''contents: write'')
       ''release.yml: write permission must be limited to the publisher job'' []"

definition check_tag_verify :: "pystr \<Rightarrow> message list" where
  "check_tag_verify verify =
     flag (lacks verify on_push \<or> lacks verify ''packaged-runtime-x86_64'' \<or>
           lacks verify ''packaged-runtime-aarch64'')
       ''release.yml: tag verification must follow the tag build and packaged-runtime gates'' [] @
     flag (lacks verify ''actions: read'' \<or> lacks verify ''contents: read'' \<or> \<not> lacks verify ''contents: write'')
       ''release.yml: tag verification must use read-only repository permissions'' [] @
     flag (lacks verify ''scripts/release_runs.py read'' \<or> lacks verify ''scripts/release_runs.py verify'' \<or>
           lacks verify ''gh run download'' \<or> lacks verify ''--name release-candidate'' \<or>
           lacks verify ''scripts/release_verify.py'')
       ''release.yml: tag gate must validate recorded run IDs and verify all three bundles'' [] @
     flag (\<not> lacks verify ''HEAD^1'' \<or> \<not> lacks verify ''candidate_sha=$(git rev-parse'' \<or>
           lacks verify ''candidate_sha'' \<or> lacks verify ''verified_candidate_run_id'')
       ''release.yml: candidate SHA must come from the verified recorded runs'' [] @
     flag (str_find verify (U ''scripts/release_runs.py verify'') > str_find verify (U ''gh run download'') \<or>
           str_find verify (U ''gh run download'') > str_find verify (U ''scripts/release_verify.py''))
       ''release.yml: verify run metadata before download, then compare bundles'' []"

definition publish_steps :: "string list" where
  "publish_steps = [''gh release create'', ''--draft'', ''gh release download'', ''sha256sum -c SHA256SUMS'',
     ''cmp \"$path\"'', ''gh release edit'', ''--draft=false'']"

definition check_publish :: "pystr \<Rightarrow> message list" where
  "check_publish publish =
     flag (lacks publish ''needs: tag-verify'' \<or> lacks publish on_push)
       ''release.yml: only successful tag verification may reach publication'' [] @
     flag (lacks publish ''contents: write'' \<or> lacks publish ''actions: read'')
       ''release.yml: publisher must have only the required write and artifact-read permissions'' [] @
     concat (map (\<lambda>step. flag (lacks publish step)
       ''release.yml: publisher is missing verification/publication step: {}'' [U step]) publish_steps) @
     flag (\<not> (str_find publish (U ''gh release create'') < str_find publish (U ''gh release download'') \<and>
              str_find publish (U ''gh release download'') < str_find publish (U ''gh release edit'')))
       ''release.yml: publish only after uploaded draft assets are downloaded and checked'' []"

definition check_release_tag_gate :: "pystr \<Rightarrow> message list" where
  "check_release_tag_gate release = check_triggers release @
     (case andThen (workflow_job release (U ''tag-verify'')) (\<lambda>verify.
           andThen (workflow_job release (U ''publish'')) (\<lambda>publish. Inr (verify, publish))) of
        Inl e \<Rightarrow> job_failed (U ''release.yml'') e
      | Inr (verify, publish) \<Rightarrow> check_tag_verify verify @ check_publish publish)"

subsection \<open>The script\<close>

record workflow_inputs =
  root_dir :: pystr
  tree_files :: "pystr \<Rightarrow> file_read"
  ci_runtime_ids :: "pystr list"
  rc_runtime_ids :: "pystr list"
  wide_alnum :: "nat \<Rightarrow> bool"

definition RUNTIME_JOB_IDS :: "pystr list" where
  "RUNTIME_JOB_IDS = map U [''packaged-runtime-x86_64'', ''packaged-runtime-aarch64'']"

text \<open>The two sets of job names are iterated in some order.\<close>

definition runtime_orders :: "workflow_inputs \<Rightarrow> bool" where
  "runtime_orders i \<longleftrightarrow>
     distinct (ci_runtime_ids i) \<and> set (ci_runtime_ids i) = set RUNTIME_JOB_IDS \<and>
     distinct (rc_runtime_ids i) \<and> set (rc_runtime_ids i) = set RUNTIME_JOB_IDS"

definition at_root :: "workflow_inputs \<Rightarrow> string \<Rightarrow> pystr" where
  "at_root i path = (if root_dir i = [47] then [47] else root_dir i @ [47]) @ U path"

definition read_root :: "workflow_inputs \<Rightarrow> string \<Rightarrow> pystr res" where
  "read_root i path = read_text (tree_files i (at_root i path))"

definition workflow_errors :: "workflow_inputs \<Rightarrow> message list res" where
  "workflow_errors i =
     (let files = tree_files i; alnum = wide_alnum i;
          ci_path = at_root i ''.github/workflows/ci.yml'';
          release_path = at_root i ''.github/workflows/release.yml'' in
     andThen (check_workflow files ci_path) (\<lambda>e_ci.
     andThen (check_workflow files release_path) (\<lambda>e_release.
     andThen (read_root i ''Makefile.win'') (\<lambda>makefile.
     andThen (check_windows_baseline files (at_root i ''packaging/windows-baseline.sha256'')
       (at_root i ''scripts/reproducible-windows-build.ps1'')) (\<lambda>e_baseline.
     andThen (read_root i ''.github/workflows/ci.yml'') (\<lambda>ci.
     andThen (read_root i ''scripts/build-macos-static.sh'') (\<lambda>macos_build.
     andThen (read_root i ''.github/workflows/release.yml'') (\<lambda>release.
     andThen (read_root i ''scripts/audit-artifact.py'') (\<lambda>audit.
     andThen (read_root i ''scripts/package-artifact.py'') (\<lambda>package.
     Inr (e_ci @ e_release @ check_windows_makefile alnum makefile @ e_baseline @
       check_windows ci ci_path @ check_macos_strip alnum ci ci_path macos_build @
       check_ci_packaging ci ci_path @
       concat (map (\<lambda>job_id. check_packaged_runtime ci ci_path job_id (U ''packaged-linux''))
         (ci_runtime_ids i)) @
       check_release_tag_gate release @ check_release_version_guard release @
       check_windows release release_path @ check_android_packageable ci release audit package @
       check_macos_strip alnum release release_path macos_build @ check_macos_release release @
       concat (map (\<lambda>job_id. check_packaged_runtime release release_path job_id (U ''release-candidate''))
         (rc_runtime_ids i)))))))))))))"

text \<open>The exit status and what is printed.\<close>

definition workflow_main :: "workflow_inputs \<Rightarrow> (int \<times> message list) res" where
  "workflow_main i = andThen (workflow_errors i) (\<lambda>errors. Inr (
     if errors \<noteq> [] then (1, map (\<lambda>(m, args). (''workflow invariant: '' @ m, args)) errors)
     else (0, [(''workflow invariant: Linux build, final archive runtime, and Windows CI checks are present'', [])])))"

end
