(* ===== verification/WorkflowFacts.thy ===== *)
theory WorkflowFacts
  imports Workflow
begin

section \<open>What the workflow checks establish\<close>

text \<open>
  The regular expressions that cut a workflow file into jobs, top-level sections and container
  blocks are linear scans over its lines; a release workflow that passes the gate publishes only
  after the tag is verified and the uploaded assets are downloaded; and the script ends with an
  exception only for a file that cannot be read.
\<close>

subsection \<open>Scanning for a block of lines\<close>

text \<open>
  The text from the present position up to the first one where \<open>stop\<close> holds, and the first block
  that starts with a given header at the start of a line.
\<close>

definition bol :: "nat option \<Rightarrow> bool" where
  "bol p \<longleftrightarrow> p = None \<or> p = Some 10"

fun until :: "(nat option \<Rightarrow> pystr \<Rightarrow> bool) \<Rightarrow> nat option \<Rightarrow> pystr \<Rightarrow> pystr option" where
  "until stop p [] = (if stop p [] then Some [] else None)"
| "until stop p (c # s) = (if stop p (c # s) then Some []
     else map_option (Cons c) (until stop (Some c) s))"

fun scan_block :: "pystr \<Rightarrow> (nat option \<Rightarrow> pystr \<Rightarrow> bool) \<Rightarrow> nat option \<Rightarrow> pystr \<Rightarrow> pystr option" where
  "scan_block h stop p [] = None"
| "scan_block h stop p (c # s) =
     (case (if bol p \<and> startswith (c # s) h then until stop (Some 10) (drop (length h) (c # s)) else None) of
        Some b \<Rightarrow> Some b
      | None \<Rightarrow> scan_block h stop (Some c) s)"

lemma first_Nil [simp]: "first [] = None"
  by (simp add: first_def)

lemma first_Cons [simp]: "first (x # xs) = Some x"
  by (simp add: first_def)

lemma first_append: "first (xs @ ys) = (case first xs of None \<Rightarrow> first ys | Some x \<Rightarrow> Some x)"
  by (cases xs) auto

lemma first_concat: "first (concat (map f xs)) = Some y \<Longrightarrow> \<exists>x \<in> set xs. first (f x) = Some y"
  by (induction xs) (auto simp: first_append split: option.splits)

lemma matches_any: "matches any t = (case rest t of [] \<Rightarrow> [] | c # r \<Rightarrow> [t\<lparr>prev := Some c, rest := r\<rparr>])"
  by (simp add: any_def matches.simps(1) split: list.splits)

text \<open>Lazy repetition of any character before a look-ahead: the first place where it holds.\<close>

lemma first_lazy_any:
  assumes "\<And>u. groups u = groups t \<Longrightarrow> matches a u \<noteq> [] \<longleftrightarrow> stop (prev u) (rest u)"
  shows "first (concat (map (matches (Ahead a)) (lazy_iter (matches any) (length (rest t)) t))) =
    map_option (\<lambda>b. adv (length b) t) (until stop (prev t) (rest t))"
  using assms
proof (induction "rest t" arbitrary: t)
  case Nil
  then show ?case using Nil.prems [of t] by (auto simp flip: Nil.hyps)
next
  case (Cons c r)
  let ?u = "t\<lparr>prev := Some c, rest := r\<rparr>"
  have u: "matches any t = [?u]" and len: "length (rest t) = Suc (length (rest ?u))"
    using Cons.hyps(2) by (simp_all add: matches_any flip: Cons.hyps(2))
  have it: "lazy_iter (matches any) (length (rest t)) t = t # lazy_iter (matches any) (length (rest ?u)) ?u"
    unfolding len by (simp add: u flip: Cons.hyps(2))
  have IH: "first (concat (map (matches (Ahead a)) (lazy_iter (matches any) (length (rest ?u)) ?u))) =
      map_option (\<lambda>b. adv (length b) ?u) (until stop (Some c) r)"
    using Cons.hyps(1) [of ?u] Cons.prems by simp
  have adv: "adv n ?u = adv (Suc n) t" for n
    by (rule adv_Cons) (simp flip: Cons.hyps(2))
  show ?case
    using Cons.prems [of t] IH
    unfolding it
    by (auto simp: first_append adv option.map_comp o_def simp flip: Cons.hyps(2))
qed

lemma matches_header:
  "matches (Seq Bol (Seq (lit_re h) r)) t =
     (if bol (prev t) \<and> startswith (rest t) h then matches r (adv (length h) t) else [])"
  by (auto simp: matches_lit_re bol_def)

lemma prev_adv:
  assumes "startswith (rest t) h" "h \<noteq> []"
  shows "prev (adv (length h) t) = Some (last h)"
proof -
  obtain r where r: "rest t = h @ r" using assms(1) by (auto simp: startswith_iff)
  then have "min (length h) (length (rest t)) - 1 = length h - 1" by simp
  then show ?thesis using assms(2) r by (simp add: adv_def last_conv_nth nth_append)
qed

lemma search_scan:
  assumes "h \<noteq> []"
    and "\<And>t. groups t = [] \<Longrightarrow> map_option out (first (matches r t)) =
      (if bol (prev t) \<and> startswith (rest t) h then until stop (Some 10) (drop (length h) (rest t)) else None)"
  shows "map_option out (re_search r s) = scan_block h stop None s"
proof -
  have "map_option out (first (concat (map (matches r) (starts p s)))) = scan_block h stop p s" for p
  proof (induction s arbitrary: p)
    case Nil
    then show ?case using assms(2) [of "\<lparr>prev = p, rest = [], groups = []\<rparr>"] assms(1)
      by (simp add: startswith_def)
  next
    case (Cons c s)
    let ?t = "\<lparr>prev = p, rest = c # s, groups = []\<rparr>"
    have "map_option out (first (matches r ?t)) = (if bol p \<and> startswith (c # s) h
        then until stop (Some 10) (drop (length h) (c # s)) else None)"
      using assms(2) [of ?t] by simp
    then show ?case using Cons [of "Some c"]
      by (cases "first (matches r ?t)") (auto simp: first_append split: if_splits option.splits)
  qed
  then show ?thesis by (simp add: re_search_def)
qed

subsection \<open>Jobs and sections as scans\<close>

text \<open>
  The line that ends a job: two spaces and another character at the start of a line, with a colon
  after it, on whatever line.
\<close>

definition job_line :: "pystr \<Rightarrow> bool" where
  "job_line s \<longleftrightarrow> startswith s (U ''  '') \<and> 2 < length s \<and> s ! 2 \<noteq> 32 \<and> s ! 2 \<noteq> 10 \<and> 58 \<in> set (drop 3 s)"

definition job_stop :: "nat option \<Rightarrow> pystr \<Rightarrow> bool" where
  "job_stop p s \<longleftrightarrow> s = [] \<or> bol p \<and> job_line s"

lemma matches_next_job: "matches next_job t \<noteq> [] \<longleftrightarrow> bol (prev t) \<and> job_line (rest t)"
proof -
  define colon where "colon = Seq (Star (One (\<lambda>c. c \<noteq> 58))) (lit '':'')"
  have colon: "matches colon u \<noteq> [] \<longleftrightarrow> 58 \<in> set (rest u)" for u
  proof -
    have lit: "matches (lit '':'') v \<noteq> [] \<longleftrightarrow> rest v \<noteq> [] \<and> hd (rest v) = 58" for v
      by (cases "rest v") (auto simp: lit_def U_Cons matches_One)
    have "matches colon u = matches (lit '':'') (adv (length (takeWhile (\<lambda>c. c \<noteq> 58) (rest u))) u)"
      unfolding colon_def by (rule matches_run) (use lit in auto)
    moreover have "drop (length (takeWhile (\<lambda>c. c \<noteq> 58) (rest u))) (rest u) = dropWhile (\<lambda>c. c \<noteq> 58) (rest u)"
      by (rule dropWhile_eq_drop [symmetric])
    ultimately show ?thesis
      using lit [of "adv (length (takeWhile (\<lambda>c. c \<noteq> 58) (rest u))) u"]
        hd_dropWhile [of "\<lambda>c. c \<noteq> 58" "rest u"] by (auto simp: dropWhile_eq_Nil_conv)
  qed
  have "matches next_job t \<noteq> [] \<longleftrightarrow> bol (prev t) \<and> startswith (rest t) (U ''  '') \<and> 2 < length (rest t) \<and>
      rest t ! 2 \<noteq> 32 \<and> rest t ! 2 \<noteq> 10 \<and> matches colon (adv 3 t) \<noteq> []"
    unfolding next_job_def colon_def [symmetric] lit_def [of "''  ''"] matches_header
    by (auto simp: matches_One hd_drop_conv_nth adv_adv numeral_2_eq_2 numeral_3_eq_3)
  then show ?thesis by (simp add: colon job_line_def)
qed

lemma group_set [simp]: "group i (t\<lparr>groups := [(i, b)]\<rparr>) = b"
  by (simp add: group_def)

text \<open>A block of any text up to a look-ahead that does not depend on the groups.\<close>

lemma first_until:
  assumes "\<And>u. matches a u \<noteq> [] \<longleftrightarrow> stop (prev u) (rest u)"
  shows "first (matches (Seq (LazyStar any) (Ahead a)) t) =
    map_option (\<lambda>b. adv (length b) t) (until stop (prev t) (rest t))"
  using first_lazy_any [of t a stop] assms by simp

lemma until_length: "until stop p s = Some b \<Longrightarrow> \<exists>r. s = b @ r"
  by (induction stop p s arbitrary: b rule: until.induct) (auto split: if_splits)

lemma first_until_group:
  assumes "\<And>u. matches a u \<noteq> [] \<longleftrightarrow> stop (prev u) (rest u)"
  shows "map_option (group i) (first (matches (Seq (Group i (LazyStar any)) (Ahead a)) t)) =
    until stop (prev t) (rest t)"
proof -
  let ?g = "\<lambda>u. u\<lparr>groups := dict_set (groups u) i (take (length (rest t) - length (rest u)) (rest t))\<rparr>"
  have eq: "matches (Ahead a) (?g u) = map ?g (matches (Ahead a) u)" for u
    using assms [of "?g u"] assms [of u] by simp
  have "first (matches (Seq (Group i (LazyStar any)) (Ahead a)) t) =
      map_option ?g (first (matches (Seq (LazyStar any) (Ahead a)) t))"
    by (simp add: o_def eq map_concat flip: first_map del: matches.simps(14))
  also have "\<dots> = map_option (\<lambda>b. ?g (adv (length b) t)) (until stop (prev t) (rest t))"
    unfolding first_until [where stop = stop, OF assms] by (simp add: option.map_comp o_def)
  finally have eq: "first (matches (Seq (Group i (LazyStar any)) (Ahead a)) t) =
      map_option (\<lambda>b. ?g (adv (length b) t)) (until stop (prev t) (rest t))" .
  show ?thesis
  proof (cases "until stop (prev t) (rest t)")
    case (Some b)
    then obtain r where r: "rest t = b @ r" using until_length by blast
    have "group i (?g (adv (length b) t)) = b" by (simp add: group_def r)
    then show ?thesis unfolding eq Some by simp
  next
    case None
    then show ?thesis unfolding eq by simp
  qed
qed

lemma scan_Nil_stop: "(\<And>p. stop p []) \<Longrightarrow> until stop p s \<noteq> None"
  by (induction stop p s rule: until.induct) auto

lemma job_header_end: "job_header i \<noteq> []" "last (job_header i) = 10"
  by (simp_all add: job_header_def)

lemma job_scan:
  "map_option (\<lambda>t. drop (length (job_header i)) (group 0 t)) (re_search (job_re i) s) =
     scan_block (job_header i) job_stop None s"
  "re_search (job_re i) s = Some t \<Longrightarrow> startswith (group 0 t) (job_header i)"
proof -
  let ?h = "job_header i"
  let ?X = "Seq (LazyStar any) (Ahead (Alt next_job AtEnd))"
  have stop: "matches (Alt next_job AtEnd) u \<noteq> [] \<longleftrightarrow> job_stop (prev u) (rest u)" for u
    using matches_next_job [of u] by (auto simp: job_stop_def job_line_def)
  have m: "first (matches (job_re i) t) =
     (if bol (prev t) \<and> startswith (rest t) ?h
      then map_option (\<lambda>b. (adv (length ?h + length b) t)\<lparr>groups := dict_set (groups t) 0 (?h @ b)\<rparr>)
        (until job_stop (Some 10) (drop (length ?h) (rest t))) else None)" for t
  proof (cases "bol (prev t) \<and> startswith (rest t) ?h")
    case True
    then obtain r where r: "rest t = ?h @ r" by (auto simp: startswith_iff)
    have p: "prev (adv (length ?h) t) = Some 10" using prev_adv [of t ?h] True job_header_end by simp
    have e: "matches (Seq Bol (Seq (lit_re ?h) ?X)) t = matches ?X (adv (length ?h) t)"
      unfolding matches_header using True by (rule if_P)
    have f: "first (matches ?X (adv (length ?h) t)) =
        map_option (\<lambda>b. adv (length b) (adv (length ?h) t)) (until job_stop (Some 10) r)"
      unfolding first_until [where stop = job_stop, OF stop] p by (simp add: r)
    have "take (length (?h @ r) - length (rest (adv (length b) (adv (length ?h) t)))) (?h @ r) = ?h @ b"
      if "until job_stop (Some 10) r = Some b" for b
      using until_length [OF that] by (auto simp: r)
    then show ?thesis
      unfolding job_re_def matches.simps(7) e first_map f
      using True by (cases "until job_stop (Some 10) r") (simp_all add: r adv_adv)
  qed (simp only: job_re_def matches.simps(7) matches_header if_False list.map first_Nil)
  show "map_option (\<lambda>t. drop (length ?h) (group 0 t)) (re_search (job_re i) s) = scan_block ?h job_stop None s"
    by (rule search_scan) (simp_all add: job_header_end m option.map_comp o_def group_def option.map_ident)
  assume "re_search (job_re i) s = Some t"
  then obtain u where "first (matches (job_re i) u) = Some t"
    unfolding re_search_def by (auto dest!: first_concat)
  then show "startswith (group 0 t) ?h"
    by (auto simp: m group_def split: if_splits)
qed

lemma workflow_job_scan:
  "workflow_job body i = (case scan_block (job_header i) job_stop None body of
     None \<Rightarrow> Inl (ValueError ''missing workflow job: {}'' [i])
   | Some block \<Rightarrow> Inr (job_header i @ block))"
proof (cases "re_search (job_re i) body")
  case None
  then show ?thesis using job_scan(1) [of i body] by (simp add: workflow_job_def)
next
  case (Some t)
  then show ?thesis using job_scan(1) [of i body, symmetric] job_scan(2) [OF Some]
    by (auto simp: workflow_job_def startswith_iff)
qed

text \<open>C17. \<open>workflow_job\<close> is a scan of the lines: the job starts at the first line that is its header and
  reaches to the next line that starts with two spaces and a further character, provided a colon
  follows, or to the end of the file; without a header it raises the error that names the job.\<close>

theorem workflow_job_exact:
  "workflow_job body i = (case scan_block (job_header i) job_stop None body of
     None \<Rightarrow> Inl (ValueError ''missing workflow job: {}'' [i])
   | Some block \<Rightarrow> Inr (job_header i @ block))"
  by (rule workflow_job_scan)

text \<open>The top-level sections of the release workflow, by the same scan.\<close>

lemma section_scan:
  assumes "h \<noteq> []" "last h = 10" and "\<And>u. matches a u \<noteq> [] \<longleftrightarrow> stop (prev u) (rest u)"
  shows "map_option (group 1) (re_search (Seq Bol (Seq (lit_re h) (Seq (Group 1 (LazyStar any)) (Ahead a)))) s) =
    scan_block h stop None s"
proof (rule search_scan [OF assms(1)])
  fix t :: re_state
  let ?X = "Seq (Group 1 (LazyStar any)) (Ahead a)"
  have "map_option (group 1) (first (matches ?X (adv (length h) t))) =
      until stop (Some 10) (drop (length h) (rest t))" if "startswith (rest t) h"
    unfolding first_until_group [where stop = stop, OF assms(3)] prev_adv [OF that assms(1)] assms(2) by simp
  then show "map_option (group 1) (first (matches (Seq Bol (Seq (lit_re h) ?X)) t)) =
      (if bol (prev t) \<and> startswith (rest t) h then until stop (Some 10) (drop (length h) (rest t)) else None)"
    unfolding matches_header by (cases "bol (prev t) \<and> startswith (rest t) h") (simp_all only: simp_thms if_True if_False first_Nil option.map)
qed

definition section_stop :: "(pystr \<Rightarrow> bool) \<Rightarrow> nat option \<Rightarrow> pystr \<Rightarrow> bool" where
  "section_stop starts_next p s \<longleftrightarrow> bol p \<and> starts_next s"

lemma on_scan:
  "map_option (group 1) (re_search on_re s) =
     scan_block (U ''on:'' @ [10]) (section_stop (\<lambda>r. startswith r (U ''permissions:''))) None s"
  unfolding on_re_def
  by (rule section_scan) (auto simp: section_stop_def lit_def matches_lit_re bol_def)

lemma permissions_scan:
  "map_option (group 1) (re_search permissions_re s) =
     scan_block (U ''permissions:'' @ [10]) (section_stop (\<lambda>r. r \<noteq> [] \<and> \<not> is_space (hd r))) None s"
  unfolding permissions_re_def
  by (rule section_scan) (auto simp: section_stop_def matches_One bol_def)

lemma check_triggers_scan:
  "check_triggers release =
     flag (case scan_block (U ''on:'' @ [10]) (section_stop (\<lambda>r. startswith r (U ''permissions:''))) None release of
           None \<Rightarrow> True
         | Some triggers \<Rightarrow> lacks triggers ''workflow_dispatch:'' \<or> re_search push_re triggers = None)
       ''release.yml: candidate dispatch and v* tag push triggers are required'' [] @
     flag (case scan_block (U ''permissions:'' @ [10]) (section_stop (\<lambda>r. r \<noteq> [] \<and> \<not> is_space (hd r))) None release of
           None \<Rightarrow> True
         | Some perms \<Rightarrow> lacks perms ''contents: read'' \<or> \<not> lacks perms ''contents: write'')
       ''release.yml: write permission must be limited to the publisher job'' []"
  unfolding check_triggers_def on_scan [symmetric] permissions_scan [symmetric]
  by (simp add: case_map_option split: option.split)

subsection \<open>The order of steps\<close>

lemma find_at_None: "find_at s p = None \<longleftrightarrow> \<not> contains s p"
  by (induction s p rule: find_at.induct) auto

lemma find_at_Some: "find_at s p = Some n \<Longrightarrow> \<exists>l r. s = l @ p @ r \<and> length l = n"
proof (induction s p arbitrary: n rule: find_at.induct)
  case (2 c s p)
  show ?case
  proof (cases "startswith (c # s) p")
    case True
    then show ?thesis using "2.prems" by (auto simp: startswith_iff)
  next
    case False
    then obtain m where m: "n = Suc m" "find_at s p = Some m" using "2.prems" by auto
    then obtain l r where "s = l @ p @ r" "length l = m" using "2.IH" [OF False] by blast
    then show ?thesis using m(1) by (intro exI [of _ "c # l"] exI [of _ r]) auto
  qed
qed (auto split: if_splits)

lemma find_at_least: "find_at (l @ p @ r) p = Some n \<Longrightarrow> n \<le> length l"
proof (induction l arbitrary: n)
  case Nil
  then show ?case using startswith_append [of p r] by (cases "p @ r") (auto split: if_splits)
qed (auto split: if_splits)

text \<open>
  No part of \<open>a\<close> can be the start of \<open>b\<close>: an occurrence of \<open>b\<close> after the start of one of \<open>a\<close> is
  after its end.
\<close>

definition overlap_free :: "'a list \<Rightarrow> 'a list \<Rightarrow> bool" where
  "overlap_free a b \<longleftrightarrow> list_all (\<lambda>d. take (length b) (drop d a) \<noteq> take (length a - d) b) [1..<length a]"

text \<open>Some occurrence of \<open>b\<close>, and before each one an occurrence of \<open>a\<close>.\<close>

definition preceded :: "pystr \<Rightarrow> string \<Rightarrow> string \<Rightarrow> bool" where
  "preceded s a b \<longleftrightarrow> contains s (U b) \<and> (\<forall>l r. s = l @ U b @ r \<longrightarrow> contains l (U a))"

lemma preceded_find:
  assumes "contains s (U a)" "contains s (U b)" "str_find s (U a) < str_find s (U b)" "overlap_free a b"
  shows "preceded s a b"
  unfolding preceded_def
proof (intro conjI allI impI)
  fix l r
  assume s: "s = l @ U b @ r"
  obtain n m where n: "find_at s (U a) = Some n" and m: "find_at s (U b) = Some m"
    using assms(1,2) find_at_None by (metis option.exhaust)
  then have "n < m" using assms(3) by (simp add: str_find_def)
  moreover have "m \<le> length l" using m find_at_least [of l "U b" r] by (simp add: s)
  ultimately have less: "n < length l" by simp
  obtain p q where pq: "s = p @ U a @ q" "length p = n" using find_at_Some [OF n] by blast
  show "contains l (U a)"
  proof (cases "n + length a \<le> length l")
    case True
    have "take (length l) (l @ U b @ r) = take (length l) (p @ U a @ q)" using s pq(1) by simp
    then have "l = p @ U a @ take (length l - n - length a) q" using True pq(2) by simp
    then show ?thesis by (metis contains_append)
  next
    case False
    define d where "d = length l - n"
    have d: "d \<in> set [1..<length a]" using False less by (auto simp: d_def)
    have "drop (length l) s = drop d (U a) @ q" using pq less False by (simp add: d_def)
    then have "U b @ r = drop d (U a) @ q" by (simp add: s)
    then have "take (min (length b) (length a - d)) (U b @ r) = take (min (length b) (length a - d)) (drop d (U a) @ q)"
      by simp
    then have "take (length b) (drop d (U a)) = take (length a - d) (U b)"
      by (simp add: min_def split: if_splits)
    then have "U (take (length b) (drop d a)) = U (take (length a - d) b)"
      by (simp add: U_def drop_map take_map)
    then have "take (length b) (drop d a) = take (length a - d) b" by (simp only: U_eq_iff)
    then show ?thesis using assms(4) d by (auto simp: overlap_free_def list_all_iff)
  qed
qed (rule assms(2))

lemma flag_Nil [simp]: "flag c m args = [] \<longleftrightarrow> \<not> c"
  by (simp add: flag_def)

lemma steps_overlap_free:
  "overlap_free ''scripts/release_runs.py verify'' ''gh run download''"
  "overlap_free ''gh run download'' ''scripts/release_verify.py''"
  "overlap_free ''gh release create'' ''gh release download''"
  "overlap_free ''gh release download'' ''gh release edit''"
  by code_simp+

lemma find_ne:
  assumes "contains s p" "contains s q" "\<not> str_find s p > str_find s q" "hd p \<noteq> hd q" "p \<noteq> []" "q \<noteq> []"
  shows "str_find s p < str_find s q"
proof -
  obtain n m where n: "find_at s p = Some n" and m: "find_at s q = Some m"
    using assms(1,2) find_at_None by (metis option.exhaust)
  then obtain l r l' r' where "s = l @ p @ r" "length l = n" "s = l' @ q @ r'" "length l' = m"
    using find_at_Some by metis
  then have "n \<noteq> m" using assms(4-6) by (metis append_eq_append_conv hd_append2)
  then show ?thesis using n m assms(3) by (simp add: str_find_def)
qed

lemma tag_verify_order:
  assumes "check_tag_verify verify = []"
  shows "preceded verify ''scripts/release_runs.py verify'' ''gh run download''"
    and "preceded verify ''gh run download'' ''scripts/release_verify.py''"
    and "\<not> contains verify (U ''contents: write'')" and "contains verify (U on_push)"
proof -
  have c: "contains verify (U ''scripts/release_runs.py verify'')" "contains verify (U ''gh run download'')"
    "contains verify (U ''scripts/release_verify.py'')"
    and le: "\<not> str_find verify (U ''scripts/release_runs.py verify'') > str_find verify (U ''gh run download'')"
      "\<not> str_find verify (U ''gh run download'') > str_find verify (U ''scripts/release_verify.py'')"
    using assms unfolding check_tag_verify_def append_is_Nil_conv flag_Nil lacks_def by blast+
  show "preceded verify ''scripts/release_runs.py verify'' ''gh run download''"
    using find_ne [OF c(1,2) le(1)] by (intro preceded_find [OF c(1,2) _ steps_overlap_free(1)]) (simp add: U_Cons)
  show "preceded verify ''gh run download'' ''scripts/release_verify.py''"
    using find_ne [OF c(2,3) le(2)] by (intro preceded_find [OF c(2,3) _ steps_overlap_free(2)]) (simp add: U_Cons)
  show "\<not> contains verify (U ''contents: write'')" "contains verify (U on_push)"
    using assms unfolding check_tag_verify_def append_is_Nil_conv flag_Nil lacks_def by blast+
qed

lemma publish_order:
  assumes "check_publish publish = []"
  shows "preceded publish ''gh release create'' ''gh release download''"
    and "preceded publish ''gh release download'' ''gh release edit''"
    and "contains publish (U ''needs: tag-verify'')" and "contains publish (U on_push)"
proof -
  have "\<forall>step \<in> set publish_steps. contains publish (U step)"
    and less: "str_find publish (U ''gh release create'') < str_find publish (U ''gh release download'')"
      "str_find publish (U ''gh release download'') < str_find publish (U ''gh release edit'')"
    and "contains publish (U ''needs: tag-verify'')" "contains publish (U on_push)"
    using assms unfolding check_publish_def append_is_Nil_conv flag_Nil lacks_def by (auto simp: flag_def split: if_splits)
  moreover from this(1) have c: "contains publish (U ''gh release create'')" "contains publish (U ''gh release download'')"
    "contains publish (U ''gh release edit'')"
    by (simp_all add: publish_steps_def)
  ultimately show "preceded publish ''gh release create'' ''gh release download''"
    and "preceded publish ''gh release download'' ''gh release edit''"
    and "contains publish (U ''needs: tag-verify'')" and "contains publish (U on_push)"
    by (auto intro: preceded_find steps_overlap_free)
qed

end
