(* ===== verification/WorkflowGate.thy ===== *)
theory WorkflowGate
  imports WorkflowFacts
begin

section \<open>The gate of a tagged release\<close>

text \<open>
  What \<open>check_release_tag_gate\<close> promises of a workflow it accepts, and a workflow it accepts. The
  checks of the example are evaluated line by line: a job is a run of lines, and a word without a
  newline occurs in a text exactly when it occurs in one of its lines.
\<close>

subsection \<open>Texts as lines\<close>

definition plain :: "string \<Rightarrow> bool" where
  "plain l \<longleftrightarrow> CHR 0x0A \<notin> set l"

fun unlines :: "string list \<Rightarrow> pystr" where
  "unlines [] = []"
| "unlines (l # ls) = U l @ 10 # unlines ls"

lemma newline_char: "10 = (of_char c :: nat) \<longleftrightarrow> CHR 0x0A = c"
proof -
  have "(10 :: nat) = of_char (CHR 0x0A)" by simp
  then show ?thesis by (simp only: of_char_eq_iff)
qed

lemma plain_U: "10 \<in> set (U l) \<longleftrightarrow> \<not> plain l"
  unfolding plain_def U_def set_map image_iff newline_char by blast

lemma U_Nil_iff [simp]: "U w = [] \<longleftrightarrow> w = []"
  by (simp add: U_def)

lemma line_prefix:
  assumes "plain h"
  shows "startswith (U l @ 10 # s) (U h) \<longleftrightarrow> startswith l h"
proof
  assume "startswith (U l @ 10 # s) (U h)"
  then obtain t where t: "U l @ 10 # s = U h @ t" by (auto simp: startswith_iff)
  have le: "length h \<le> length l"
  proof (rule ccontr)
    assume less: "\<not> length h \<le> length l"
    then have "U h ! length l = 10" using t by (metis length_U not_le nth_append nth_append_length)
    then show False using assms less plain_U [of h] by (metis length_U not_le nth_mem)
  qed
  have "take (length h) (U l @ 10 # s) = U h" using t by simp
  then have "U (take (length h) l) = U h" using le by (simp add: U_def take_map)
  then show "startswith l h" by (simp only: U_eq_iff startswith_def)
next
  assume "startswith l h"
  then show "startswith (U l @ 10 # s) (U h)" by (auto simp: startswith_iff U_def)
qed

lemma line_eq:
  assumes "plain l" "plain h"
  shows "startswith (U l @ 10 # s) (U h @ [10]) \<longleftrightarrow> l = h"
proof -
  have n: "10 \<notin> set (U l)" "10 \<notin> set (U h)" using assms by (simp_all add: plain_U)
  have "U l = U h" if "U l @ 10 # s = U h @ 10 # t" for t
    by (metis split1_append n that prod.inject)
  then show ?thesis by (auto simp: startswith_iff)
qed

lemma contains_line:
  assumes "plain w" "w \<noteq> []"
  shows "contains (U l @ 10 # s) (U w) \<longleftrightarrow> contains l w \<or> contains s (U w)"
proof (induction l)
  case Nil
  have "\<not> startswith (10 # s) (U w)"
    using assms by (cases w) (auto simp: startswith_def U_Cons plain_def simp flip: newline_char)
  then show ?case using assms by simp
next
  case (Cons c l)
  have "startswith (U (c # l) @ 10 # s) (U w) \<longleftrightarrow> startswith (c # l) w"
    using assms(1) by (rule line_prefix)
  then show ?case using Cons by (simp add: U_Cons)
qed

lemma lacks_unlines:
  assumes "plain w" "w \<noteq> []"
  shows "lacks (unlines ls) w \<longleftrightarrow> \<not> list_ex (\<lambda>l. contains l w) ls"
  using assms by (induction ls) (auto simp: lacks_def contains_line)

lemma scan_line:
  assumes "plain l" "plain h" "bol p"
  shows "scan_block (U h @ [10]) stop p (U l @ 10 # s) =
    (case (if l = h then until stop (Some 10) s else None) of
       Some b \<Rightarrow> Some b | None \<Rightarrow> scan_block (U h @ [10]) stop (Some 10) s)"
proof -
  have mid: "scan_block (U h @ [10]) stop (Some c) (t @ 10 # s) = scan_block (U h @ [10]) stop (Some 10) s"
    if "c \<noteq> 10" "10 \<notin> set t" for c t
    using that
  proof (induction t arbitrary: c)
    case (Cons d t)
    then show ?case by (simp add: bol_def)
  qed (simp add: bol_def)
  show ?thesis
  proof (cases l)
    case Nil
    have "startswith (10 # s) (U h @ [10]) \<longleftrightarrow> l = h" using line_eq [OF assms(1,2), of s] Nil by simp
    then show ?thesis using assms(3) Nil by auto
  next
    case (Cons c l')
    define d t where "d = (of_char c :: nat)" and "t = U l'"
    have ul: "U l = d # t" by (simp add: Cons U_Cons d_def t_def)
    then have "scan_block (U h @ [10]) stop (Some d) (t @ 10 # s) = scan_block (U h @ [10]) stop (Some 10) s"
      using assms(1) plain_U [of l] by (intro mid) auto
    moreover have "startswith (d # t @ 10 # s) (U h @ [10]) \<longleftrightarrow> l = h"
      using line_eq [OF assms(1,2), of s] by (simp add: ul)
    moreover have "drop (length (U h @ [10])) (d # t @ 10 # s) = s" if "l = h"
    proof -
      have "length h = Suc (length t)" using that ul by (metis length_U length_Cons)
      then show ?thesis by simp
    qed
    ultimately show ?thesis
      using assms(3) unfolding ul append_Cons scan_block.simps by (cases "l = h") (simp_all only: simp_thms if_True if_False)
  qed
qed

text \<open>A stop that only the start of a line or the end of the text can satisfy.\<close>

lemma until_line:
  assumes "plain l" "\<not> stop p (U l @ 10 # s)" and "\<And>c t. c \<noteq> 10 \<Longrightarrow> t \<noteq> [] \<Longrightarrow> \<not> stop (Some c) t"
  shows "until stop p (U l @ 10 # s) = map_option (\<lambda>b. U l @ 10 # b) (until stop (Some 10) s)"
proof -
  have "until stop q (t @ 10 # s) = map_option (\<lambda>b. t @ 10 # b) (until stop (Some 10) s)"
    if "\<not> stop q (t @ 10 # s)" "10 \<notin> set t" for q t
    using that
  proof (induction t arbitrary: q)
    case (Cons d t)
    then show ?case using assms(3) by (auto simp: option.map_comp o_def)
  qed simp
  then show ?thesis using assms(1,2) plain_U by blast
qed

lemma job_line_unlines:
  assumes "2 < length l"
  shows "job_line (U l @ 10 # s) \<longleftrightarrow> take 2 l = ''  '' \<and> l ! 2 \<noteq> CHR '' '' \<and> l ! 2 \<noteq> CHR 0x0A \<and>
    (CHR '':'' \<in> set (drop 3 l) \<or> 58 \<in> set s)"
proof -
  have code: "of_char (l ! 2) = (32 :: nat) \<longleftrightarrow> l ! 2 = CHR '' ''" "of_char (l ! 2) = (10 :: nat) \<longleftrightarrow> l ! 2 = CHR 0x0A"
    and colon: "58 \<in> set (U w) \<longleftrightarrow> CHR '':'' \<in> set w" for w
  proof -
    have c: "(32 :: nat) = of_char (CHR '' '')" "(10 :: nat) = of_char (CHR 0x0A)" "(58 :: nat) = of_char (CHR '':'')"
      by simp_all
    show "of_char (l ! 2) = (32 :: nat) \<longleftrightarrow> l ! 2 = CHR '' ''" "of_char (l ! 2) = (10 :: nat) \<longleftrightarrow> l ! 2 = CHR 0x0A"
      unfolding c of_char_eq_iff by (rule refl)+
    show "58 \<in> set (U w) \<longleftrightarrow> CHR '':'' \<in> set w"
      unfolding c U_def set_map image_iff of_char_eq_iff by blast
  qed
  have "drop 3 (U l @ 10 # s) = U (drop 3 l) @ 10 # s" using assms by (simp add: U_def drop_map)
  moreover have "startswith (U l @ 10 # s) (U ''  '') \<longleftrightarrow> take 2 l = ''  ''"
    using line_prefix [of "''  ''" l s] by (simp add: plain_def startswith_def numeral_2_eq_2)
  moreover have "(U l @ 10 # s) ! 2 = of_char (l ! 2)" using assms by (simp add: nth_append U_def)
  ultimately show ?thesis using assms by (simp add: job_line_def code colon)
qed

subsection \<open>The gate\<close>

text \<open>C8. A release workflow that the gate accepts has the jobs \<open>tag-verify\<close> and \<open>publish\<close>, both only for
  a pushed tag. In \<open>tag-verify\<close>, which has no write permission, every download of a run comes after
  the verification of the recorded runs, and every use of the bundle verification after a download. In
  \<open>publish\<close>, which needs \<open>tag-verify\<close>, every download of the draft comes after its creation, and every
  edit of the release, which publishes it, after a download.\<close>

theorem release_gate_order:
  assumes "check_release_tag_gate release = []"
  shows "\<exists>verify publish. workflow_job release (U ''tag-verify'') = Inr verify \<and>
    workflow_job release (U ''publish'') = Inr publish \<and>
    contains verify (U on_push) \<and> \<not> contains verify (U ''contents: write'') \<and>
    preceded verify ''scripts/release_runs.py verify'' ''gh run download'' \<and>
    preceded verify ''gh run download'' ''scripts/release_verify.py'' \<and>
    contains publish (U on_push) \<and> contains publish (U ''needs: tag-verify'') \<and>
    preceded publish ''gh release create'' ''gh release download'' \<and>
    preceded publish ''gh release download'' ''gh release edit''"
proof -
  have failed: "job_failed (U ''release.yml'') e \<noteq> []" if "workflow_job release i = Inl e" for e i
    using that by (auto simp: workflow_job_def job_failed_def split: option.splits)
  obtain verify publish where j: "workflow_job release (U ''tag-verify'') = Inr verify"
      "workflow_job release (U ''publish'') = Inr publish"
    using assms failed by (cases "workflow_job release (U ''tag-verify'')"; cases "workflow_job release (U ''publish'')")
      (auto simp: check_release_tag_gate_def)
  then have "check_tag_verify verify = []" "check_publish publish = []"
    using assms by (simp_all add: check_release_tag_gate_def)
  then show ?thesis using j tag_verify_order publish_order by blast
qed

text \<open>A workflow that the gate accepts.\<close>

definition example_head :: "string list" where
  "example_head = [''on:'', ''  workflow_dispatch:'', ''  push:'', ''    tags:'', ''      - \"v*\"'',
     ''permissions:'', ''  contents: read'', ''jobs:'', ''  build:'', ''    permissions:'', ''      contents: write'']"

definition example_verify :: "string list" where
  "example_verify = [''  tag-verify:'', ''    '' @ on_push,
     ''    needs: [packaged-runtime-x86_64, packaged-runtime-aarch64]'',
     ''    permissions:'', ''      actions: read'', ''      contents: read'',
     ''    run: scripts/release_runs.py read'', ''      scripts/release_runs.py verify'',
     ''      gh run download --name release-candidate'',
     ''      scripts/release_verify.py candidate_sha verified_candidate_run_id'']"

definition example_publish :: "string list" where
  "example_publish = [''  publish:'', ''    needs: tag-verify'', ''    '' @ on_push, ''    permissions:'',
     ''      actions: read'', ''      contents: write'', ''    run: gh release create --draft'',
     ''      gh release download'', ''      sha256sum -c SHA256SUMS'', ''      cmp \"$path\"'',
     ''      gh release edit --draft=false'']"

definition example_release :: pystr where
  "example_release = unlines (example_head @ example_verify @ example_publish)"

lemma on_push_plain: "plain on_push"
  by (simp add: on_push_def plain_def)

lemma job_header_U: "job_header (U i) = U (''  '' @ i @ '':'') @ [10]"
  by (simp add: job_header_def U_def)

lemma unlines_append: "unlines (ls @ ms) = unlines ls @ unlines ms"
  by (induction ls) auto

text \<open>A job of a text in lines: from its header line up to a line that ends it.\<close>

lemma scan_skip:
  assumes "list_all plain ls" "plain h" "h \<notin> set ls"
  shows "scan_block (U h @ [10]) stop (Some 10) (unlines ls @ s) = scan_block (U h @ [10]) stop (Some 10) s"
  using assms by (induction ls) (auto simp: scan_line bol_def)

lemma until_take:
  assumes "list_all plain ls"
    and "\<And>l ms. l \<in> set ls \<Longrightarrow> \<not> stop (Some 10) (U l @ 10 # ms)"
    and "\<And>c t. c \<noteq> 10 \<Longrightarrow> t \<noteq> [] \<Longrightarrow> \<not> stop (Some c) t" and "stop (Some 10) s"
  shows "until stop (Some 10) (unlines ls @ s) = Some (unlines ls)"
  using assms
proof (induction ls)
  case Nil
  then show ?case by (cases s) auto
next
  case (Cons l ls)
  have "until stop (Some 10) (U l @ 10 # (unlines ls @ s)) =
      map_option (\<lambda>b. U l @ 10 # b) (until stop (Some 10) (unlines ls @ s))"
    using Cons.prems by (intro until_line) auto
  then show ?case using Cons by simp
qed

lemma scan_start: "scan_block h stop None s = scan_block h stop (Some 10) s"
  by (cases s) (simp_all add: bol_def)

definition inner_line :: "string \<Rightarrow> bool" where
  "inner_line l \<longleftrightarrow> plain l \<and> 2 < length l \<and> (take 2 l = ''  '' \<longrightarrow> l ! 2 = CHR '' '')"

definition header_line :: "string \<Rightarrow> bool" where
  "header_line l \<longleftrightarrow> 2 < length l \<and> take 2 l = ''  '' \<and> l ! 2 \<noteq> CHR '' '' \<and> l ! 2 \<noteq> CHR 0x0A \<and>
     CHR '':'' \<in> set (drop 3 l)"

lemma workflow_job_lines:
  assumes "list_all plain before" "''  '' @ i @ '':'' \<notin> set before" "plain (''  '' @ i @ '':'')" "list_all inner_line ls"
    and "after = [] \<or> header_line (hd after)"
  shows "workflow_job (unlines (before @ ((''  '' @ i @ '':'') # ls) @ after)) (U i) =
    Inr (unlines ((''  '' @ i @ '':'') # ls))"
proof -
  let ?h = "''  '' @ i @ '':''"
  have "job_stop (Some 10) (unlines after)"
    using assms(5) by (cases after) (auto simp: job_stop_def bol_def header_line_def job_line_unlines)
  moreover have "\<not> job_stop (Some 10) (U l @ 10 # s)" if "l \<in> set ls" for l s
    using assms(4) that by (auto simp: job_stop_def bol_def inner_line_def job_line_unlines list_all_iff)
  moreover have "list_all plain ls" using assms(4) by (auto simp: list_all_iff inner_line_def)
  ultimately have "until job_stop (Some 10) (unlines ls @ unlines after) = Some (unlines ls)"
    by (intro until_take) (auto simp: job_stop_def bol_def)
  then have "scan_block (U ?h @ [10]) job_stop None (unlines (before @ (?h # ls) @ after)) = Some (unlines ls)"
    unfolding scan_start unlines_append using scan_skip [OF assms(1,3,2)] assms(3)
    by (simp add: scan_line bol_def)
  then show ?thesis by (simp add: workflow_job_scan job_header_U)
qed

lemma example_plain:
  "list_all plain example_head" "list_all plain example_verify" "list_all plain example_publish"
  by (simp_all add: example_head_def example_verify_def example_publish_def plain_def on_push_def)

lemma example_inner: "list_all inner_line (tl example_verify)" "list_all inner_line (tl example_publish)"
  by (simp_all add: example_verify_def example_publish_def inner_line_def plain_def on_push_def)

lemma example_jobs:
  "workflow_job example_release (U ''tag-verify'') = Inr (unlines example_verify)"
  "workflow_job example_release (U ''publish'') = Inr (unlines example_publish)"
  "workflow_job example_release (U ''build'') = Inr (unlines (drop 8 example_head))"
proof -
  show "workflow_job example_release (U ''tag-verify'') = Inr (unlines example_verify)"
    using workflow_job_lines [of example_head "''tag-verify''" "tl example_verify" example_publish] example_plain example_inner
    by (simp add: example_release_def example_head_def example_verify_def example_publish_def header_line_def plain_def)
  show "workflow_job example_release (U ''publish'') = Inr (unlines example_publish)"
    using workflow_job_lines [of "example_head @ example_verify" "''publish''" "tl example_publish" "[]"] example_plain example_inner
    by (simp add: example_release_def example_head_def example_verify_def example_publish_def header_line_def plain_def)
  show "workflow_job example_release (U ''build'') = Inr (unlines (drop 8 example_head))"
    using workflow_job_lines [of "take 8 example_head" "''build''" "drop 9 example_head" "example_verify @ example_publish"] example_plain
    by (simp add: example_release_def example_head_def example_verify_def header_line_def plain_def inner_line_def)
qed

lemma find_at_line:
  assumes "plain w" "w \<noteq> []"
  shows "find_at (U l @ 10 # s) (U w) =
    (case find_at l w of Some n \<Rightarrow> Some n | None \<Rightarrow> map_option (\<lambda>n. n + Suc (length l)) (find_at s (U w)))"
proof (induction l)
  case Nil
  have "\<not> startswith (10 # s) (U w)"
    using assms by (cases w) (auto simp: startswith_def U_Cons plain_def simp flip: newline_char)
  then show ?case using assms by simp
next
  case (Cons c l)
  have "startswith (U (c # l) @ 10 # s) (U w) \<longleftrightarrow> startswith (c # l) w"
    using assms(1) by (rule line_prefix)
  then show ?case using Cons by (auto simp: U_Cons option.map_comp o_def split: option.splits)
qed

fun find_lines :: "string list \<Rightarrow> string \<Rightarrow> nat option" where
  "find_lines [] w = None"
| "find_lines (l # ls) w = (case find_at l w of Some n \<Rightarrow> Some n
     | None \<Rightarrow> map_option (\<lambda>n. n + Suc (length l)) (find_lines ls w))"

lemma find_unlines:
  assumes "plain w" "w \<noteq> []"
  shows "str_find (unlines ls) (U w) = (case find_lines ls w of None \<Rightarrow> -1 | Some n \<Rightarrow> int n)"
proof -
  have "find_at (unlines ls) (U w) = find_lines ls w"
    using assms by (induction ls) (auto simp: find_at_line split: option.splits)
  then show ?thesis by (simp add: str_find_def)
qed

lemma example_positions:
  "find_lines example_verify ''scripts/release_runs.py verify'' = Some 215"
  "find_lines example_verify ''gh run download'' = Some 252"
  "find_lines example_verify ''scripts/release_verify.py'' = Some 299"
  "find_lines example_publish ''gh release create'' = Some 137"
  "find_lines example_publish ''gh release download'' = Some 169"
  "find_lines example_publish ''gh release edit'' = Some 243"
  by code_simp+

lemma plain_code: "plain l = list_all (\<lambda>c. c \<noteq> CHR 0x0A) l"
  by (auto simp: plain_def list_all_iff)

lemma example_verify_words:
  "list_all (\<lambda>w. plain w \<and> w \<noteq> [] \<and> list_ex (\<lambda>l. contains l w) example_verify)
    [on_push, ''packaged-runtime-x86_64'', ''packaged-runtime-aarch64'', ''actions: read'', ''contents: read'',
     ''scripts/release_runs.py read'', ''scripts/release_runs.py verify'', ''gh run download'',
     ''--name release-candidate'', ''scripts/release_verify.py'', ''candidate_sha'', ''verified_candidate_run_id'']"
  "list_all (\<lambda>w. plain w \<and> w \<noteq> [] \<and> \<not> list_ex (\<lambda>l. contains l w) example_verify)
    [''contents: write'', ''HEAD^1'', ''candidate_sha=$(git rev-parse'']"
  unfolding plain_code by code_simp+

lemma example_publish_words:
  "list_all (\<lambda>w. plain w \<and> w \<noteq> [] \<and> list_ex (\<lambda>l. contains l w) example_publish)
    (publish_steps @ [''needs: tag-verify'', on_push, ''contents: write'', ''actions: read''])"
  unfolding plain_code by code_simp

lemma example_verify_passes: "check_tag_verify (unlines example_verify) = []"
proof -
  note words = example_verify_words [unfolded list.pred_inject]
  show ?thesis
    using words by (simp add: check_tag_verify_def flag_def lacks_unlines find_unlines example_positions)
qed

lemma example_publish_passes: "check_publish (unlines example_publish) = []"
proof -
  note words = example_publish_words [unfolded publish_steps_def append.simps list.pred_inject]
  show ?thesis
    using words by (simp add: check_publish_def publish_steps_def flag_def lacks_unlines find_unlines example_positions)
qed

lemma starts_mem: "\<lparr>prev = Some c, rest = s, groups = []\<rparr> \<in> set (starts p (l @ c # s))"
  by (induction l arbitrary: p) (auto simp: neq_Nil_conv, cases s, auto)

lemma example_push: "re_search push_re (unlines (take 4 (tl example_head))) \<noteq> None"
proof -
  let ?s = "unlines [''  push:'', ''    tags:'', ''      - \"v*\"'']"
  have "unlines (take 4 (tl example_head)) = U ''  workflow_dispatch:'' @ 10 # ?s"
    by (simp add: example_head_def)
  then have "\<lparr>prev = Some 10, rest = ?s, groups = []\<rparr> \<in> set (starts None (unlines (take 4 (tl example_head))))"
    using starts_mem by metis
  moreover have "matches push_re \<lparr>prev = Some 10, rest = ?s, groups = []\<rparr> \<noteq> []"
    by (simp add: push_re_def Let_def plus_def ws_def lit_def matches_lit_re matches_One U_Cons startswith_def
      is_space_def adv_def matches_star_One)
  ultimately show ?thesis unfolding re_search_None by blast
qed

lemma section_lines:
  assumes "list_all plain before" "h \<notin> set before" "plain h" "list_all plain ls"
    and "\<And>l s. l \<in> set ls \<Longrightarrow> \<not> starts_next (U l @ 10 # s)" and "starts_next s"
  shows "scan_block (U h @ [10]) (section_stop starts_next) None (unlines (before @ h # ls) @ s) = Some (unlines ls)"
proof -
  have "until (section_stop starts_next) (Some 10) (unlines ls @ s) = Some (unlines ls)"
    using assms by (intro until_take) (auto simp: section_stop_def bol_def)
  then show ?thesis
    unfolding scan_start unlines_append append_assoc using scan_skip [OF assms(1,3,2)] assms(3)
    by (simp add: scan_line bol_def)
qed

lemma example_triggers: "check_triggers example_release = []"
proof -
  let ?after = "unlines (drop 5 example_head @ example_verify @ example_publish)"
  let ?jobs = "unlines (drop 7 example_head @ example_verify @ example_publish)"
  have "example_release = unlines ([] @ ''on:'' # take 4 (tl example_head)) @ ?after"
    by (simp add: example_release_def example_head_def flip: unlines_append)
  then have on: "scan_block (U ''on:'' @ [10]) (section_stop (\<lambda>r. startswith r (U ''permissions:''))) None example_release =
      Some (unlines (take 4 (tl example_head)))"
    unfolding \<open>example_release = _\<close>
    by (intro section_lines) (auto simp: example_head_def plain_def U_Cons startswith_def)
  have "example_release = unlines (take 5 example_head @ ''permissions:'' # [''  contents: read'']) @ ?jobs"
    by (simp add: example_release_def example_head_def flip: unlines_append)
  then have perms: "scan_block (U ''permissions:'' @ [10]) (section_stop (\<lambda>r. r \<noteq> [] \<and> \<not> is_space (hd r))) None
      example_release = Some (unlines [''  contents: read''])"
    unfolding \<open>example_release = unlines (take 5 _ @ _) @ _\<close>
    by (intro section_lines) (auto simp: example_head_def plain_def U_Cons is_space_def)
  have "\<not> lacks (unlines (take 4 (tl example_head))) ''workflow_dispatch:''"
    "\<not> lacks (unlines [''  contents: read'']) ''contents: read''"
    "lacks (unlines [''  contents: read'']) ''contents: write''"
    by (subst lacks_unlines; simp add: plain_def example_head_def startswith_def)+
  then show ?thesis unfolding check_triggers_scan on perms using example_push by (simp add: flag_def)
qed

lemma example_gate: "check_release_tag_gate example_release = []"
  using example_triggers example_jobs example_verify_passes example_publish_passes
  by (simp add: check_release_tag_gate_def)

theorem release_gate_order_witness:
  "check_release_tag_gate example_release = [] \<and>
   (\<exists>verify publish. workflow_job example_release (U ''tag-verify'') = Inr verify \<and>
    workflow_job example_release (U ''publish'') = Inr publish \<and>
    preceded verify ''gh run download'' ''scripts/release_verify.py'' \<and>
    preceded publish ''gh release download'' ''gh release edit'')"
  using release_gate_order [OF example_gate] example_gate by blast

text \<open>
  The gate reports that the write permission must be limited to the publisher job when the top-level
  permissions grant it; it does not look at the other jobs.\<close>

theorem other_job_may_write:
  "\<exists>release job. check_release_tag_gate release = [] \<and> workflow_job release (U ''build'') = Inr job \<and>
     contains job (U ''contents: write'')"
proof -
  have "\<not> lacks (unlines (drop 8 example_head)) ''contents: write''"
    by (subst lacks_unlines) (simp_all add: plain_def example_head_def startswith_def)
  then show ?thesis using example_gate example_jobs(3) unfolding lacks_def by blast
qed

end
