(* ===== verification/WorkflowMain.thy ===== *)
theory WorkflowMain
  imports WorkflowFacts
begin

section \<open>Container blocks and the outcome of the script\<close>

text \<open>
  The blocks in which \<open>check_workflow\<close> looks for the Alpine build containers are the pieces of the
  workflow between the lines that start a container. \<open>main\<close> ends with an exception exactly when one
  of its files cannot be read or decoded, and its exit status does not depend on the order in which
  Python iterates over its two sets of job names.
\<close>

subsection \<open>Container blocks\<close>

definition blank :: "nat \<Rightarrow> bool" where
  "blank c \<longleftrightarrow> c = 32 \<or> c = 9"

definition docker_line :: "pystr \<Rightarrow> bool" where
  "docker_line s \<longleftrightarrow> takeWhile blank s \<noteq> [] \<and> startswith (dropWhile blank s) (U ''docker run --rm'')"

text \<open>The text before the first line that starts a container, and then the text from each one.\<close>

fun container_pieces :: "nat option \<Rightarrow> pystr \<Rightarrow> pystr list" where
  "container_pieces p [] = [[]]"
| "container_pieces p (c # s) = (let bs = container_pieces (Some c) s; here = (c # hd bs) # tl bs in
     if bol p \<and> docker_line (c # s) then [] # here else here)"

text \<open>What is left of the text at each of these lines.\<close>

fun remaining :: "nat option \<Rightarrow> pystr \<Rightarrow> nat list" where
  "remaining p [] = []"
| "remaining p (c # s) =
     (if bol p \<and> docker_line (c # s) then [Suc (length s)] else []) @ remaining (Some c) s"

lemma docker_line_newline:
  assumes "docker_line s"
  shows "\<exists>w r. s = w @ r \<and> w \<noteq> [] \<and> 10 \<notin> set w \<and> length w = length (takeWhile blank s) + 15"
proof -
  obtain r where r: "dropWhile blank s = U ''docker run --rm'' @ r"
    using assms by (auto simp: docker_line_def startswith_iff)
  let ?w = "takeWhile blank s @ U ''docker run --rm''"
  have "s = ?w @ r" using takeWhile_dropWhile_id [of blank s] r by simp
  moreover have "10 \<notin> set ?w" by (auto simp: U_Cons blank_def dest: set_takeWhileD)
  moreover have "?w \<noteq> []" "length ?w = length (takeWhile blank s) + 15" by (simp_all add: U_Cons)
  ultimately show ?thesis by blast
qed

lemma matches_Bol: "matches (Seq Bol r) t = (if bol (prev t) then matches r t else [])"
  by (auto simp: bol_def)

lemma first_docker_run:
  "first (matches docker_run t) =
     (if bol (prev t) \<and> docker_line (rest t)
      then let n = length (takeWhile (\<lambda>c. c \<noteq> 10) (rest t)) in
        Some ((adv n t)\<lparr>groups := dict_set (groups t) 0 (take n (rest t))\<rparr>)
      else None)"
proof -
  let ?r = "Seq (lit ''docker run --rm'') (Star dot)"
  let ?k = "length (takeWhile blank (rest t))"
  have blank: "One (\<lambda>c. c = 32 \<or> c = 9) = One blank" by (simp add: blank_def fun_eq_iff)
  have "matches ?r u = []" if "rest u \<noteq> []" "blank (hd (rest u))" for u
    unfolding matches_Seq_lit using that by (cases "rest u") (auto simp: startswith_def U_Cons blank_def)
  then have run: "matches (Seq (plus (One blank)) ?r) t =
      (if takeWhile blank (rest t) = [] then [] else matches ?r (adv ?k t))"
    by (rule matches_plus_run)
  have "matches (Seq Bol (Seq (plus (One blank)) ?r)) t =
      (if bol (prev t) \<and> docker_line (rest t) then matches (Star dot) (adv (?k + 15) t) else [])"
    unfolding matches_Bol run matches_Seq_lit
    by (simp add: docker_line_def adv_adv dropWhile_eq_drop eval_nat_numeral del: matches.simps(5))
  moreover have "first (matches (Star dot) (adv (?k + 15) t)) = Some (adv (length (takeWhile (\<lambda>c. c \<noteq> 10) (rest t))) t)"
    if d: "docker_line (rest t)"
  proof -
    obtain w r where w: "rest t = w @ r" "10 \<notin> set w" "length w = ?k + 15"
      using docker_line_newline [OF d] by blast
    have "takeWhile (\<lambda>c. c \<noteq> 10) (rest t) = w @ takeWhile (\<lambda>c. c \<noteq> 10) r"
      unfolding w(1) using w(2) by (intro takeWhile_append2) auto
    then show ?thesis
      unfolding dot_def matches_star_One using w(3) by (simp add: w(1) adv_adv first_def)
  qed
  ultimately show ?thesis
    using length_takeWhile_le [of "\<lambda>c. c \<noteq> 10" "rest t"]
    by (auto simp: docker_run_def blank first_map Let_def simp del: matches.simps(3,5))
qed

text \<open>Inside a line no container starts.\<close>

lemma remaining_skip:
  "c \<noteq> 10 \<Longrightarrow> 10 \<notin> set w \<Longrightarrow> remaining (Some c) (w @ s) = remaining (Some (last (c # w))) s"
  by (induction w arbitrary: c) (simp_all add: bol_def)

lemma findall_docker_run:
  "length s < n \<Longrightarrow>
   map (\<lambda>t. length (rest t) + length (group 0 t)) (findall_from n docker_run p s) = remaining p s"
proof (induction n arbitrary: p s)
  case (Suc n)
  let ?t = "\<lparr>prev = p, rest = s, groups = []\<rparr>"
  show ?case
  proof (cases "bol p \<and> docker_line s")
    case True
    define m where "m = length (takeWhile (\<lambda>c. c \<noteq> 10) s)"
    obtain w r where w: "s = w @ r" "w \<noteq> []" "10 \<notin> set w" using True docker_line_newline by blast
    obtain c v where cv: "takeWhile (\<lambda>c. c \<noteq> 10) s = c # v" using w by (cases w) auto
    define u where "u = (adv m ?t)\<lparr>groups := [(0, take m s)]\<rparr>"
    have s: "s = c # v @ drop m s"
      using takeWhile_dropWhile_id [of "\<lambda>c. c \<noteq> 10" s] by (simp add: cv m_def dropWhile_eq_drop)
    have nl: "c \<noteq> 10" "10 \<notin> set v" using cv by (metis list.set_intros set_takeWhileD)+
    have m: "m = Suc (length v)" by (simp add: m_def cv)
    have le: "Suc (length v) \<le> length s" using length_takeWhile_le [of "\<lambda>c. c \<noteq> 10" s] by (simp add: cv)
    have f: "first (matches docker_run ?t) = Some u"
      unfolding first_docker_run using True by (simp add: Let_def u_def flip: m_def)
    have "startswith s (c # v)" by (metis s append_Cons startswith_append)
    then have "prev u = Some (last (c # v))"
      using prev_adv [of ?t "c # v"] by (simp add: u_def m)
    moreover have "rest u = drop m s" "group 0 u = take m s" by (simp_all add: u_def)
    moreover have "length (drop m s) < n" using Suc.prems le m by simp
    moreover have "length s - Suc (length v) < length s" "Suc (length s - Suc 0) = length s" using le by arith+
    ultimately have "map (\<lambda>t. length (rest t) + length (group 0 t)) (findall_from (Suc n) docker_run p s) =
        length s # remaining (Some (last (c # v))) (drop m s)"
      using Suc.IH le m by (simp add: f)
    moreover have "remaining p s = length s # remaining (Some c) t" if "s = c # t" for t
      using True that by simp
    then have "remaining p s = length s # remaining (Some c) (v @ drop m s)" using s .
    ultimately show ?thesis using remaining_skip [OF nl, of "drop m s"] by simp
  next
    case False
    then have "first (matches docker_run ?t) = None" by (auto simp: first_docker_run)
    then show ?thesis using Suc False by (cases s) auto
  qed
qed simp

lemma remaining_le: "k \<in> set (remaining p s) \<Longrightarrow> k \<le> length s"
  by (induction p s rule: remaining.induct) (auto split: if_splits)

lemma slices_Cons:
  assumes "list_all (\<lambda>b. length pre < b) bs"
  shows "slices (pre @ c # s) (length pre # bs) =
    (let rs = slices (pre @ c # s) (Suc (length pre) # bs) in (c # hd rs) # tl rs)"
  using assms by (cases bs) (auto simp: Let_def take_Cons' Suc_diff_Suc simp flip: Suc_diff_Suc)

lemma pieces_slices:
  "container_pieces p s = slices (pre @ s) (length pre # map (\<lambda>k. length (pre @ s) - k) (remaining p s))"
proof (induction p s arbitrary: pre rule: container_pieces.induct)
  case (2 p c s)
  let ?ks = "map (\<lambda>k. length (pre @ c # s) - k) (remaining (Some c) s)"
  have "container_pieces (Some c) s = slices (pre @ c # s) (Suc (length pre) # ?ks)" using 2 [of "pre @ [c]"] by simp
  moreover have "list_all (\<lambda>b. length pre < b) ?ks"
    using remaining_le [of _ "Some c" s] by (fastforce simp: list_all_iff)
  ultimately have "slices (pre @ c # s) (length pre # ?ks) =
      (c # hd (container_pieces (Some c) s)) # tl (container_pieces (Some c) s)" by (simp only: slices_Cons Let_def)
  then show ?case by (simp add: Let_def)
qed simp

lemma concat_pieces: "concat (container_pieces p s) = s"
proof -
  have "container_pieces p s \<noteq> [] \<and> concat (container_pieces p s) = s"
    by (induction p s rule: container_pieces.induct) (auto simp: Let_def neq_Nil_conv)
  then show ?thesis by simp
qed

text \<open>C18. \<open>build_container_blocks\<close> returns the pieces of the workflow that start at its container lines,
  white space and \<open>docker run --rm\<close> at the start of a line, and reach to the next one or the end:
  with the text before the first one they are the whole file, in order, without gap or overlap.\<close>

theorem container_blocks_exact:
  "build_container_blocks body = tl (container_pieces None body) \<and> concat (container_pieces None body) = body"
proof -
  have "map (match_start body) (re_findall docker_run body) =
      map (\<lambda>k. length body - k) (map (\<lambda>t. length (rest t) + length (group 0 t)) (re_findall docker_run body))"
    by (simp add: match_start_def)
  also have "\<dots> = map (\<lambda>k. length body - k) (remaining None body)"
    unfolding re_findall_def by (simp only: findall_docker_run lessI)
  finally have "build_container_blocks body = slices body (map (\<lambda>k. length body - k) (remaining None body))"
    by (simp add: build_container_blocks_def)
  moreover have "tl (slices body (a # bs)) = slices body bs" for a bs by (cases bs) auto
  ultimately have "build_container_blocks body = tl (container_pieces None body)"
    using pieces_slices [of None body "[]"] by simp
  then show ?thesis using concat_pieces by blast
qed

subsection \<open>The outcome of the script\<close>

lemma read_text_error:
  "read_text f = Inl e \<Longrightarrow> e = UnicodeDecodeError \<or> e = OSError ''cannot read'' []"
  by (cases f) (auto simp: read_text_def utf8_decode_def res_simps split: option.splits)

lemma split_on_sep_append: "split_on c (s @ c # t) = split_on c s @ split_on c t"
  by (induction s) (auto split: list.splits)

lemma posix_name_last: "47 \<notin> set t \<Longrightarrow> t \<noteq> [] \<Longrightarrow> t \<noteq> [46] \<Longrightarrow> posix_name (s @ 47 # t) = t"
  by (simp add: posix_name_def split_on_sep_append split_on_no_sep)

lemma workflow_name:
  assumes "47 \<notin> set (U w)" "U w \<noteq> []" "U w \<noteq> [46]"
  shows "posix_name (at_root i (''.github/workflows/'' @ w)) = U w"
proof -
  have "at_root i (''.github/workflows/'' @ w) = ((if root_dir i = [47] then [47] else root_dir i @ [47]) @
      U ''.github/workflows'') @ 47 # U w"
    by (simp add: at_root_def U_def)
  then show ?thesis using posix_name_last [OF assms] by (simp only:)
qed

lemma workflow_names:
  "posix_name (at_root i ''.github/workflows/ci.yml'') = U ''ci.yml''"
  "posix_name (at_root i ''.github/workflows/release.yml'') = U ''release.yml''"
  using workflow_name [of "''ci.yml''" i] workflow_name [of "''release.yml''" i] by (simp_all add: U_Cons)

definition required_files :: "string list" where
  "required_files = [''.github/workflows/ci.yml'', ''.github/workflows/release.yml'', ''Makefile.win'',
     ''scripts/build-macos-static.sh'', ''scripts/audit-artifact.py'', ''scripts/package-artifact.py'']"

definition baseline_files :: "string list" where
  "baseline_files = [''packaging/windows-baseline.sha256'', ''scripts/reproducible-windows-build.ps1'']"

text \<open>The two files of the Windows baseline: only text that is not UTF-8 is not reported.\<close>

definition baseline_undecodable :: "workflow_inputs \<Rightarrow> bool" where
  "baseline_undecodable i \<longleftrightarrow> read_root i ''packaging/windows-baseline.sha256'' = Inl UnicodeDecodeError \<or>
     \<not> isl (read_root i ''packaging/windows-baseline.sha256'') \<and>
     read_root i ''scripts/reproducible-windows-build.ps1'' = Inl UnicodeDecodeError"

lemma check_workflow_outcome:
  "check_workflow (tree_files i) (at_root i ''.github/workflows/ci.yml'') = Inl e \<longleftrightarrow>
     read_root i ''.github/workflows/ci.yml'' = Inl e"
  "check_workflow (tree_files i) (at_root i ''.github/workflows/release.yml'') = Inl e \<longleftrightarrow>
     read_root i ''.github/workflows/release.yml'' = Inl e"
  by (auto simp: check_workflow_def read_root_def res_simps workflow_names get_item_def STATIC_JOB_IDS_def
      EXPECTED_BUILD_CONTAINERS_def split: sum.splits) (metis sumE)+

lemma check_baseline_outcome:
  "(\<exists>e. check_windows_baseline (tree_files i) (at_root i ''packaging/windows-baseline.sha256'')
     (at_root i ''scripts/reproducible-windows-build.ps1'') = Inl e) \<longleftrightarrow> baseline_undecodable i"
  "check_windows_baseline (tree_files i) (at_root i ''packaging/windows-baseline.sha256'')
     (at_root i ''scripts/reproducible-windows-build.ps1'') = Inl e \<Longrightarrow> e = UnicodeDecodeError"
  using read_text_error [of "tree_files i (at_root i ''packaging/windows-baseline.sha256'')"]
    read_text_error [of "tree_files i (at_root i ''scripts/reproducible-windows-build.ps1'')"]
  by (auto simp: check_windows_baseline_def baseline_undecodable_def read_root_def Let_def
      split: sum.splits exc.splits)


text \<open>The iteration order of the two sets changes the order of messages, not the exit status.\<close>

lemma andThen_status:
  "(\<And>x. map_sum id g (f x) = map_sum id g (h x)) \<Longrightarrow> map_sum id g (andThen m f) = map_sum id g (andThen m h)"
  by (cases m) auto

lemma concat_set_Nil: "set xs = set ys \<Longrightarrow> concat (map f xs) = [] \<longleftrightarrow> concat (map f ys) = []"
  by auto

lemma workflow_order_irrelevant:
  assumes "runtime_orders i"
  shows "map_sum id fst (workflow_main i) = map_sum id fst (workflow_main
    (i\<lparr>ci_runtime_ids := RUNTIME_JOB_IDS, rc_runtime_ids := RUNTIME_JOB_IDS\<rparr>))"
proof -
  let ?j = "i\<lparr>ci_runtime_ids := RUNTIME_JOB_IDS, rc_runtime_ids := RUNTIME_JOB_IDS\<rparr>"
  have root: "at_root ?j = at_root i" "read_root ?j = read_root i"
    by (simp_all add: fun_eq_iff at_root_def read_root_def)
  have sel: "tree_files ?j = tree_files i" "wide_alnum ?j = wide_alnum i" "ci_runtime_ids ?j = RUNTIME_JOB_IDS"
    "rc_runtime_ids ?j = RUNTIME_JOB_IDS" by simp_all
  have status: "map_sum id fst (workflow_main k) = map_sum id (\<lambda>errors. if errors \<noteq> [] then 1 else 0) (workflow_errors k)" for k
    by (cases "workflow_errors k") (auto simp: workflow_main_def)
  have "map_sum id (\<lambda>errors. if errors \<noteq> [] then 1 else (0 :: int)) (workflow_errors i) =
      map_sum id (\<lambda>errors. if errors \<noteq> [] then 1 else 0) (workflow_errors ?j)"
    using assms unfolding workflow_errors_def Let_def root sel runtime_orders_def
    by (intro andThen_status) simp
  then show ?thesis by (simp only: status)
qed

subsection \<open>Conditions of the checks that are weaker than their messages\<close>

lemma contains_part:
  "contains s (a @ b) \<Longrightarrow> contains s a" "contains s (a @ b) \<Longrightarrow> contains s b"
proof -
  assume "contains s (a @ b)"
  then obtain l r where s: "s = l @ a @ b @ r" by (auto simp: contains_iff)
  show "contains s a" unfolding s by (rule contains_append)
  have "contains ((l @ a) @ b @ r) b" by (rule contains_append)
  then show "contains s b" by (simp add: s)
qed

text \<open>
  The message asks for eight files in the candidate and eight lines in its checksums, but the text that
  counts the lines contains the text that counts the files, so only the former is demanded.\<close>

theorem candidate_count_not_required:
  "lacks job ''-eq 8'' \<or> lacks job ''wc -l < candidate/SHA256SUMS)\" -eq 8'' \<longleftrightarrow>
     lacks job ''wc -l < candidate/SHA256SUMS)\" -eq 8''"
proof -
  have "U ''wc -l < candidate/SHA256SUMS)\" -eq 8'' = U ''wc -l < candidate/SHA256SUMS)\" '' @ U ''-eq 8''"
    by (simp add: U_Cons)
  then have "contains job (U ''-eq 8'')" if "contains job (U ''wc -l < candidate/SHA256SUMS)\" -eq 8'')"
    using contains_part(2) that by metis
  then show ?thesis by (auto simp: lacks_def)
qed

text \<open>The text that asks for the x86-64 runner is also in the one that names the arm64 runner.\<close>

theorem x86_64_runner_not_pinned:
  "contains job (U ''runs-on: ubuntu-24.04-arm'') \<Longrightarrow> \<not> lacks job ''runs-on: ubuntu-24.04''"
proof -
  have "U ''runs-on: ubuntu-24.04-arm'' = U ''runs-on: ubuntu-24.04'' @ U ''-arm''" by (simp add: U_Cons)
  then show "contains job (U ''runs-on: ubuntu-24.04-arm'') \<Longrightarrow> \<not> lacks job ''runs-on: ubuntu-24.04''"
    using contains_part(1) by (simp add: lacks_def)
qed

end
