(* ===== verification/Spec2Isabelle.thy ===== *)
theory Spec2Isabelle
  imports TsReport TsQuality AuditMain ReleaseErrors LinkInventory NoticeFacts WorkflowGate WorkflowMain
begin

text \<open>
  A verification library for the release tooling of siano-userland: the Python programs under
  \<open>scripts/\<close> and \<open>docs/release-validation/\<close> that build, audit and compare the release
  archives and judge the transport streams that a release is validated with.

  \<^bold>\<open>The program.\<close> A release starts from a build of three programs for seven platforms.
  \<open>android-link-inventory.py\<close> records what the linker took into an Android program, and
  \<open>audit-artifact.py --platform\<close> audits one program and writes evidence of it.
  \<open>package-artifact.py\<close> gathers programs, evidence, firmware and notices in a stage directory,
  writes the manifest and \<open>SHA256SUMS\<close>, packs it and has the archive audited;
  \<open>package-source.py\<close> does the same for the source. \<open>audit-artifact.py\<close> reads archives back
  and decides on them. \<open>check-release-version.py\<close> guards the version, \<open>source-identity.py\<close>
  prints the commit of a source manifest, \<open>release_runs.py\<close> checks the recorded workflow runs,
  and \<open>release_verify.py\<close> compares candidate, reproduction and tag bundles and the Git history
  between them. \<open>ts-check.py\<close> checks an MPEG transport stream and \<open>ts-quality-check.py\<close> holds
  its reports against the limits of a profile. \<open>provenance.py\<close> pins the inputs of all of them, and
  \<open>check-workflow-invariants.py\<close> checks before every build that the workflow files still run these
  programs, in the order that makes the release safe.

  \<^bold>\<open>How it is modelled.\<close> A \<open>str\<close> is the list of its code points, \<open>bytes\<close> a list of 8-bit words,
  a \<open>dict\<close> an association list in insertion order; an exception is a value of type \<open>exc\<close>, and a
  function that may raise returns a sum (\<open>Prelude\<close>). Structs are records, enumerations
  datatypes, and every function of the source is one definition with the source's name where
  it is free, in the order of its conditions. Reading a file, \<open>git\<close>, \<open>readelf\<close>, \<open>otool\<close>,
  \<open>lipo\<close>, \<open>nm\<close>, \<open>str.casefold\<close> and the zip, tar, gzip and bzip2 codecs are parameters: fields
  of the records \<open>container_lib\<close>, \<open>elf_host\<close>, \<open>darwin_host\<close>, \<open>verify_env\<close>, \<open>package_lib\<close>
  and \<open>git_root\<close>. SHA-256, UTF-8, the JSON decoder and printer, regular expressions and
  Python's decimal division are modelled and computed.

  \<^bold>\<open>The theories.\<close>
  \<^item> \<open>Prelude\<close>: the exception monad, its loops and the collections \<open>res_simps\<close> (when a computation
    succeeds) and \<open>raise_intros\<close> (what it may raise); dictionaries; and the locale
    \<open>unique_collector\<close>, the contract of a loop that fills a dictionary and refuses a repeated key,
    interpreted for the archive readers, the JSON hook, notices, properties and checksums.
  \<^item> \<open>PyText\<close>, \<open>Json\<close>, \<open>JsonFacts\<close>, \<open>JsonDump\<close>, \<open>JsonRoundtrip\<close>, \<open>Sha256\<close>, \<open>Regex\<close>: what the scripts
    use of the standard library, and that printing and reading JSON are inverse.
  \<^item> \<open>Provenance\<close>: \<open>provenance.py\<close> and the tables at the head of \<open>audit-artifact.py\<close>.
  \<^item> \<open>Archive\<close>, \<open>AuditRecords\<close>, \<open>AuditManifest\<close>, \<open>PortableExecutable\<close>, \<open>MachO\<close>, \<open>ElfText\<close>,
    \<open>DarwinText\<close>, \<open>AuditBinary\<close>, \<open>AuditSource\<close>: \<open>audit-artifact.py\<close>, from the members of an archive
    to the audits of one program, of a platform archive and of the source archive.
    \<open>ManifestFacts\<close>, \<open>BinaryFacts\<close> and \<open>SourceFacts\<close> show what each audit accepts, which exceptions it
    can raise, and that written evidence is accepted for the program it was written for. \<open>AuditMain\<close> is
    \<open>main\<close> with its exception handler, and shows the ways in which the program can end.
  \<^item> \<open>Packaging\<close>, \<open>PackageSource\<close>: \<open>package-artifact.py\<close> and \<open>package-source.py\<close>; the stage directory
    is a dictionary from path to content and mode. \<open>StageFacts\<close>, \<open>PackagingFacts\<close> and
    \<open>PackageSourceFacts\<close> (locale \<open>member_codec\<close>: a writer of members and the reader of the audit,
    interpreted for tar and zip) show that what they write passes the audit: members, manifest, checksums,
    evidence, modes, and the filter for forbidden source files. \<open>NoticeFacts\<close> shows it for the dependency
    notice: filled into the template of the repository, it has the fields that each platform's audit demands.
  \<^item> \<open>LinkInventory\<close>: \<open>android-link-inventory.py\<close>; its table passes the inventory check of the audit.
  \<^item> \<open>ReleaseRuns\<close>: \<open>release_runs.py\<close>, \<open>check-release-version.py\<close> and \<open>source-identity.py\<close>.
  \<^item> \<open>Workflow\<close>: \<open>check-workflow-invariants.py\<close>. \<open>WorkflowFacts\<close> turns the regular expressions that cut out
    jobs and sections into scans of the lines, \<open>WorkflowGate\<close> shows the order of steps in a workflow that
    the tag gate accepts and gives one, and \<open>WorkflowMain\<close> treats the container blocks and the outcome
    of the script. Three conditions are shown to be weaker than their messages
    (\<open>other_job_may_write\<close>, \<open>candidate_count_not_required\<close>, \<open>x86_64_runner_not_pinned\<close>).
  \<^item> \<open>ReleaseVerify\<close>, \<open>ReleaseCompare\<close>: \<open>release_verify.py\<close>. \<open>ReleaseFacts\<close> shows what an accepted release
    is and \<open>ReleaseErrors\<close> which exceptions leave it.
  \<^item> \<open>TsCheck\<close>, \<open>TsContinuity\<close>, \<open>TsReport\<close>: \<open>ts-check.py\<close>, as a state machine over packets, with its counters
    defined again from the whole list of packets and shown equal; the locale \<open>framed_reader\<close> is
    the contract of the chunked reading loop.
  \<^item> \<open>TsQuality\<close>: \<open>ts-quality-check.py\<close>, against the limits as exact ratios.

  \<^bold>\<open>Fuel and termination.\<close> All definitions are total. The JSON scanner recurses with fuel
  \<open>2 * length + 2\<close>; every step but one in two consumes a character, and \<open>json_loads_fuel\<close> shows
  that the fuel never runs out. A repetition of the regular expression matcher stops when an
  iteration consumes nothing, so it is bounded by the length of the rest of the text. The
  chunked readers terminate because every chunk but the last is not empty.

  \<^bold>\<open>Bounds.\<close> The round trips of documents hold for integers below \<open>int_limit\<close>, which has 4300
  digits, Python's own limit for reading an integer. The names of staged files are taken to be
  ASCII without line breaks, which is what \<open>verify_checksums\<close> can read; the members of a package
  are shown to be such names. The stage of a package cannot be computed on a sample, since its
  firmware, licences and libusb source are pinned by their digests; the properties of it are
  therefore stated over the outcome of the assembly.

  \<^bold>\<open>Not modelled.\<close> The self tests, which run the functions on temporary files, and the parsing of
  command lines by \<open>argparse\<close> are left out, with the reports that the programs print. The copies of
  helpers of \<open>package-artifact.py\<close> in \<open>package-source.py\<close> are modelled once, in \<open>Packaging\<close>. The C and
  C++ sources of the receiver, the shell and PowerShell scripts and the workflows themselves are in
  other languages; \<open>verify-android-elf.sh\<close> is a parameter of the Android audit.
\<close>

end
